(* ===== verification/Prelude.thy ===== *)
theory Prelude
  imports Main "HOL-Library.Word" "HOL-Library.List_Lexorder" "HOL-Library.Char_ord" "HOL-Library.Sublist"
begin

text \<open>
  The prelude: the machine types of the program, the results of fallible and panicking
  code, the operations of Rust's \<open>str\<close> and \<open>fmt\<close> that several parts use, and the
  fact collections that carry the component proofs.

  A \<open>String\<close> or \<open>Vec<u8>\<close> is a \<open>string\<close>: Isabelle's \<open>char\<close> is one byte, so
  \<open>length\<close> is Rust's \<open>len()\<close> and the order of HOL-Library.List_Lexorder is Rust's
  bytewise order of strings. An \<open>io::Error\<close> is its raw OS error number, if it has one,
  its kind where the code asks for it, and its text.
\<close>

unbundle bit_operations_syntax

named_theorems op_defs "definitions of operations, unfolded in component proofs"
named_theorems frame_simps "fields an operation leaves alone"

section \<open>Machine types\<close>

type_synonym u8 = "8 word"
type_synonym u16 = "16 word"
type_synonym u32 = "32 word"
type_synonym u64 = "64 word"
type_synonym usize = "64 word"
type_synonym pid_t = int
type_synonym c_int = int
type_synonym fd = nat

datatype error_kind = BrokenPipe | UnexpectedEof | WouldBlock | Interrupted | InvalidData | InvalidInput | OtherKind

record io_error =
  raw_os_error :: "int option"
  io_kind :: error_kind
  io_msg :: string

definition io_other :: "error_kind \<Rightarrow> string \<Rightarrow> io_error" where
  "io_other k m = \<lparr>raw_os_error = None, io_kind = k, io_msg = m\<rparr>"

text \<open>A panic (\<open>expect\<close>, \<open>unreachable!\<close>, \<open>assert!\<close>) is the left side of a sum.\<close>

type_synonym panic = string

section \<open>Results\<close>

text \<open>The \<open>?\<close> operator, and the propagation of a panic.\<close>

definition and_then :: "'e + 'a \<Rightarrow> ('a \<Rightarrow> 'e + 'b) \<Rightarrow> 'e + 'b" where
  "and_then r f = (case r of Inl e \<Rightarrow> Inl e | Inr a \<Rightarrow> f a)"

lemma and_then_simps [simp]:
  "and_then (Inl e) f = Inl e"
  "and_then (Inr a) f = f a"
  by (simp_all add: and_then_def)

lemma and_then_eq_Inr: "and_then r f = Inr b \<longleftrightarrow> (\<exists>a. r = Inr a \<and> f a = Inr b)"
  by (cases r) auto

lemma and_then_eq_Inl: "and_then r f = Inl e \<longleftrightarrow> r = Inl e \<or> (\<exists>a. r = Inr a \<and> f a = Inl e)"
  by (cases r) auto

lemma and_then_cong [fundef_cong]:
  "r = r' \<Longrightarrow> (\<And>a. r' = Inr a \<Longrightarrow> f a = g a) \<Longrightarrow> and_then r f = and_then r' g"
  by (cases r') auto

lemma and_then_assoc: "and_then (and_then r f) g = and_then r (\<lambda>a. and_then (f a) g)"
  by (cases r) auto

text \<open>A case distinction with a known result, as an elimination.\<close>

lemma case_sum_eq:
  "(case r of Inl e \<Rightarrow> f e | Inr x \<Rightarrow> g x) = y \<longleftrightarrow> (\<exists>e. r = Inl e \<and> f e = y) \<or> (\<exists>x. r = Inr x \<and> g x = y)"
  by (cases r) auto

lemma case_prod_eq: "(case p of (a, b) \<Rightarrow> f a b) = y \<longleftrightarrow> (\<exists>a b. p = (a, b) \<and> f a b = y)"
  by (cases p) auto

lemma case_option_eq:
  "(case r of None \<Rightarrow> f | Some x \<Rightarrow> g x) = y \<longleftrightarrow> (r = None \<and> f = y) \<or> (\<exists>x. r = Some x \<and> g x = y)"
  by (cases r) auto

lemmas outcome_elims = and_then_eq_Inr case_sum_eq case_prod_eq case_option_eq

definition isOk :: "'e + 'a \<Rightarrow> bool" where
  "isOk r = (case r of Inl _ \<Rightarrow> False | Inr _ \<Rightarrow> True)"

lemma isOk_simps [simp]: "isOk (Inr a)" "\<not> isOk (Inl e)"
  by (simp_all add: isOk_def)

lemma isOk_and_then: "isOk (and_then r f) \<longleftrightarrow> (\<exists>a. r = Inr a \<and> isOk (f a))"
  by (cases r) auto

lemma isOkE: "isOk r \<Longrightarrow> (\<And>a. r = Inr a \<Longrightarrow> P) \<Longrightarrow> P"
  by (cases r) auto

lemma isOkI: "(\<And>e. r \<noteq> Inl e) \<Longrightarrow> isOk r"
  by (cases r) auto

text \<open>\<open>iter().map(f).collect::<Result<Vec<_>, _>>()\<close>: the first error wins.\<close>

fun collect_results :: "('a \<Rightarrow> 'e + 'b) \<Rightarrow> 'a list \<Rightarrow> 'e + 'b list" where
  "collect_results f [] = Inr []"
| "collect_results f (x # xs) =
     and_then (f x) (\<lambda>y. and_then (collect_results f xs) (\<lambda>ys. Inr (y # ys)))"

lemma collect_results_Inr:
  "collect_results f xs = Inr ys \<longleftrightarrow> list_all2 (\<lambda>x y. f x = Inr y) xs ys"
proof (induction xs arbitrary: ys)
  case Nil
  then show ?case by auto
next
  case (Cons x xs)
  then show ?case by (cases ys) (auto simp: and_then_eq_Inr)
qed

lemma collect_results_isOk: "isOk (collect_results f xs) \<longleftrightarrow> (\<forall>x \<in> set xs. isOk (f x))"
  by (induction xs) (auto simp: isOk_and_then elim!: isOkE)

section \<open>Decimal and hexadecimal printing\<close>

definition digit_char :: "nat \<Rightarrow> char" where
  "digit_char d = (if d < 10 then char_of (48 + d) else char_of (87 + d))"

fun show_base :: "nat \<Rightarrow> nat \<Rightarrow> string" where
  "show_base b n = (if n < b \<or> b \<le> 1 then [digit_char n]
     else show_base b (n div b) @ [digit_char (n mod b)])"

declare show_base.simps [simp del]

definition show_nat :: "nat \<Rightarrow> string" where
  "show_nat n = show_base 10 n"

definition show_int :: "int \<Rightarrow> string" where
  "show_int i = (if i < 0 then CHR ''-'' # show_nat (nat (- i)) else show_nat (nat i))"

definition show_bool :: "bool \<Rightarrow> string" where
  "show_bool b = (if b then ''true'' else ''false'')"

lemma show_base_nonempty [simp]: "show_base b n \<noteq> []" "[] \<noteq> show_base b n"
proof -
  show "show_base b n \<noteq> []" by (subst show_base.simps) simp
  then show "[] \<noteq> show_base b n" by metis
qed

lemma show_nat_nonempty [simp]: "show_nat n \<noteq> []"
  by (simp add: show_nat_def)

lemma of_char_digit_char:
  "d < 16 \<Longrightarrow> of_char (digit_char d) = (if d < 10 then 48 + d else (87 + d :: nat))"
  by (simp add: digit_char_def take_bit_eq_mod)

lemma digit_char_inj: "a < 16 \<Longrightarrow> b < 16 \<Longrightarrow> digit_char a = digit_char b \<Longrightarrow> a = b"
proof -
  assume a: "a < 16" and b: "b < 16" and eq: "digit_char a = digit_char b"
  from eq have "(of_char (digit_char a) :: nat) = of_char (digit_char b)" by simp
  then show "a = b" using a b by (auto simp: of_char_digit_char split: if_splits)
qed

lemma show_base_inj:
  "1 < b \<Longrightarrow> b \<le> 16 \<Longrightarrow> show_base b m = show_base b n \<Longrightarrow> m = n"
proof (induction m arbitrary: n rule: less_induct)
  case (less m)
  have m: "show_base b m = (if m < b then [digit_char m] else show_base b (m div b) @ [digit_char (m mod b)])"
    using less.prems by (simp add: show_base.simps [of b m])
  have n: "show_base b n = (if n < b then [digit_char n] else show_base b (n div b) @ [digit_char (n mod b)])"
    using less.prems by (simp add: show_base.simps [of b n])
  have digit: "digit_char (m mod b) = digit_char (n mod b) \<Longrightarrow> m mod b = n mod b"
    using less.prems by (intro digit_char_inj) (auto intro: less_le_trans [OF mod_less_divisor])
  show ?case
  proof (cases "m < b \<or> n < b")
    case True
    with m n less.prems digit show ?thesis by (auto split: if_splits)
  next
    case False
    with m n less.prems have eq: "show_base b (m div b) = show_base b (n div b)"
      and "digit_char (m mod b) = digit_char (n mod b)" by auto
    have "m div b = n div b"
      using False less.prems eq by (intro less.IH) auto
    with digit \<open>digit_char (m mod b) = digit_char (n mod b)\<close> show ?thesis
      by (metis div_mult_mod_eq)
  qed
qed

lemma show_nat_inj: "show_nat m = show_nat n \<longleftrightarrow> m = n"
  by (auto simp: show_nat_def dest: show_base_inj [rotated 2])

lemma show_base_digits:
  "1 < b \<Longrightarrow> b \<le> 16 \<Longrightarrow> c \<in> set (show_base b n) \<Longrightarrow> \<exists>d < b. c = digit_char d"
proof (induction n rule: less_induct)
  case (less n)
  show ?case
  proof (cases "n < b")
    case True
    with less.prems show ?thesis by (auto simp: show_base.simps [of b n])
  next
    case False
    with less.prems have "c \<in> set (show_base b (n div b)) \<or> c = digit_char (n mod b)"
      by (auto simp: show_base.simps [of b n])
    moreover have "n mod b < b" using less.prems by simp
    moreover have "n div b < n" using False less.prems by simp
    ultimately show ?thesis
      using less.prems less.IH [of "n div b"] by blast
  qed
qed

section \<open>Strings\<close>

text \<open>\<open>str::split_once(c)\<close> for an ASCII character: the parts before and after its first occurrence.\<close>

fun split_once :: "char \<Rightarrow> string \<Rightarrow> (string \<times> string) option" where
  "split_once c [] = None"
| "split_once c (x # xs) =
     (if x = c then Some ([], xs)
      else map_option (\<lambda>(k, v). (x # k, v)) (split_once c xs))"

lemma split_once_Some:
  "split_once c s = Some (k, v) \<longleftrightarrow> s = k @ c # v \<and> c \<notin> set k"
proof (induction s arbitrary: k)
  case Nil
  then show ?case by simp
next
  case (Cons x xs)
  then show ?case by (cases k) auto
qed

lemma split_once_None: "split_once c s = None \<longleftrightarrow> c \<notin> set s"
  by (induction s) auto

text \<open>
  \<open>str::lines()\<close>: the pieces between newlines, each without one trailing carriage
  return; no piece after a final newline.
\<close>

definition strip_cr :: "string \<Rightarrow> string" where
  "strip_cr l = (if l \<noteq> [] \<and> last l = CHR 0x0D then butlast l else l)"

fun lines_from :: "string \<Rightarrow> string \<Rightarrow> string list" where
  "lines_from acc [] = (if acc = [] then [] else [rev acc])"
| "lines_from acc (c # cs) =
     (if c = CHR 0x0A then strip_cr (rev acc) # lines_from [] cs else lines_from (c # acc) cs)"

definition str_lines :: "string \<Rightarrow> string list" where
  "str_lines s = lines_from [] s"

definition starts_with_char :: "string \<Rightarrow> char \<Rightarrow> bool" where
  "starts_with_char s c \<longleftrightarrow> s \<noteq> [] \<and> hd s = c"

definition ends_with_char :: "string \<Rightarrow> char \<Rightarrow> bool" where
  "ends_with_char s c \<longleftrightarrow> s \<noteq> [] \<and> last s = c"

definition is_ascii_alphanumeric :: "char \<Rightarrow> bool" where
  "is_ascii_alphanumeric c \<longleftrightarrow>
     (CHR ''0'' \<le> c \<and> c \<le> CHR ''9'') \<or> (CHR ''a'' \<le> c \<and> c \<le> CHR ''z'') \<or>
     (CHR ''A'' \<le> c \<and> c \<le> CHR ''Z'')"

end
