(* ===== verification/Utf8.thy ===== *)
theory Utf8
  imports Prelude
begin

text \<open>
  UTF-8 as the standard library decodes it: \<open>String::from_utf8\<close> (validation),
  \<open>from_utf8_lossy\<close> (each maximal invalid part becomes one U+FFFD), \<open>str::chars\<close> and
  the encoding of a \<open>char\<close>. A Rust \<open>char\<close> is a \<open>nat\<close> with \<open>is_scalar\<close>. The logs
  (\<open>sanitize\<close>), the environment files (\<open>read_to_string\<close>, \<open>trim_start\<close>), the labels
  of beamctl and the PTY protocol decode strings through these definitions.
\<close>

section \<open>Decoding\<close>

definition is_scalar :: "nat \<Rightarrow> bool" where
  "is_scalar c \<longleftrightarrow> c < 0xD800 \<or> (0xE000 \<le> c \<and> c < 0x110000)"

definition replacement_char :: nat where
  "replacement_char = 0xFFFD"

definition byte_at :: "string \<Rightarrow> nat \<Rightarrow> nat" where
  "byte_at s i = (if i < length s then of_char (s ! i) else 0)"

definition is_cont :: "nat \<Rightarrow> bool" where
  "is_cont b \<longleftrightarrow> 0x80 \<le> b \<and> b \<le> 0xBF"

definition second_ok :: "nat \<Rightarrow> nat \<Rightarrow> bool" where
  "second_ok b0 b1 \<longleftrightarrow>
     (if b0 = 0xE0 then 0xA0 \<le> b1 \<and> b1 \<le> 0xBF
      else if b0 = 0xED then 0x80 \<le> b1 \<and> b1 \<le> 0x9F
      else if b0 = 0xF0 then 0x90 \<le> b1 \<and> b1 \<le> 0xBF
      else if b0 = 0xF4 then 0x80 \<le> b1 \<and> b1 \<le> 0x8F
      else is_cont b1)"

text \<open>One step at a non-empty string: \<open>Inr (c, n)\<close> a character of \<open>n\<close> bytes, \<open>Inl n\<close> an invalid part.\<close>

definition utf8_step :: "string \<Rightarrow> nat + (nat \<times> nat)" where
  "utf8_step s = (let b0 = byte_at s 0; b1 = byte_at s 1; b2 = byte_at s 2; b3 = byte_at s 3 in
     if b0 < 0x80 then Inr (b0, 1)
     else if 0xC2 \<le> b0 \<and> b0 \<le> 0xDF then
       (if is_cont b1 then Inr ((b0 - 0xC0) * 64 + (b1 - 0x80), 2) else Inl 1)
     else if 0xE0 \<le> b0 \<and> b0 \<le> 0xEF then
       (if \<not> second_ok b0 b1 then Inl 1
        else if \<not> is_cont b2 then Inl 2
        else Inr ((b0 - 0xE0) * 4096 + (b1 - 0x80) * 64 + (b2 - 0x80), 3))
     else if 0xF0 \<le> b0 \<and> b0 \<le> 0xF4 then
       (if \<not> second_ok b0 b1 then Inl 1
        else if \<not> is_cont b2 then Inl 2
        else if \<not> is_cont b3 then Inl 3
        else Inr ((b0 - 0xF0) * 262144 + (b1 - 0x80) * 4096 + (b2 - 0x80) * 64 + (b3 - 0x80), 4))
     else Inl 1)"

lemma utf8_step_progress: "utf8_step s = Inl n \<Longrightarrow> 0 < n" "utf8_step s = Inr (c, n) \<Longrightarrow> 0 < n"
  by (auto simp: utf8_step_def Let_def split: if_splits)

function decode_lossy :: "string \<Rightarrow> nat list" where
  "decode_lossy s = (if s = [] then [] else
     case utf8_step s of
       Inr (c, n) \<Rightarrow> c # decode_lossy (drop n s)
     | Inl n \<Rightarrow> replacement_char # decode_lossy (drop n s))"
  by pat_completeness auto
termination
  by (relation "measure length") (auto dest: utf8_step_progress)

function valid_utf8 :: "string \<Rightarrow> bool" where
  "valid_utf8 s = (if s = [] then True else
     case utf8_step s of Inr (c, n) \<Rightarrow> valid_utf8 (drop n s) | Inl n \<Rightarrow> False)"
  by pat_completeness auto
termination
  by (relation "measure length") (auto dest: utf8_step_progress)

declare decode_lossy.simps [simp del] valid_utf8.simps [simp del]

text \<open>\<open>str::chars\<close> on a valid string.\<close>

abbreviation chars :: "string \<Rightarrow> nat list" where
  "chars \<equiv> decode_lossy"

section \<open>Encoding\<close>

definition encode_char :: "nat \<Rightarrow> string" where
  "encode_char c =
     (if c < 0x80 then [char_of c]
      else if c < 0x800 then [char_of (0xC0 + c div 64), char_of (0x80 + c mod 64)]
      else if c < 0x10000 then
        [char_of (0xE0 + c div 4096), char_of (0x80 + c div 64 mod 64), char_of (0x80 + c mod 64)]
      else
        [char_of (0xF0 + c div 262144), char_of (0x80 + c div 4096 mod 64),
         char_of (0x80 + c div 64 mod 64), char_of (0x80 + c mod 64)])"

definition encode_chars :: "nat list \<Rightarrow> string" where
  "encode_chars cs = concat (map encode_char cs)"

lemma encode_chars_simps [simp]:
  "encode_chars [] = []"
  "encode_chars (c # cs) = encode_char c @ encode_chars cs"
  by (simp_all add: encode_chars_def)

lemma encode_chars_append: "encode_chars (cs @ ds) = encode_chars cs @ encode_chars ds"
  by (simp add: encode_chars_def)

section \<open>Round trips\<close>

lemma of_char_of: "n < 256 \<Longrightarrow> of_char (char_of n :: char) = (n :: nat)"
  by (simp add: take_bit_eq_mod)

lemma byte_at_simps:
  "byte_at [] i = 0"
  "byte_at (x # xs) 0 = of_char x"
  "byte_at (x # xs) (Suc i) = byte_at xs i"
  "byte_at (x # xs) 1 = byte_at xs 0"
  "byte_at (x # xs) 2 = byte_at xs 1"
  "byte_at (x # xs) 3 = byte_at xs 2"
  by (simp_all add: byte_at_def numeral_2_eq_2 numeral_3_eq_3)

lemma encode_char_nonempty [simp]: "encode_char c \<noteq> []"
  by (simp add: encode_char_def)

lemma sextets:
  "c = c div 4096 * 4096 + c div 64 mod 64 * 64 + c mod (64::nat)"
  "c = c div 262144 * 262144 + c div 4096 mod 64 * 4096 + c div 64 mod 64 * 64 + c mod (64::nat)"
proof -
  have d: "c div 4096 = c div 64 div 64" "c div 262144 = c div 4096 div 64"
    by (simp_all flip: div_mult2_eq)
  note e = div_mult_mod_eq [of c 64] div_mult_mod_eq [of "c div 64" 64] div_mult_mod_eq [of "c div 4096" 64]
  show "c = c div 4096 * 4096 + c div 64 mod 64 * 64 + c mod 64"
    using e(1,2) unfolding d(1) by linarith
  then show "c = c div 262144 * 262144 + c div 4096 mod 64 * 4096 + c div 64 mod 64 * 64 + c mod 64"
    using e(3) unfolding d(2) by linarith
qed

lemma utf8_step_encode_2:
  assumes "0x80 \<le> c" "c < 0x800"
  shows "utf8_step (encode_char c @ rest) = Inr (c, length (encode_char c))"
proof -
  have "c div 64 < 32" "2 \<le> c div 64" using assms by simp_all
  then show ?thesis
    using assms
    by (simp add: encode_char_def utf8_step_def byte_at_simps of_char_of is_cont_def Let_def)
qed

lemma utf8_step_encode_3:
  assumes "0x800 \<le> c" "c < 0x10000" "is_scalar c"
  shows "utf8_step (encode_char c @ rest) = Inr (c, length (encode_char c))"
proof -
  define a b d where "a = c div 4096" and "b = c div 64 mod 64" and "d = c mod 64"
  have c: "c = a * 4096 + b * 64 + d" and "b < 64" "d < 64" "a < 16"
    using assms sextets(1) [of c] unfolding a_def b_def d_def by simp_all
  have "a = 0 \<longrightarrow> 32 \<le> b" "a = 13 \<longrightarrow> b \<le> 31"
    using assms c \<open>d < 64\<close> \<open>b < 64\<close> by (auto simp: is_scalar_def)
  then show ?thesis
    using assms \<open>b < 64\<close> \<open>d < 64\<close> \<open>a < 16\<close>
    by (simp add: encode_char_def utf8_step_def byte_at_simps of_char_of is_cont_def second_ok_def Let_def
        flip: a_def b_def d_def c)
qed

lemma utf8_step_encode_4:
  assumes "0x10000 \<le> c" "c < 0x110000"
  shows "utf8_step (encode_char c @ rest) = Inr (c, length (encode_char c))"
proof -
  define a b d e where "a = c div 262144" and "b = c div 4096 mod 64" and "d = c div 64 mod 64" and "e = c mod 64"
  have c: "c = a * 262144 + b * 4096 + d * 64 + e" and "b < 64" "d < 64" "e < 64" "a < 5"
    using assms sextets(2) [of c] unfolding a_def b_def d_def e_def by simp_all
  have "a = 0 \<longrightarrow> 16 \<le> b" "a = 4 \<longrightarrow> b \<le> 15"
    using assms c \<open>d < 64\<close> \<open>b < 64\<close> \<open>e < 64\<close> by auto
  then show ?thesis
    using assms \<open>b < 64\<close> \<open>d < 64\<close> \<open>e < 64\<close> \<open>a < 5\<close>
    by (simp add: encode_char_def utf8_step_def byte_at_simps of_char_of is_cont_def second_ok_def Let_def
        flip: a_def b_def d_def e_def c)
qed

lemma utf8_step_encode:
  "is_scalar c \<Longrightarrow> utf8_step (encode_char c @ rest) = Inr (c, length (encode_char c))"
proof -
  assume c: "is_scalar c"
  consider "c < 0x80" | "0x80 \<le> c" "c < 0x800" | "0x800 \<le> c" "c < 0x10000" | "0x10000 \<le> c" "c < 0x110000"
    using c by (force simp: is_scalar_def)
  then show ?thesis
  proof cases
    case 1
    then show ?thesis
      by (simp add: encode_char_def utf8_step_def byte_at_simps of_char_of Let_def)
  qed (use c utf8_step_encode_2 utf8_step_encode_3 utf8_step_encode_4 in auto)
qed

lemma decode_encode_append:
  "list_all is_scalar cs \<Longrightarrow> decode_lossy (encode_chars cs @ rest) = cs @ decode_lossy rest"
  by (induction cs)
    (auto simp: decode_lossy.simps [of "encode_char _ @ _"] utf8_step_encode)

lemma decode_lossy_Nil [simp]: "decode_lossy [] = []"
  by (simp add: decode_lossy.simps)

lemma valid_utf8_Nil [simp]: "valid_utf8 []"
  by (simp add: valid_utf8.simps)

lemma decode_encode: "list_all is_scalar cs \<Longrightarrow> decode_lossy (encode_chars cs) = cs"
  using decode_encode_append [of cs "[]"] by simp

lemma valid_encode_append:
  "list_all is_scalar cs \<Longrightarrow> valid_utf8 (encode_chars cs @ rest) = valid_utf8 rest"
  by (induction cs) (auto simp: valid_utf8.simps [of "encode_char _ @ _"] utf8_step_encode)

lemma valid_encode: "list_all is_scalar cs \<Longrightarrow> valid_utf8 (encode_chars cs)"
  using valid_encode_append [of cs "[]"] by simp

text \<open>The other direction: a decoded character is a scalar value, and its encoding is what was read.\<close>

lemma utf8_step_InrE:
  assumes "utf8_step s = Inr (c, n)"
  obtains
    (one) "n = 1" "c = byte_at s 0" "c < 0x80"
  | (two) x y where "n = 2" "byte_at s 0 = 0xC0 + x" "byte_at s 1 = 0x80 + y"
      "c = x * 64 + y" "2 \<le> x" "x < 32" "y < 64"
  | (three) x y z where "n = 3" "byte_at s 0 = 0xE0 + x" "byte_at s 1 = 0x80 + y" "byte_at s 2 = 0x80 + z"
      "c = x * 4096 + y * 64 + z" "x < 16" "y < 64" "z < 64" "x = 0 \<longrightarrow> 32 \<le> y" "x = 13 \<longrightarrow> y < 32"
  | (four) x y z w where "n = 4" "byte_at s 0 = 0xF0 + x" "byte_at s 1 = 0x80 + y" "byte_at s 2 = 0x80 + z"
      "byte_at s 3 = 0x80 + w" "c = x * 262144 + y * 4096 + z * 64 + w"
      "x < 5" "y < 64" "z < 64" "w < 64" "x = 0 \<longrightarrow> 16 \<le> y" "x = 4 \<longrightarrow> y < 16"
proof -
  define b0 b1 b2 b3 where b: "b0 = byte_at s 0" "b1 = byte_at s 1" "b2 = byte_at s 2" "b3 = byte_at s 3"
  note bs = b [symmetric]
  consider
      "n = 1" "c = b0" "b0 < 0x80"
    | "n = 2" "0xC2 \<le> b0" "b0 \<le> 0xDF" "is_cont b1" "c = (b0 - 0xC0) * 64 + (b1 - 0x80)"
    | "n = 3" "0xE0 \<le> b0" "b0 \<le> 0xEF" "second_ok b0 b1" "is_cont b2"
      "c = (b0 - 0xE0) * 4096 + (b1 - 0x80) * 64 + (b2 - 0x80)"
    | "n = 4" "0xF0 \<le> b0" "b0 \<le> 0xF4" "second_ok b0 b1" "is_cont b2" "is_cont b3"
      "c = (b0 - 0xF0) * 262144 + (b1 - 0x80) * 4096 + (b2 - 0x80) * 64 + (b3 - 0x80)"
    using assms by (auto simp: utf8_step_def Let_def bs simp del: One_nat_def split: if_splits)
  then show thesis
  proof cases
    case 1
    then show ?thesis by (intro one) (simp_all add: bs)
  next
    case 2
    then show ?thesis
      by (intro two [of "b0 - 0xC0" "b1 - 0x80"]) (auto simp: is_cont_def bs simp del: One_nat_def)
  next
    case 3
    then show ?thesis
      by (intro three [of "b0 - 0xE0" "b1 - 0x80" "b2 - 0x80"]) (auto simp: is_cont_def second_ok_def bs simp del: One_nat_def split: if_splits)
  next
    case 4
    then show ?thesis
      by (intro four [of "b0 - 0xF0" "b1 - 0x80" "b2 - 0x80" "b3 - 0x80"])
        (auto simp: is_cont_def second_ok_def bs simp del: One_nat_def split: if_splits)
  qed
qed

lemma utf8_step_scalar: "utf8_step s = Inr (c, n) \<Longrightarrow> is_scalar c"
proof (erule utf8_step_InrE)
  fix x y z w :: nat
  assume "c = x * 262144 + y * 4096 + z * 64 + w" "x < 5" "y < 64" "z < 64" "w < 64"
    "x = 0 \<longrightarrow> 16 \<le> y" "x = 4 \<longrightarrow> y < 16"
  moreover from this have "0xE000 \<le> c" by (cases "x = 0") auto
  moreover from calculation have "c < 0x110000" by (cases "x = 4") auto
  ultimately show "is_scalar c" by (simp add: is_scalar_def)
next
  fix x y z :: nat
  assume "c = x * 4096 + y * 64 + z" "x < 16" "y < 64" "z < 64" "x = 13 \<longrightarrow> y < 32"
  then show "is_scalar c" by (cases "x \<le> 13"; cases "x = 13") (auto simp: is_scalar_def)
qed (auto simp: is_scalar_def)

lemma decode_scalars: "list_all is_scalar (decode_lossy s)"
proof (induction s rule: decode_lossy.induct)
  case (1 s)
  have "is_scalar replacement_char" by (simp add: replacement_char_def is_scalar_def)
  with 1 show ?case
    by (subst decode_lossy.simps) (auto simp: utf8_step_scalar split: sum.splits)
qed

lemma char_of_byte_at: "i < length s \<Longrightarrow> s ! i = char_of (byte_at s i)"
  by (simp add: byte_at_def)

lemma byte_at_nonzero: "0 < byte_at s i \<Longrightarrow> i < length s"
  by (simp add: byte_at_def split: if_splits)

lemma take_numerals:
  fixes s :: string
  shows "0 < length s \<Longrightarrow> take 1 s = [s ! 0]"
  "1 < length s \<Longrightarrow> take 2 s = [s ! 0, s ! 1]"
  "2 < length s \<Longrightarrow> take 3 s = [s ! 0, s ! 1, s ! 2]"
  "3 < length s \<Longrightarrow> take 4 s = [s ! 0, s ! 1, s ! 2, s ! 3]"
proof -
  have one: "0 < length s \<Longrightarrow> take 1 s = [s ! 0]" for s :: string by (cases s) auto
  have cons: "Suc i < length s \<Longrightarrow> take (Suc (Suc i)) s = take (Suc i) s @ [s ! Suc i]" for i and s :: string
    by (simp add: take_Suc_conv_app_nth)
  show "0 < length s \<Longrightarrow> take 1 s = [s ! 0]" by (rule one)
  show two: "1 < length s \<Longrightarrow> take 2 s = [s ! 0, s ! 1]"
    using cons [of 0 s] by (cases s) (auto simp: numeral_2_eq_2)
  show three: "2 < length s \<Longrightarrow> take 3 s = [s ! 0, s ! 1, s ! 2]"
    using two cons [of 1 s] by (simp add: numeral_3_eq_3 numeral_2_eq_2)
  show "3 < length s \<Longrightarrow> take 4 s = [s ! 0, s ! 1, s ! 2, s ! 3]"
    using three cons [of 2 s] by (simp add: eval_nat_numeral)
qed

lemma sextets_eq:
  "y < 64 \<Longrightarrow> (x * 64 + y) div 64 = x" "y < 64 \<Longrightarrow> (x * 64 + y) mod 64 = (y :: nat)"
  by simp_all

lemma sextets_div:
  assumes "y < 64" "z < (64 :: nat)"
  shows "(x * 4096 + y * 64 + z) div 4096 = x" "(x * 4096 + y * 64 + z) div 64 mod 64 = y"
    "(x * 4096 + y * 64 + z) mod 64 = z"
proof -
  have e: "x * 4096 + y * 64 + z = (x * 64 + y) * 64 + z" by simp
  show "(x * 4096 + y * 64 + z) div 4096 = x" using assms by simp
  show "(x * 4096 + y * 64 + z) div 64 mod 64 = y" "(x * 4096 + y * 64 + z) mod 64 = z"
    unfolding e sextets_eq [OF assms(2)] by (rule sextets_eq assms refl)+
qed

lemma sextets_div4:
  assumes "y < 64" "z < 64" "w < (64 :: nat)"
  shows "(x * 262144 + y * 4096 + z * 64 + w) div 262144 = x"
    "(x * 262144 + y * 4096 + z * 64 + w) div 4096 mod 64 = y"
    "(x * 262144 + y * 4096 + z * 64 + w) div 64 mod 64 = z"
    "(x * 262144 + y * 4096 + z * 64 + w) mod 64 = w"
proof -
  have e: "x * 262144 + y * 4096 + z * 64 + w = (x * 64 + y) * 4096 + z * 64 + w" by simp
  show "(x * 262144 + y * 4096 + z * 64 + w) div 262144 = x" using assms by simp
  show "(x * 262144 + y * 4096 + z * 64 + w) div 4096 mod 64 = y"
    "(x * 262144 + y * 4096 + z * 64 + w) div 64 mod 64 = z"
    "(x * 262144 + y * 4096 + z * 64 + w) mod 64 = w"
    unfolding e sextets_div [OF assms(2,3)] by (rule sextets_eq assms refl)+
qed

lemma utf8_step_take:
  assumes "s \<noteq> []" "utf8_step s = Inr (c, n)"
  shows "take n s = encode_char c"
  using assms(2)
proof (cases rule: utf8_step_InrE)
  case one
  then show ?thesis
    using assms(1) by (simp add: encode_char_def take_numerals(1) [simplified] char_of_byte_at)
next
  case (two x y)
  then have "1 < length s" by (intro byte_at_nonzero) simp
  with two show ?thesis
    by (simp add: encode_char_def take_numerals(2) char_of_byte_at assms(1) del: One_nat_def)
next
  case (three x y z)
  then have "1 < length s" "2 < length s" by (auto intro!: byte_at_nonzero)
  moreover have "0x800 \<le> c" using three(5,9) by (cases "x = 0") auto
  moreover have "c < 0x10000" using three(5-8) by simp
  moreover have "c div 4096 = x" "c div 64 mod 64 = y" "c mod 64 = z"
    unfolding three(5) by (rule sextets_div three)+
  ultimately show ?thesis
    using three(1-4) by (simp add: encode_char_def take_numerals(3) char_of_byte_at assms(1) del: One_nat_def)
next
  case (four x y z w)
  then have "1 < length s" "2 < length s" "3 < length s" by (auto intro!: byte_at_nonzero)
  moreover have "0x10000 \<le> c" using four(6,11) by (cases "x = 0") auto
  moreover have "c div 262144 = x" "c div 4096 mod 64 = y" "c div 64 mod 64 = z" "c mod 64 = w"
    unfolding four(6) by (rule sextets_div4 four)+
  ultimately show ?thesis
    using four(1-5) by (simp add: encode_char_def take_numerals(4) char_of_byte_at assms(1) del: One_nat_def)
qed

lemma encode_decode: "valid_utf8 s \<Longrightarrow> encode_chars (decode_lossy s) = s"
proof (induction s rule: decode_lossy.induct)
  case (1 s)
  show ?case
  proof (cases "s = []")
    case False
    with "1.prems" obtain c n where step: "utf8_step s = Inr (c, n)" and v: "valid_utf8 (drop n s)"
      by (auto simp: valid_utf8.simps [of s] split: sum.splits)
    then have "encode_chars (decode_lossy (drop n s)) = drop n s"
      using "1.IH"(2) [OF False step refl] by blast
    with step False utf8_step_take [OF False step] show ?thesis
      by (simp add: decode_lossy.simps [of s]) (metis append_take_drop_id)
  qed simp
qed

lemma encode_chars_inj:
  "list_all is_scalar cs \<Longrightarrow> list_all is_scalar ds \<Longrightarrow> encode_chars cs = encode_chars ds \<longleftrightarrow> cs = ds"
  using decode_encode by metis

lemma valid_utf8_iff: "valid_utf8 s \<longleftrightarrow> (\<exists>cs. list_all is_scalar cs \<and> s = encode_chars cs)"
  using encode_decode decode_scalars valid_encode by metis

section \<open>Character classes of the standard library\<close>

text \<open>\<open>char::is_control\<close> (general category Cc) and \<open>char::is_whitespace\<close> (White_Space).\<close>

definition is_control :: "nat \<Rightarrow> bool" where
  "is_control c \<longleftrightarrow> c \<le> 0x1F \<or> (0x7F \<le> c \<and> c \<le> 0x9F)"

definition is_whitespace :: "nat \<Rightarrow> bool" where
  "is_whitespace c \<longleftrightarrow>
     (0x09 \<le> c \<and> c \<le> 0x0D) \<or> c = 0x20 \<or> c = 0x85 \<or> c = 0xA0 \<or> c = 0x1680 \<or>
     (0x2000 \<le> c \<and> c \<le> 0x200A) \<or> c = 0x2028 \<or> c = 0x2029 \<or> c = 0x202F \<or> c = 0x205F \<or> c = 0x3000"

text \<open>\<open>str::trim_start\<close>.\<close>

definition trim_start :: "string \<Rightarrow> string" where
  "trim_start s = encode_chars (dropWhile is_whitespace (chars s))"

text \<open>An ASCII character in front of a string is decoded as itself.\<close>

lemma decode_ascii_Cons:
  "of_char x < (0x80 :: nat) \<Longrightarrow> decode_lossy (x # xs) = of_char x # decode_lossy xs"
  by (simp add: decode_lossy.simps [of "x # xs"] utf8_step_def byte_at_simps Let_def)

lemma valid_ascii_Cons: "of_char x < (0x80 :: nat) \<Longrightarrow> valid_utf8 (x # xs) = valid_utf8 xs"
  by (simp add: valid_utf8.simps [of "x # xs"] utf8_step_def byte_at_simps Let_def)

lemma trim_start_ascii:
  assumes "valid_utf8 (x # xs)" "of_char x < (0x80 :: nat)" "\<not> is_whitespace (of_char x)"
  shows "trim_start (x # xs) = x # xs"
  using assms encode_decode [of "x # xs"] by (simp add: trim_start_def decode_ascii_Cons)

end
