(* ===== verification/BTreeMap.thy ===== *)
theory BTreeMap
  imports Prelude
begin

text \<open>
  Rust's \<open>BTreeMap\<close>: an association list kept strictly sorted by key, so that iteration,
  \<open>keys\<close>, \<open>values\<close>, \<open>split_off\<close> and the order in which the code visits entries are
  those of the program. The locale \<open>ordered_map\<close> is the contract the components rely on;
  it is interpreted on the operations below.
\<close>

type_synonym ('k, 'v) btree = "('k \<times> 'v) list"

section \<open>Operations\<close>

definition bt_empty :: "('k, 'v) btree" where
  "bt_empty = []"

fun bt_get :: "('k, 'v) btree \<Rightarrow> 'k \<Rightarrow> 'v option" where
  "bt_get [] k = None"
| "bt_get ((k', v) # m) k = (if k = k' then Some v else bt_get m k)"

fun bt_insert :: "'k::linorder \<Rightarrow> 'v \<Rightarrow> ('k, 'v) btree \<Rightarrow> ('k, 'v) btree" where
  "bt_insert k v [] = [(k, v)]"
| "bt_insert k v ((k', v') # m) =
     (if k < k' then (k, v) # (k', v') # m
      else if k = k' then (k, v) # m
      else (k', v') # bt_insert k v m)"

fun bt_remove :: "'k \<Rightarrow> ('k, 'v) btree \<Rightarrow> ('k, 'v) btree" where
  "bt_remove k [] = []"
| "bt_remove k ((k', v') # m) = (if k = k' then m else (k', v') # bt_remove k m)"

definition bt_keys :: "('k, 'v) btree \<Rightarrow> 'k list" where
  "bt_keys m = map fst m"

definition bt_values :: "('k, 'v) btree \<Rightarrow> 'v list" where
  "bt_values m = map snd m"

text \<open>\<open>extend\<close> inserts the entries in turn, later ones overwriting; \<open>from_iter\<close> starts empty.\<close>

fun bt_extend :: "('k::linorder, 'v) btree \<Rightarrow> ('k \<times> 'v) list \<Rightarrow> ('k, 'v) btree" where
  "bt_extend m [] = m"
| "bt_extend m ((k, v) # kvs) = bt_extend (bt_insert k v m) kvs"

definition bt_from_iter :: "('k::linorder \<times> 'v) list \<Rightarrow> ('k, 'v) btree" where
  "bt_from_iter kvs = bt_extend bt_empty kvs"

text \<open>\<open>split_off(&k)\<close> returns the entries at or after \<open>k\<close>.\<close>

definition bt_split_off :: "'k::linorder \<Rightarrow> ('k, 'v) btree \<Rightarrow> ('k, 'v) btree" where
  "bt_split_off k m = dropWhile (\<lambda>(k', _). k' < k) m"

definition bt_inv :: "('k::linorder, 'v) btree \<Rightarrow> bool" where
  "bt_inv m \<longleftrightarrow> sorted_wrt (<) (map fst m)"

section \<open>Basic facts\<close>

lemma bt_inv_simps [simp]:
  "bt_inv []"
  "bt_inv ((k, v) # m) \<longleftrightarrow> (\<forall>k' \<in> fst ` set m. k < k') \<and> bt_inv m"
  by (auto simp: bt_inv_def)

lemma bt_inv_empty [simp]: "bt_inv bt_empty"
  by (simp add: bt_empty_def)

lemma bt_get_map_of: "bt_get m k = map_of m k"
  by (induction m k rule: bt_get.induct) auto

lemma bt_get_empty [simp]: "bt_get bt_empty k = None"
  by (simp add: bt_empty_def)

lemma bt_get_insert [simp]: "bt_get (bt_insert k v m) k' = (if k' = k then Some v else bt_get m k')"
  by (induction k v m rule: bt_insert.induct) auto

lemma set_bt_insert: "fst ` set (bt_insert k v m) = insert k (fst ` set m)"
  by (induction k v m rule: bt_insert.induct) auto

lemma bt_inv_insert [simp]: "bt_inv m \<Longrightarrow> bt_inv (bt_insert k v m)"
  by (induction k v m rule: bt_insert.induct) (auto simp: set_bt_insert)

lemma bt_get_eq_None: "bt_get m k = None \<longleftrightarrow> k \<notin> fst ` set m"
  by (simp add: bt_get_map_of map_of_eq_None_iff)

lemma bt_get_Some_iff: "bt_inv m \<Longrightarrow> bt_get m k = Some v \<longleftrightarrow> (k, v) \<in> set m"
  by (induction m) force+

lemma bt_get_SomeD: "bt_get m k = Some v \<Longrightarrow> (k, v) \<in> set m"
  by (simp add: bt_get_map_of map_of_SomeD)

lemma set_bt_remove: "set (bt_remove k m) \<subseteq> set m"
  by (induction k m rule: bt_remove.induct) auto

lemma fst_bt_remove: "bt_inv m \<Longrightarrow> fst ` set (bt_remove k m) = fst ` set m - {k}"
  by (induction k m rule: bt_remove.induct) auto

lemma bt_get_remove [simp]:
  "bt_inv m \<Longrightarrow> bt_get (bt_remove k m) k' = (if k' = k then None else bt_get m k')"
  by (induction k m rule: bt_remove.induct) (auto simp: bt_get_eq_None fst_bt_remove)

lemma bt_inv_remove [simp]: "bt_inv m \<Longrightarrow> bt_inv (bt_remove k m)"
  using set_bt_remove by (induction k m rule: bt_remove.induct) fastforce+

lemma bt_keys_iff: "k \<in> set (bt_keys m) \<longleftrightarrow> bt_get m k \<noteq> None"
  by (simp add: bt_keys_def bt_get_eq_None)

lemma bt_values_iff: "bt_inv m \<Longrightarrow> v \<in> set (bt_values m) \<longleftrightarrow> (\<exists>k. bt_get m k = Some v)"
  by (force simp: bt_values_def bt_get_Some_iff)

lemma bt_keys_sorted: "bt_inv m \<Longrightarrow> sorted_wrt (<) (bt_keys m)"
  by (simp add: bt_keys_def bt_inv_def)

text \<open>Two maps with the same entries are the same list.\<close>

lemma bt_eqI: "bt_inv m \<Longrightarrow> bt_inv m' \<Longrightarrow> (\<And>k. bt_get m k = bt_get m' k) \<Longrightarrow> m = m'"
proof -
  assume inv: "bt_inv m" "bt_inv m'" and eq: "\<And>k. bt_get m k = bt_get m' k"
  then have set: "set m = set m'"
    by (auto simp flip: bt_get_Some_iff)
  show ?thesis
  proof (rule map_sorted_distinct_set_unique [where f = fst])
    show "inj_on fst (set m \<union> set m')"
      using set inv by (auto simp: inj_on_def simp flip: bt_get_Some_iff)
  qed (use set inv in \<open>auto simp: bt_inv_def strict_sorted_iff\<close>)
qed

lemma bt_insert_get_id: "bt_inv m \<Longrightarrow> bt_get m k = Some v \<Longrightarrow> bt_insert k v m = m"
  by (rule bt_eqI) auto

section \<open>The interface of an ordered map\<close>

locale ordered_map =
  fixes emp :: "'m"
    and get :: "'m \<Rightarrow> 'k::linorder \<Rightarrow> 'v option"
    and ins :: "'k \<Rightarrow> 'v \<Rightarrow> 'm \<Rightarrow> 'm"
    and rem :: "'k \<Rightarrow> 'm \<Rightarrow> 'm"
    and keys :: "'m \<Rightarrow> 'k list"
    and inv :: "'m \<Rightarrow> bool"
  assumes inv_emp: "inv emp"
    and inv_ins: "inv m \<Longrightarrow> inv (ins k v m)"
    and inv_rem: "inv m \<Longrightarrow> inv (rem k m)"
    and get_emp: "get emp k = None"
    and get_ins: "inv m \<Longrightarrow> get (ins k v m) k' = (if k' = k then Some v else get m k')"
    and get_rem: "inv m \<Longrightarrow> get (rem k m) k' = (if k' = k then None else get m k')"
    and keys_get: "inv m \<Longrightarrow> k \<in> set (keys m) \<longleftrightarrow> get m k \<noteq> None"
    and keys_sorted: "inv m \<Longrightarrow> sorted_wrt (<) (keys m)"
begin

text \<open>Inserting a list of entries in turn: the last entry for a key wins.\<close>

lemma inv_fold_ins: "inv m \<Longrightarrow> inv (fold (\<lambda>(k, v). ins k v) kvs m)"
  by (induction kvs arbitrary: m) (auto simp: inv_ins)

lemma get_fold_ins:
  "inv m \<Longrightarrow> get (fold (\<lambda>(k, v). ins k v) kvs m) k =
     (case map_of (rev kvs) k of Some v \<Rightarrow> Some v | None \<Rightarrow> get m k)"
proof (induction kvs arbitrary: m)
  case Nil
  then show ?case by simp
next
  case (Cons kv kvs)
  then show ?case
    by (cases kv) (auto simp: inv_ins get_ins map_add_def map_of_append split: option.splits)
qed

lemma keys_distinct: "inv m \<Longrightarrow> distinct (keys m)"
  using keys_sorted strict_sorted_iff by blast

text \<open>A key is found among the keys exactly once; removal then insertion restores it.\<close>

lemma ins_rem_get: "inv m \<Longrightarrow> get (ins k v (rem k m)) k' = get (ins k v m) k'"
  by (simp add: inv_rem get_ins get_rem)

lemma keys_ins: "inv m \<Longrightarrow> set (keys (ins k v m)) = insert k (set (keys m))"
  by (auto simp: keys_get get_ins inv_ins split: if_splits)

lemma keys_rem: "inv m \<Longrightarrow> set (keys (rem k m)) = set (keys m) - {k}"
  by (auto simp: keys_get get_rem inv_rem split: if_splits)

end

interpretation bt: ordered_map bt_empty bt_get bt_insert bt_remove bt_keys bt_inv
  by unfold_locales (auto simp: bt_keys_iff bt_keys_sorted)

lemma bt_extend_fold: "bt_extend m kvs = fold (\<lambda>(k, v). bt_insert k v) kvs m"
  by (induction m kvs rule: bt_extend.induct) auto

lemma bt_inv_extend [simp]: "bt_inv m \<Longrightarrow> bt_inv (bt_extend m kvs)"
  by (simp add: bt_extend_fold bt.inv_fold_ins)

lemma bt_get_extend:
  "bt_inv m \<Longrightarrow> bt_get (bt_extend m kvs) k =
     (case map_of (rev kvs) k of Some v \<Rightarrow> Some v | None \<Rightarrow> bt_get m k)"
  by (simp add: bt_extend_fold bt.get_fold_ins)

lemma bt_inv_from_iter [simp]: "bt_inv (bt_from_iter kvs)"
  by (simp add: bt_from_iter_def)

lemma bt_get_from_iter: "bt_get (bt_from_iter kvs) k = map_of (rev kvs) k"
  by (simp add: bt_from_iter_def bt_get_extend split: option.splits)

text \<open>Extending by another map: its entries take precedence.\<close>

lemma bt_get_extend_bt:
  assumes "bt_inv m" "bt_inv m'"
  shows "bt_get (bt_extend m m') k = (case bt_get m' k of Some v \<Rightarrow> Some v | None \<Rightarrow> bt_get m k)"
proof -
  have "distinct (map fst m')"
    using assms(2) by (simp add: bt_inv_def strict_sorted_iff)
  then have "map_of (rev m') = map_of m'"
    by (intro map_of_eqI) (auto simp: rev_map [symmetric] map_of_eq_Some_iff)
  then show ?thesis
    using assms(1) by (simp add: bt_get_extend bt_get_map_of [of m'])
qed

end
