(* ===== verification/Api.thy ===== *)
theory Api
  imports Utf8 BTreeMap
begin

text \<open>
  \<open>beam-init-api/src/lib.rs\<close>: the types exchanged over the Unix-socket API, the
  conversion of a wait status, and the texts of statuses and status kinds. The
  constructors of the API's \<open>ServiceStatus\<close> carry the prefix \<open>Api\<close>, since the manager
  has its own type of the same name. Serialization is derived by serde and not modelled;
  \<open>Duration\<close> is a number of nanoseconds.
\<close>

definition API_SOCKET_PATH :: string where
  "API_SOCKET_PATH = ''/run/beam-init''"

definition PTY_SOCKET_PATH :: string where
  "PTY_SOCKET_PATH = ''/run/beam-init-ptys''"

section \<open>Requests\<close>

record probe =
  probe_path :: string
  probe_port :: u16
  max_retries :: usize
  initial_delay :: nat
  period :: nat
  failure_threshold :: usize

record create_service_req =
  req_cmd :: string
  req_args :: "string list"
  req_env :: "(string, string) btree"
  req_liveness :: "probe option"
  req_pty :: bool
  req_labels :: "(string, string) btree"
  req_graceful_termination_period :: u32

section \<open>Exit statuses\<close>

datatype exit_status = Code c_int | Signal c_int bool

text \<open>\<open>std::process::ExitStatus\<close> on Linux: the raw wait status and its accessors.\<close>

type_synonym raw_status = u32

definition wif_exited :: "raw_status \<Rightarrow> bool" where
  "wif_exited s \<longleftrightarrow> s AND 0x7F = 0"

definition wif_signaled :: "raw_status \<Rightarrow> bool" where
  "wif_signaled s \<longleftrightarrow> 2 \<le> sint (ucast ((s AND 0x7F) + 1) :: u8)"

definition status_code :: "raw_status \<Rightarrow> c_int option" where
  "status_code s = (if wif_exited s then Some (uint (drop_bit 8 s AND 0xFF)) else None)"

definition status_signal :: "raw_status \<Rightarrow> c_int option" where
  "status_signal s = (if wif_signaled s then Some (uint (s AND 0x7F)) else None)"

definition status_core_dumped :: "raw_status \<Rightarrow> bool" where
  "status_core_dumped s \<longleftrightarrow> wif_signaled s \<and> s AND 0x80 \<noteq> 0"

definition exit_status_from :: "raw_status \<Rightarrow> panic + exit_status" where
  "exit_status_from status =
     (case status_code status of
        Some code \<Rightarrow> Inr (Code code)
      | None \<Rightarrow>
        (case status_signal status of
           Some signal \<Rightarrow> Inr (Signal signal (status_core_dumped status))
         | None \<Rightarrow> Inl ''waitpid returned a status that was neither exited nor signaled''))"

text \<open>The statuses that \<open>waitpid\<close> without \<open>WUNTRACED\<close> and \<open>WCONTINUED\<close> reports.\<close>

definition exited_status :: "nat \<Rightarrow> raw_status" where
  "exited_status code = of_nat (code * 256)"

definition signaled_status :: "nat \<Rightarrow> bool \<Rightarrow> raw_status" where
  "signaled_status sig core = of_nat (sig + (if core then 128 else 0))"

definition terminated_status :: "raw_status \<Rightarrow> bool" where
  "terminated_status s \<longleftrightarrow> wif_exited s \<or> wif_signaled s"

section \<open>Service status\<close>

datatype api_status =
    ApiStopped
  | ApiRunning pid_t "string option"
  | ApiFrozen pid_t "string option"
  | ApiStopping pid_t bool bool
  | ApiExited exit_status
  | ApiError string

datatype status_kind = KStopped | KRunning | KFrozen | KStopping | KExited | KError

instantiation status_kind :: enum
begin

definition enum_status_kind :: "status_kind list" where
  "enum_status_kind = [KStopped, KRunning, KFrozen, KStopping, KExited, KError]"

definition enum_all_status_kind :: "(status_kind \<Rightarrow> bool) \<Rightarrow> bool" where
  "enum_all_status_kind P \<longleftrightarrow> list_all P enum_class.enum"

definition enum_ex_status_kind :: "(status_kind \<Rightarrow> bool) \<Rightarrow> bool" where
  "enum_ex_status_kind P \<longleftrightarrow> list_ex P enum_class.enum"

instance
proof
  show univ: "(UNIV :: status_kind set) = set enum_class.enum"
    unfolding enum_status_kind_def using status_kind.exhaust by auto
  show "distinct (enum_class.enum :: status_kind list)" by (simp add: enum_status_kind_def)
  show "enum_class.enum_all P \<longleftrightarrow> Ball UNIV P" for P :: "status_kind \<Rightarrow> bool"
    unfolding enum_all_status_kind_def list_all_iff univ [symmetric] by simp
  show "enum_class.enum_ex P \<longleftrightarrow> Bex UNIV P" for P :: "status_kind \<Rightarrow> bool"
    unfolding enum_ex_status_kind_def list_ex_iff univ [symmetric] by simp
qed

end

fun kind :: "api_status \<Rightarrow> status_kind" where
  "kind ApiStopped = KStopped"
| "kind (ApiRunning _ _) = KRunning"
| "kind (ApiFrozen _ _) = KFrozen"
| "kind (ApiStopping _ _ _) = KStopping"
| "kind (ApiExited _) = KExited"
| "kind (ApiError _) = KError"

fun kind_to_string :: "status_kind \<Rightarrow> string" where
  "kind_to_string KStopped = ''stopped''"
| "kind_to_string KRunning = ''running''"
| "kind_to_string KFrozen = ''frozen''"
| "kind_to_string KStopping = ''stopping''"
| "kind_to_string KExited = ''exited''"
| "kind_to_string KError = ''error''"

definition kind_from_str :: "string \<Rightarrow> string + status_kind" where
  "kind_from_str value =
     (if value = ''stopped'' then Inr KStopped
      else if value = ''running'' then Inr KRunning
      else if value = ''frozen'' then Inr KFrozen
      else if value = ''stopping'' then Inr KStopping
      else if value = ''exited'' then Inr KExited
      else if value = ''error'' then Inr KError
      else Inl ''unknown service status'')"

record api_service =
  svc_cmd :: string
  svc_args :: "string list"
  svc_status :: api_status
  svc_automatic_restart_attempts :: u32
  svc_labels :: "(string, string) btree"

record version_response =
  version :: string
  sha :: string

section \<open>Signals\<close>

text \<open>The signal numbers of Linux (libc on x86-64 and aarch64).\<close>

abbreviation (input) SIGHUP :: c_int where "SIGHUP \<equiv> 1"
abbreviation (input) SIGINT :: c_int where "SIGINT \<equiv> 2"
abbreviation (input) SIGQUIT :: c_int where "SIGQUIT \<equiv> 3"
abbreviation (input) SIGKILL :: c_int where "SIGKILL \<equiv> 9"
abbreviation (input) SIGTERM :: c_int where "SIGTERM \<equiv> 15"
abbreviation (input) SIGCHLD :: c_int where "SIGCHLD \<equiv> 17"
abbreviation (input) SIGCONT :: c_int where "SIGCONT \<equiv> 18"
abbreviation (input) SIGSTOP :: c_int where "SIGSTOP \<equiv> 19"
abbreviation (input) SIGTSTP :: c_int where "SIGTSTP \<equiv> 20"
abbreviation (input) SIGTTOU :: c_int where "SIGTTOU \<equiv> 22"
abbreviation (input) SIGWINCH :: c_int where "SIGWINCH \<equiv> 28"

definition signal_names :: "(c_int \<times> string) list" where
  "signal_names =
    [(1, ''SIGHUP''), (2, ''SIGINT''), (3, ''SIGQUIT''), (4, ''SIGILL''), (5, ''SIGTRAP''),
     (6, ''SIGABRT''), (7, ''SIGBUS''), (8, ''SIGFPE''), (9, ''SIGKILL''), (10, ''SIGUSR1''),
     (11, ''SIGSEGV''), (12, ''SIGUSR2''), (13, ''SIGPIPE''), (14, ''SIGALRM''), (15, ''SIGTERM''),
     (17, ''SIGCHLD''), (18, ''SIGCONT''), (19, ''SIGSTOP''), (20, ''SIGTSTP''), (21, ''SIGTTIN''),
     (22, ''SIGTTOU''), (23, ''SIGURG''), (24, ''SIGXCPU''), (25, ''SIGXFSZ''), (26, ''SIGVTALRM''),
     (27, ''SIGPROF''), (28, ''SIGWINCH''), (29, ''SIGIO''), (31, ''SIGSYS''), (16, ''SIGSTKFLT''),
     (30, ''SIGPWR'')]"

definition signal_name :: "c_int \<Rightarrow> string option" where
  "signal_name s = map_of signal_names s"

section \<open>Display of a status\<close>

text \<open>\<open>Path::display\<close> replaces what is not UTF-8.\<close>

definition path_display :: "string \<Rightarrow> string" where
  "path_display p = encode_chars (decode_lossy p)"

definition pty_suffix :: "string option \<Rightarrow> string" where
  "pty_suffix pty = (case pty of Some path \<Rightarrow> '', pty='' @ path_display path | None \<Rightarrow> [])"

fun status_to_string :: "api_status \<Rightarrow> string" where
  "status_to_string ApiStopped = ''stopped''"
| "status_to_string (ApiRunning main_pid pty) = ''running PID='' @ show_int main_pid @ pty_suffix pty"
| "status_to_string (ApiFrozen main_pid pty) = ''frozen PID='' @ show_int main_pid @ pty_suffix pty"
| "status_to_string (ApiStopping main_pid prune will_restart) =
     ''stopping PID='' @ show_int main_pid @ '' (prune='' @ show_bool prune @
     '', will_restart='' @ show_bool will_restart @ '')''"
| "status_to_string (ApiExited (Code code)) =
     (if code = 0 then ''exited normally'' else ''failed with exit status: '' @ show_int code)"
| "status_to_string (ApiExited (Signal signal core_dumped)) =
     ''failed with signal: '' @ show_int signal @
     (case signal_name signal of Some name \<Rightarrow> '' ('' @ name @ '')'' | None \<Rightarrow> []) @
     (if core_dumped then '' (core dumped)'' else [])"
| "status_to_string (ApiError err) = ''failed to start with '' @ err"

section \<open>Properties\<close>

text \<open>The text of a status kind and its parser are inverse to each other, and every other text is refused.\<close>

theorem kind_roundtrip:
  "kind_from_str (kind_to_string k) = Inr k \<and>
   (kind_from_str s = Inr k' \<longleftrightarrow> s = kind_to_string k')"
  by (cases k; cases k') (auto simp: kind_from_str_def split: if_splits)

lemma low7: "unat ((s :: u32) AND 0x7F) = unat s mod 128"
proof -
  have "s AND 0x7F = take_bit 7 s"
    by (simp add: take_bit_eq_mask mask_eq_exp_minus_1)
  then have "unat (s AND 0x7F) = take_bit 7 (unat s)"
    by (simp only: unsigned_take_bit_eq)
  then show ?thesis by (simp add: take_bit_eq_mod)
qed

lemma low8: "uint (drop_bit 8 (s :: u32) AND 0xFF) = int (unat s div 256 mod 256)"
proof -
  have "drop_bit 8 s AND 0xFF = take_bit 8 (drop_bit 8 s)"
    by (simp add: take_bit_eq_mask mask_eq_exp_minus_1)
  then have "uint (drop_bit 8 s AND 0xFF) = take_bit 8 (drop_bit 8 (uint s))"
    by (simp only: unsigned_take_bit_eq unsigned_drop_bit_eq take_bit_drop_bit)
      (simp add: unsigned_drop_bit_eq)
  then show ?thesis
    by (simp add: take_bit_eq_mod drop_bit_eq_div zmod_int zdiv_int)
qed

lemma wif_exited_iff: "wif_exited s \<longleftrightarrow> unat s mod 128 = 0"
  by (metis wif_exited_def low7 unat_eq_zero)

lemma ucast_u8_of_nat: "m < 2 ^ 32 \<Longrightarrow> (ucast (of_nat m :: u32) :: u8) = of_nat m"
  by (simp add: unsigned_of_nat take_bit_eq_mod)

lemma sint_u8_of_nat: "m \<le> 128 \<Longrightarrow> sint (of_nat m :: u8) = (if m = 128 then -128 else int m)"
  by (auto simp: signed_of_nat signed_take_bit_int_eq_self_iff)

lemma wif_signaled_iff: "wif_signaled s \<longleftrightarrow> 1 \<le> unat s mod 128 \<and> unat s mod 128 \<le> 126"
proof -
  define n where "n = unat s mod 128"
  have n: "n < 128" by (simp add: n_def)
  have "(s AND 0x7F) + 1 = (of_nat (n + 1) :: u32)"
    by (simp add: n_def flip: low7)
  moreover have "(ucast (of_nat (n + 1) :: u32) :: u8) = of_nat (n + 1)"
    using n by (intro ucast_u8_of_nat) simp
  moreover have "sint (of_nat (n + 1) :: u8) = (if n + 1 = 128 then -128 else int (n + 1))"
    using n by (intro sint_u8_of_nat) simp
  ultimately show ?thesis
    using n by (simp only: wif_signaled_def flip: n_def) auto
qed

lemma and_0x80: "(s :: u32) AND 0x80 \<noteq> 0 \<longleftrightarrow> odd (unat s div 128)"
proof -
  have "s AND 2 ^ 7 = 0 \<longleftrightarrow> \<not> bit s 7" by (rule and_exp_eq_0_iff_not_bit)
  moreover have "bit s 7 \<longleftrightarrow> bit (unat s) 7" by (simp add: bit_unsigned_iff)
  ultimately show ?thesis by (simp add: bit_iff_odd)
qed

lemma unat_exited: "code < 256 \<Longrightarrow> unat (exited_status code) = code * 256"
  unfolding exited_status_def by (subst unat_of_nat) simp

lemma unat_signaled: "sig \<le> 126 \<Longrightarrow> unat (signaled_status sig core) = sig + (if core then 128 else 0)"
  unfolding signaled_status_def by (subst unat_of_nat) simp

text \<open>
  C38: the conversion of a wait status panics on no status that \<open>waitpid\<close> reports for a
  terminated child: an exit with \<open>code\<close> and a death by \<open>sig\<close> come back as themselves, with
  the core flag; and a converted exit code always fits in a byte.
\<close>

theorem exit_status_conversion:
  shows "(code < 256 \<longrightarrow> exit_status_from (exited_status code) = Inr (Code (int code))) \<and>
    (1 \<le> sig \<and> sig \<le> 126 \<longrightarrow>
       exit_status_from (signaled_status sig core) = Inr (Signal (int sig) core)) \<and>
    (terminated_status s \<longleftrightarrow> isOk (exit_status_from s)) \<and>
    (exit_status_from s = Inr (Code c) \<longrightarrow> 0 \<le> c \<and> c < 256)"
proof (intro conjI impI)
  assume "code < 256"
  then show "exit_status_from (exited_status code) = Inr (Code (int code))"
    by (simp add: exit_status_from_def status_code_def wif_exited_iff unat_exited low8)
next
  assume "1 \<le> sig \<and> sig \<le> 126"
  moreover from this have "(sig + (if core then 128 else 0)) mod 128 = sig"
    and "odd ((sig + (if core then 128 else 0)) div 128) \<longleftrightarrow> core"
    by (auto simp: div_add_self2)
  ultimately show "exit_status_from (signaled_status sig core) = Inr (Signal (int sig) core)"
    by (simp add: exit_status_from_def status_code_def status_signal_def status_core_dumped_def
        wif_exited_iff wif_signaled_iff and_0x80 unat_signaled uint_nat low7 del: mod_add_self2)
next
  show "terminated_status s = isOk (exit_status_from s)"
    by (auto simp: terminated_status_def exit_status_from_def status_code_def status_signal_def)
next
  assume "exit_status_from s = Inr (Code c)"
  then show "0 \<le> c" "c < 256"
    by (auto simp: exit_status_from_def status_code_def status_signal_def low8 split: if_splits option.splits)
qed

theorem exit_status_conversion_witness:
  "exit_status_from (exited_status 3) = Inr (Code 3) \<and>
   exit_status_from (signaled_status 11 True) = Inr (Signal 11 True)"
  using exit_status_conversion [of 3 11 True 0 0] by simp

text \<open>C39: the signals with a name are exactly the signals 1 to 31, and no two share a name.\<close>

theorem signal_name_complete:
  "(\<exists>name. signal_name s = Some name) = (0 < s \<and> s < 32) \<and>
   (signal_name s = Some n \<and> signal_name t = Some n \<longrightarrow> s = t)"
proof -
  have "set (map fst signal_names) = {1..31}"
    unfolding signal_names_def by (simp, safe; simp; presburger)
  then have "signal_name s \<noteq> None \<longleftrightarrow> s \<in> {1..31}"
    by (simp add: signal_name_def map_of_eq_None_iff flip: set_map)
  then have "(\<exists>name. signal_name s = Some name) = (0 < s \<and> s < 32)" by auto
  moreover have "inj_on snd (set signal_names)"
    by (rule distinct_map [THEN iffD1, THEN conjunct2]) (simp add: signal_names_def)
  then have "signal_name s = Some n \<Longrightarrow> signal_name t = Some n \<Longrightarrow> s = t"
    unfolding signal_name_def by (metis inj_onD map_of_SomeD prod.inject snd_conv)
  ultimately show ?thesis by blast
qed

theorem signal_name_complete_witness: "signal_name 9 = Some ''SIGKILL'' \<and> (\<exists>name. signal_name 9 = Some name) = (0 < (9::int) \<and> (9::int) < 32)"
  using signal_name_complete [of 9 "''SIGKILL''" 9] by (simp add: signal_name_def signal_names_def)

end
