(* ===== verification/System.thy ===== *)
theory System
  imports Api
begin

text \<open>
  \<open>beam-init/src/system\<close>: the wrappers around libc. A libc call is its return value and
  the \<open>errno\<close> it left, given by the environment; \<open>cerr\<close> turns the pair into a result.
\<close>

type_synonym libc_result = "c_int \<times> io_error"

abbreviation (input) ESRCH :: int where "ESRCH \<equiv> 3"
abbreviation (input) EIO :: int where "EIO \<equiv> 5"
abbreviation (input) ECHILD :: int where "ECHILD \<equiv> 10"
abbreviation (input) EMFILE :: int where "EMFILE \<equiv> 24"
abbreviation (input) ERANGE :: int where "ERANGE \<equiv> 34"

definition os_error :: "int \<Rightarrow> string \<Rightarrow> io_error" where
  "os_error n m = \<lparr>raw_os_error = Some n, io_kind = OtherKind, io_msg = m\<rparr>"

definition cerr :: "libc_result \<Rightarrow> io_error + c_int" where
  "cerr r = (if fst r = -1 then Inl (snd r) else Inr (fst r))"

definition waitpid :: "libc_result \<Rightarrow> raw_status \<Rightarrow> io_error + (pid_t \<times> raw_status) option" where
  "waitpid r status =
     and_then (cerr r) (\<lambda>pid. Inr (if pid \<noteq> 0 then Some (pid, status) else None))"

section \<open>Wrappers of single calls\<close>

definition setsid :: "libc_result \<Rightarrow> io_error + pid_t" where
  "setsid r = cerr r"

definition setpgid :: "libc_result \<Rightarrow> io_error + unit" where
  "setpgid r = and_then (cerr r) (\<lambda>_. Inr ())"

definition close_range :: "libc_result \<Rightarrow> io_error + unit" where
  "close_range r = and_then (cerr r) (\<lambda>_. Inr ())"

record rlimit =
  rlim_cur :: u64
  rlim_max :: u64

text \<open>The limits the kernel has are written to the record of the caller.\<close>

definition getrlimit :: "libc_result \<Rightarrow> rlimit \<Rightarrow> io_error + rlimit" where
  "getrlimit r lim = and_then (cerr r) (\<lambda>_. Inr lim)"

definition setrlimit :: "(rlimit \<Rightarrow> libc_result) \<Rightarrow> rlimit \<Rightarrow> io_error + unit" where
  "setrlimit call rlim = and_then (cerr (call rlim)) (\<lambda>_. Inr ())"

lemmas wrapper_defs = setsid_def setpgid_def close_range_def getrlimit_def setrlimit_def cerr_def

section \<open>Killing a process group\<close>

text \<open>
  The calls made and the outcome: \<open>kill k target sig\<close> is the result of the \<open>k\<close>-th call of
  libc's \<open>kill\<close>. A process that left its group is signalled alone.
\<close>

definition kill_process_group ::
    "(nat \<Rightarrow> pid_t \<Rightarrow> c_int \<Rightarrow> libc_result) \<Rightarrow> nat \<Rightarrow> pid_t \<Rightarrow> c_int \<Rightarrow>
     panic + (pid_t list \<times> (io_error + c_int))" where
  "kill_process_group kill k pgid sig =
     (if \<not> 1 < pgid then Inl ''process group is not valid''
      else case cerr (kill k (- pgid) sig) of
          Inl e \<Rightarrow>
            if raw_os_error e = Some ESRCH then Inr ([- pgid, pgid], cerr (kill (k + 1) pgid sig))
            else Inr ([- pgid], Inl e)
        | Inr r \<Rightarrow> Inr ([- pgid], Inr r))"

lemma kill_process_group_panic: "isOk (kill_process_group kill k pgid sig) \<longleftrightarrow> 1 < pgid"
  by (auto simp: kill_process_group_def split: sum.splits)

text \<open>
  \<open>kill\<close> is never asked for the caller's own group, every process (-1) or process 0, and
  the single process is tried only after its group was not found.
\<close>

lemma kill_process_group_targets:
  assumes "kill_process_group kill k pgid sig = Inr (targets, r)"
  shows "hd targets = - pgid" "set targets \<subseteq> {- pgid, pgid}" "0 \<notin> set targets" "-1 \<notin> set targets"
    "pgid \<in> set targets \<longleftrightarrow> (\<exists>e. cerr (kill k (- pgid) sig) = Inl e \<and> raw_os_error e = Some ESRCH)"
  using assms by (auto simp: kill_process_group_def split: if_splits sum.splits)

section \<open>Random bytes\<close>

text \<open>
  The loop of \<open>getrandom\<close> over the results of its calls (the bytes each call wrote):
  \<open>None\<close> while the given calls do not yet fill the buffer.
\<close>

fun getrandom :: "(io_error + string) list \<Rightarrow> nat \<Rightarrow> (panic + string) option" where
  "getrandom [] len = None"
| "getrandom (Inr bytes # rs) len =
     (if length bytes = len then Some (Inr bytes)
      else if length bytes > len then Some (Inl ''range start index out of range'')
      else map_option (map_sum id (\<lambda>rest. bytes @ rest)) (getrandom rs (len - length bytes)))"
| "getrandom (Inl e # rs) len =
     (if io_kind e = Interrupted then getrandom rs len
      else Some (Inl ''failed to get random number''))"

text \<open>The bytes a run of calls delivers; interrupted calls deliver none.\<close>

definition delivered :: "(io_error + string) list \<Rightarrow> string" where
  "delivered rs = concat (map (\<lambda>r. case r of Inr b \<Rightarrow> b | Inl _ \<Rightarrow> []) rs)"

lemma getrandom_fills: "getrandom rs len = Some (Inr bytes) \<Longrightarrow> length bytes = len"
proof (induction rs len arbitrary: bytes rule: getrandom.induct)
  case (2 b rs len)
  show ?case
  proof (cases "length b = len \<or> len < length b")
    case True
    with "2.prems" show ?thesis by (auto split: if_splits)
  next
    case False
    with "2.prems" obtain r where r: "getrandom rs (len - length b) = Some r" "map_sum id (\<lambda>rest. b @ rest) r = Inr bytes"
      by auto
    then obtain rest where "r = Inr rest" "bytes = b @ rest" by (cases r) auto
    with False r "2.IH" [of rest] show ?thesis by auto
  qed
qed (auto split: if_splits)

text \<open>
  C40: the loop of \<open>getrandom\<close> fills its buffer exactly: with calls that write at most what
  is left of it and are at worst interrupted, it returns as soon as they delivered \<open>len\<close>
  bytes, with the delivered bytes in order.
\<close>

theorem getrandom_total:
  assumes "length (delivered rs) = len" "0 < len"
    and "\<And>e. Inl e \<in> set rs \<Longrightarrow> io_kind e = Interrupted"
    and "\<And>b. Inr b \<in> set rs \<Longrightarrow> b \<noteq> []"
  shows "getrandom (rs @ rest) len = Some (Inr (delivered rs))"
  using assms
proof (induction rs arbitrary: len)
  case Nil
  then show ?case by (simp add: delivered_def)
next
  case (Cons r rs)
  show ?case
  proof (cases r)
    case (Inl e)
    with Cons.prems Cons.IH [of len] show ?thesis by (simp add: delivered_def)
  next
    case (Inr b)
    then have d: "delivered (r # rs) = b @ delivered rs" by (simp add: delivered_def)
    show ?thesis
    proof (cases "delivered rs = []")
      case True
      with Inr d Cons.prems show ?thesis by simp
    next
      case False
      with Inr d Cons.prems have "getrandom (rs @ rest) (len - length b) = Some (Inr (delivered rs))"
        by (intro Cons.IH) auto
      with False Inr d Cons.prems(1) show ?thesis by auto
    qed
  qed
qed

theorem getrandom_total_witness:
  "getrandom ([Inl (io_other Interrupted []), Inr ''abc'', Inr ''de''] @ []) 5 = Some (Inr ''abcde'')"
  using getrandom_total [of "[Inl (io_other Interrupted []), Inr ''abc'', Inr ''de'']" 5 "[]"]
  by (auto simp: delivered_def io_other_def)

section \<open>The barrier pipe\<close>

text \<open>\<open>IpcBarrierWaiter::wait\<close>: the end of the pipe releases it, data is an error.\<close>

definition barrier_wait :: "io_error + nat \<Rightarrow> io_error + unit" where
  "barrier_wait r =
     (case r of
        Inl e \<Rightarrow> if io_kind e = BrokenPipe then Inr () else Inl e
      | Inr n \<Rightarrow> if n = 0 then Inr () else Inl (io_other InvalidData ''barrier pipe read returned data''))"

end
