(* ===== verification/Environment.thy ===== *)
theory Environment
  imports System
begin

text \<open>
  \<open>beam-init/src/environment.rs\<close>: the environment a user's service starts with. The
  file system is a function from paths to the bytes of a file or an error; the answers of
  \<open>getpwuid_r\<close> are a function of the buffer size. The loop that grows the buffer is a
  \<open>partial_function\<close>: a size of 0 that is always too small is never left.
\<close>

type_synonym env_map = "(string, string) btree"

definition DEFAULT_USER_PATH :: string where
  "DEFAULT_USER_PATH = ''/usr/local/bin:/usr/bin:/bin:/usr/local/games:/usr/games''"

definition DEFAULT_ROOT_PATH :: string where
  "DEFAULT_ROOT_PATH = ''/usr/local/sbin:/usr/local/bin:/usr/sbin:/usr/bin:/sbin:/bin''"

section \<open>Environment files\<close>

definition is_key_byte :: "char \<Rightarrow> bool" where
  "is_key_byte c \<longleftrightarrow> is_ascii_alphanumeric c \<or> c = CHR ''_''"

definition quoted_by :: "char \<Rightarrow> string \<Rightarrow> bool" where
  "quoted_by q v \<longleftrightarrow> starts_with_char v q \<and> ends_with_char v q"

definition env_line :: "string \<Rightarrow> (string \<times> string) option" where
  "env_line line0 =
     (let line = trim_start line0 in
      if line = [] \<or> starts_with_char line (CHR ''#'') then None
      else case split_once (CHR ''='') line of
          None \<Rightarrow> None
        | Some (k, v) \<Rightarrow>
            if k = [] \<or> \<not> list_all is_key_byte k then None
            else if 2 \<le> length v \<and> (quoted_by (CHR 0x22) v \<or> quoted_by (CHR 0x27) v)
            then Some (k, take (length v - 2) (drop 1 v))
            else Some (k, v))"

text \<open>\<open>std::fs::read_to_string\<close>.\<close>

definition read_to_string :: "(string \<Rightarrow> io_error + string) \<Rightarrow> string \<Rightarrow> io_error + string" where
  "read_to_string fs path =
     and_then (fs path) (\<lambda>bytes.
       if valid_utf8 bytes then Inr bytes
       else Inl (io_other InvalidData ''stream did not contain valid UTF-8''))"

definition env_from_file :: "(string \<Rightarrow> io_error + string) \<Rightarrow> string \<Rightarrow> io_error + env_map" where
  "env_from_file fs env_file =
     and_then (read_to_string fs env_file) (\<lambda>contents.
       Inr (bt_from_iter (List.map_filter env_line (str_lines contents))))"

fun env_from_files_loop :: "(string \<Rightarrow> io_error + string) \<Rightarrow> string list \<Rightarrow> env_map \<Rightarrow> io_error + env_map" where
  "env_from_files_loop fs [] env = Inr env"
| "env_from_files_loop fs (f # fs') env =
     and_then (env_from_file fs f) (\<lambda>contents. env_from_files_loop fs fs' (bt_extend env contents))"

definition env_from_files :: "(string \<Rightarrow> io_error + string) \<Rightarrow> string list \<Rightarrow> io_error + env_map" where
  "env_from_files fs env_files = env_from_files_loop fs env_files bt_empty"

section \<open>The user database\<close>

record user_info =
  user :: string
  home :: string

text \<open>The answers of \<open>getpwuid_r\<close>; names and homes may be null pointers.\<close>

datatype pw_result = PwErange | PwNotFound | PwFound "string option" "string option" | PwError io_error

definition isize_max :: nat where
  "isize_max = 2 ^ 63 - 1"

definition usize_checked_mul :: "nat \<Rightarrow> nat \<Rightarrow> nat option" where
  "usize_checked_mul a b = (if a * b < 2 ^ 64 then Some (a * b) else None)"

partial_function (option) getpw_loop :: "(nat \<Rightarrow> pw_result) \<Rightarrow> nat \<Rightarrow> (panic + io_error + pw_result) option" where
  "getpw_loop pw buflen =
     (case pw buflen of
        PwErange \<Rightarrow>
          (case usize_checked_mul buflen 2 of
             None \<Rightarrow> Some (Inr (Inl (io_other OtherKind ''buffer too large'')))
           | Some buflen' \<Rightarrow>
               if isize_max < buflen' then Some (Inl ''capacity overflow'')
               else getpw_loop pw buflen')
      | PwError e \<Rightarrow> Some (Inr (Inl e))
      | r \<Rightarrow> Some (Inr (Inr r)))"

definition user_info_of :: "pw_result \<Rightarrow> io_error + user_info option" where
  "user_info_of r =
     (case r of
        PwFound None _ \<Rightarrow> Inl (io_other InvalidData ''user is null'')
      | PwFound (Some name) dir \<Rightarrow>
          Inr (Some \<lparr>user = name, home = (case dir of None \<Rightarrow> [] | Some d \<Rightarrow> d)\<rparr>)
      | _ \<Rightarrow> Inr None)"

definition get_user_info :: "int \<Rightarrow> (nat \<Rightarrow> pw_result) \<Rightarrow> (panic + io_error + user_info option) option" where
  "get_user_info sysconf pw =
     (let buflen = nat ((if sysconf = -1 then 1024 else sysconf) mod 2 ^ 64) in
      if isize_max < buflen then Some (Inl ''capacity overflow'')
      else map_option (\<lambda>r. and_then r (\<lambda>r'. Inr (and_then r' user_info_of))) (getpw_loop pw buflen))"

section \<open>Building the environment\<close>

definition base_of_user :: "io_error + user_info option \<Rightarrow> env_map" where
  "base_of_user r =
     (case r of
        Inr (Some info) \<Rightarrow> bt_insert ''HOME'' (home info) (bt_insert ''USER'' (user info) bt_empty)
      | Inr None \<Rightarrow> bt_empty
      | Inl e \<Rightarrow> bt_empty)"

definition build_base_environment :: "int \<Rightarrow> (nat \<Rightarrow> pw_result) \<Rightarrow> (panic + env_map) option" where
  "build_base_environment sysconf pw =
     map_option (\<lambda>r. and_then r (\<lambda>r'. Inr (base_of_user r'))) (get_user_info sysconf pw)"

definition build_environment ::
    "(string \<Rightarrow> io_error + string) \<Rightarrow> int \<Rightarrow> (u32 \<Rightarrow> nat \<Rightarrow> pw_result) \<Rightarrow> u32 \<Rightarrow> string list \<Rightarrow>
     (panic + io_error + env_map) option" where
  "build_environment fs sysconf pw uid env_files =
     map_option (\<lambda>r. and_then r (\<lambda>base.
       let env = bt_insert ''PATH'' (if uid = 0 then DEFAULT_ROOT_PATH else DEFAULT_USER_PATH) base in
       Inr (and_then (env_from_files fs env_files) (\<lambda>envf. Inr (bt_extend env envf)))))
     (build_base_environment sysconf (pw uid))"

section \<open>Lines\<close>

lemma is_key_byte_ascii:
  assumes "is_key_byte c"
  shows "(of_char c :: nat) < 0x80" "\<not> is_whitespace (of_char c)" "c \<noteq> CHR ''=''" "c \<noteq> CHR ''#''"
  using assms
  by (auto simp: is_key_byte_def is_ascii_alphanumeric_def less_eq_char_def is_whitespace_def)

lemma valid_utf8_ascii_append: "\<forall>c \<in> set k. (of_char c :: nat) < 0x80 \<Longrightarrow> valid_utf8 (k @ v) = valid_utf8 v"
  by (induction k) (auto simp: valid_ascii_Cons)

lemma trim_start_key:
  assumes "k \<noteq> []" "list_all is_key_byte k" "valid_utf8 v"
  shows "trim_start (k @ CHR ''='' # v) = k @ CHR ''='' # v"
proof -
  obtain x xs where k: "k = x # xs" using assms(1) by (cases k) auto
  have "valid_utf8 (k @ CHR ''='' # v)"
    using assms by (subst valid_utf8_ascii_append) (auto simp: list_all_iff is_key_byte_ascii valid_ascii_Cons)
  then show ?thesis
    using assms(2) by (simp add: k trim_start_ascii is_key_byte_ascii)
qed

lemma split_once_key:
  "list_all is_key_byte k \<Longrightarrow> split_once (CHR ''='') (k @ CHR ''='' # v) = Some (k, v)"
  by (auto simp: split_once_Some list_all_iff dest: is_key_byte_ascii(3))

lemma env_line_assignment:
  assumes "k \<noteq> []" "list_all is_key_byte k" "valid_utf8 v"
  shows "env_line (k @ CHR ''='' # v) =
    Some (k, if 2 \<le> length v \<and> (quoted_by (CHR 0x22) v \<or> quoted_by (CHR 0x27) v)
             then take (length v - 2) (drop 1 v) else v)"
proof -
  have "\<not> starts_with_char (k @ CHR ''='' # v) (CHR ''#'')"
    using assms(1,2) by (cases k) (auto simp: starts_with_char_def dest: is_key_byte_ascii(4))
  then show ?thesis
    using assms by (auto simp: env_line_def trim_start_key split_once_key)
qed

lemma quoted_by_wrap: "quoted_by q (q # v @ [q])"
  by (simp add: quoted_by_def starts_with_char_def ends_with_char_def)

lemma env_line_SomeD:
  assumes "env_line l = Some (k, v)"
  shows "k \<noteq> []" "list_all is_key_byte k"
  using assms by (auto simp: env_line_def Let_def split: if_splits option.splits)



section \<open>Precedence\<close>

lemma env_from_file_inv: "env_from_file fs f = Inr m \<Longrightarrow> bt_inv m"
  by (auto simp: env_from_file_def and_then_eq_Inr)

text \<open>The binding of a variable in a list of files: the last file that sets it wins.\<close>

fun files_lookup :: "(string \<Rightarrow> io_error + string) \<Rightarrow> string list \<Rightarrow> string \<Rightarrow> string option" where
  "files_lookup fs [] k = None"
| "files_lookup fs (f # fs') k =
     (case files_lookup fs fs' k of
        Some v \<Rightarrow> Some v
      | None \<Rightarrow> (case env_from_file fs f of Inr m \<Rightarrow> bt_get m k | Inl _ \<Rightarrow> None))"

lemma env_from_files_loop_get:
  "env_from_files_loop fs files env = Inr m \<Longrightarrow> bt_inv env \<Longrightarrow>
     bt_inv m \<and> bt_get m k = (case files_lookup fs files k of Some v \<Rightarrow> Some v | None \<Rightarrow> bt_get env k)"
proof (induction files arbitrary: env)
  case Nil
  then show ?case by simp
next
  case (Cons f files)
  then obtain c where c: "env_from_file fs f = Inr c" "env_from_files_loop fs files (bt_extend env c) = Inr m"
    by (auto simp: and_then_eq_Inr)
  then have "bt_inv c" by (simp add: env_from_file_inv)
  with c Cons.prems Cons.IH [of "bt_extend env c"] show ?case
    by (auto simp: bt_get_extend_bt split: option.splits)
qed

lemma base_of_user_keys:
  "bt_inv (base_of_user r)" "k \<notin> {''USER'', ''HOME''} \<Longrightarrow> bt_get (base_of_user r) k = None"
  by (auto simp: base_of_user_def split: sum.splits option.splits)

lemma base_environment_keys:
  assumes "build_base_environment sysconf pw = Some (Inr base)"
  shows "bt_inv base" "k \<notin> {''USER'', ''HOME''} \<Longrightarrow> bt_get base k = None"
  using assms by (auto simp: build_base_environment_def and_then_eq_Inr base_of_user_keys)


lemma env_line_example: "env_line ''PATH=/x'' = Some (''PATH'', ''/x'')"
proof -
  have "list_all is_key_byte ''PATH''"
    by (simp add: is_key_byte_def is_ascii_alphanumeric_def less_eq_char_def)
  moreover have "valid_utf8 ''/x''" by (simp add: valid_ascii_Cons)
  ultimately show ?thesis
    using env_line_assignment [of "''PATH''" "''/x''"] by (simp add: quoted_by_def starts_with_char_def)
qed


section \<open>Termination\<close>

lemma getpw_loop_total:
  "0 < buflen \<Longrightarrow> buflen \<le> isize_max \<Longrightarrow> \<exists>r. getpw_loop pw buflen = Some r"
proof (induction "2 ^ 64 - buflen" arbitrary: buflen rule: less_induct)
  case less
  show ?case
  proof (cases "pw buflen = PwErange \<and> 2 * buflen \<le> isize_max")
    case True
    then have "\<exists>r. getpw_loop pw (buflen * 2) = Some r"
      using less.prems by (intro less.hyps) (auto simp: isize_max_def)
    with True show ?thesis
      by (subst getpw_loop.simps) (auto simp: usize_checked_mul_def isize_max_def)
  next
    case False
    then show ?thesis
      by (subst getpw_loop.simps) (auto simp: usize_checked_mul_def isize_max_def split: pw_result.splits)
  qed
qed



end
