(* ===== verification/Spawn.thy ===== *)
theory Spawn
  imports Environment
begin

text \<open>
  \<open>beam-init/src/spawn.rs\<close> and the credentials of \<open>api_impl.rs\<close>: the command channel to
  the monitor process of a PTY service, the preparation of the C strings, the outcome the
  parent reads from the pipes, the steps of the child up to \<open>execvp\<close>, and the loop of the
  monitor process. System calls are results given by the environment.
\<close>

section \<open>Credentials and configuration\<close>

record credentials =
  uid :: u32
  gid :: u32

definition root :: credentials where
  "root = \<lparr>uid = 0, gid = 0\<rparr>"

record service_config =
  cmd :: string
  args :: "string list"
  env :: env_map
  labels :: "(string, string) btree"
  liveness :: "probe option"
  pty_flag :: bool
  creds :: credentials
  graceful_termination_period :: u32

section \<open>Commands to the monitor process\<close>

datatype monitor_command = MonSignal c_int | Foreground | Background

text \<open>
  \<open>ser\<close>: a signal is cast to \<open>u32\<close> and converted to \<open>i8\<close>, which panics above 127; the
  other commands are the negative bytes -1 and -2.
\<close>

definition ser :: "monitor_command \<Rightarrow> panic + u8" where
  "ser c =
     (case c of
        MonSignal sig \<Rightarrow>
          (let unsigned = sig mod 2 ^ 32 in
           if unsigned \<le> 127 then Inr (word_of_int unsigned) else Inl ''invalid signal'')
      | Foreground \<Rightarrow> Inr (-1)
      | Background \<Rightarrow> Inr (-2))"

definition de :: "u8 \<Rightarrow> panic + monitor_command" where
  "de b =
     (if sint b = -1 then Inr Foreground
      else if sint b = -2 then Inr Background
      else if 0 \<le> sint b then Inr (MonSignal (sint b))
      else Inl ''unreachable'')"

text \<open>
  \<open>MonitorCommandSender::send\<close>: \<open>w\<close> is the result of writing the byte, \<open>r\<close> that of
  reading the acknowledgement; a monitor that is gone is not an error.
\<close>

definition monitor_send :: "io_error + unit \<Rightarrow> io_error + unit \<Rightarrow> monitor_command \<Rightarrow> panic + (io_error + unit)" where
  "monitor_send w r c =
     and_then (ser c) (\<lambda>byte. Inr
       (case w of
          Inl e \<Rightarrow> if io_kind e = BrokenPipe then Inr () else Inl e
        | Inr _ \<Rightarrow>
          (case r of
             Inr _ \<Rightarrow> Inr ()
           | Inl e \<Rightarrow> if io_kind e = UnexpectedEof then Inr () else Inl e)))"

lemma u8_range: "0 \<le> uint (b :: u8)" "uint (b :: u8) < 256"
proof -
  have "uint b < 2 ^ LENGTH(8)" by (rule unsigned_less)
  then show "uint b < 256" by simp
qed simp

lemma sint_u8: "sint (b :: u8) = (if uint b < 128 then uint b else uint b - 256)"
proof -
  have eq: "sint b = (uint b + 128) mod 256 - 128"
    by (simp add: sint_uint signed_take_bit_eq_take_bit_shift take_bit_eq_mod)
  show ?thesis
  proof (cases "uint b < 128")
    case True
    then show ?thesis using eq u8_range [of b] by (simp add: mod_pos_pos_trivial)
  next
    case False
    then have "(uint b - 128 + 256) mod 256 = uint b - 128"
      using u8_range [of b] by (simp only: mod_add_self2) (rule mod_pos_pos_trivial; linarith)
    moreover have "uint b - 128 + 256 = uint b + 128" by simp
    ultimately show ?thesis using eq False by simp
  qed
qed

text \<open>
  C36: every command that can be sent arrives as itself, a byte is decoded unless it is
  one of the 126 no command has, and a signal is sendable exactly when it is at most 127.
\<close>

theorem monitor_command_roundtrip:
  shows "(ser c = Inr b \<longrightarrow> de b = Inr (case c of MonSignal s \<Rightarrow> MonSignal (s mod 2 ^ 32) | _ \<Rightarrow> c)) \<and>
    (de b' = Inr c' \<longrightarrow> ser c' = Inr b') \<and>
    (isOk (ser (MonSignal sig)) \<longleftrightarrow> sig mod 2 ^ 32 \<le> 127) \<and>
    (isOk (de b') \<longleftrightarrow> \<not> (128 \<le> uint b' \<and> uint b' < 254))"
proof (intro conjI impI)
  assume "ser c = Inr b"
  then show "de b = Inr (case c of MonSignal s \<Rightarrow> MonSignal (s mod 2 ^ 32) | _ \<Rightarrow> c)"
    by (auto simp: ser_def de_def signed_of_int signed_take_bit_int_eq_self Let_def
        split: monitor_command.splits if_splits)
next
  assume "de b' = Inr c'"
  then show "ser c' = Inr b'"
  proof -
    have w: "word_of_int (sint b') = b'" by simp
    have "sint b' \<le> 127" using u8_range [of b'] by (simp add: sint_u8)
    then have "0 \<le> sint b' \<Longrightarrow> ser (MonSignal (sint b')) = Inr b'"
      by (simp add: ser_def Let_def)
    moreover have "sint b' = -1 \<Longrightarrow> b' = -1" "sint b' = -2 \<Longrightarrow> b' = -2"
      using w by (metis of_int_minus of_int_1, metis of_int_minus of_int_numeral)
    ultimately show ?thesis
      using \<open>de b' = Inr c'\<close> by (auto simp: de_def ser_def split: if_splits)
  qed
next
  show "isOk (de b') \<longleftrightarrow> \<not> (128 \<le> uint b' \<and> uint b' < 254)"
    using u8_range [of b'] by (auto simp: de_def sint_u8)
qed (simp add: ser_def Let_def)

theorem monitor_command_roundtrip_witness:
  "ser (MonSignal 15) = Inr 15 \<and> de 15 = Inr (MonSignal 15)"
proof -
  have "ser (MonSignal 15) = Inr 15" by (simp add: ser_def)
  then show ?thesis using monitor_command_roundtrip [of "MonSignal 15" 15 0 Background 15] by simp
qed

section \<open>Preparing the C strings\<close>

text \<open>\<open>CString::new\<close>: an embedded NUL is an error, which \<open>?\<close> turns into an \<open>io::Error\<close>.\<close>

definition cstring :: "string \<Rightarrow> io_error + string" where
  "cstring s =
     (if CHR 0x00 \<in> set s then Inl (io_other InvalidInput ''data provided contains a nul byte'')
      else Inr s)"

definition env_entry :: "string \<times> string \<Rightarrow> string" where
  "env_entry kv = fst kv @ ''='' @ snd kv"

definition prepare :: "service_config \<Rightarrow> io_error + (string \<times> string list \<times> string list)" where
  "prepare config =
     and_then (cstring (cmd config)) (\<lambda>c.
     and_then (collect_results cstring (args config)) (\<lambda>as.
     and_then (collect_results (\<lambda>kv. cstring (env_entry kv)) (env config)) (\<lambda>envp.
     Inr (c, c # as, envp))))"

section \<open>The parent\<close>

datatype sink = LogSink fd | PtySink fd

type_synonym monitor_sender = "fd \<times> fd"

text \<open>
  What the parent sees of the kernel: the five pipes, the fork, and what it reads from the
  error pipe (end of file is the error \<open>UnexpectedEof\<close>) and from the pid pipe. The parent
  keeps its own write end of the pid pipe open while it reads, so a pid that is never
  written is a read that never returns: \<open>None\<close>, and so is then the result.
\<close>

record spawn_os =
  sp_pipe :: "nat \<Rightarrow> io_error + (fd \<times> fd)"
  sp_fork :: "io_error + pid_t"
  sp_err_read :: "io_error + c_int"
  sp_pid_read :: "(io_error + pid_t) option"

definition has_ctty :: "sink \<Rightarrow> bool" where
  "has_ctty s = (case s of PtySink _ \<Rightarrow> True | LogSink _ \<Rightarrow> False)"

text \<open>\<open>?\<close> in a function that may also not return.\<close>

definition or_return :: "'e + 'a \<Rightarrow> ('a \<Rightarrow> ('e + 'b) option) \<Rightarrow> ('e + 'b) option" where
  "or_return r f = (case r of Inl e \<Rightarrow> Some (Inl e) | Inr x \<Rightarrow> f x)"

definition spawn_service ::
    "spawn_os \<Rightarrow> service_config \<Rightarrow> sink \<Rightarrow> (io_error + (pid_t \<times> monitor_sender option)) option" where
  "spawn_service os config sink =
     or_return (prepare config) (\<lambda>_.
     or_return (sp_pipe os 0) (\<lambda>(err_rx, err_tx).
     or_return (sp_pipe os 1) (\<lambda>(pid_rx, pid_tx).
     or_return (sp_pipe os 2) (\<lambda>(monitor_rx, monitor_tx).
     or_return (sp_pipe os 3) (\<lambda>(monitor_sync_rx, monitor_sync_tx).
     or_return (sp_pipe os 4) (\<lambda>(pgid_sync_rx, pgid_sync_tx).
     or_return (sp_fork os) (\<lambda>_.
     case sp_err_read os of
       Inl e \<Rightarrow>
         if io_kind e = UnexpectedEof then
           map_option (map_sum id (\<lambda>child_pid.
             (child_pid, if has_ctty sink then Some (monitor_tx, monitor_sync_rx) else None)))
             (sp_pid_read os)
         else Some (Inl e)
     | Inr errno \<Rightarrow> Some (Inl (os_error errno ''os error'')))))))))"

lemma or_return_simps [simp]:
  "or_return (Inl e) f = Some (Inl e)"
  "or_return (Inr x) f = f x"
  by (simp_all add: or_return_def)

lemma or_return_eq_Inr: "or_return r f = Some (Inr y) \<longleftrightarrow> (\<exists>x. r = Inr x \<and> f x = Some (Inr y))"
  by (cases r) auto

lemma map_sum_eq_Inr: "map_sum f g r = Inr y \<longleftrightarrow> (\<exists>x. r = Inr x \<and> y = g x)"
  by (cases r) auto

lemma cstring_Inr: "cstring s = Inr t \<longleftrightarrow> t = s \<and> CHR 0x00 \<notin> set s"
  by (auto simp: cstring_def)

lemma collect_cstring: "collect_results (\<lambda>x. cstring (f x)) xs = Inr ys \<longleftrightarrow>
    ys = map f xs \<and> (\<forall>x \<in> set xs. CHR 0x00 \<notin> set (f x))"
  by (induction xs arbitrary: ys) (auto simp: and_then_eq_Inr cstring_Inr)

lemma spawn_service_Inr:
  "spawn_service os config sink = Some (Inr (pid, mon)) \<Longrightarrow>
     sp_pid_read os = Some (Inr pid) \<and> (mon = None \<longleftrightarrow> \<not> has_ctty sink) \<and> isOk (prepare config)"
  by (cases "sp_err_read os")
    (auto simp: spawn_service_def or_return_eq_Inr map_sum_eq_Inr split: if_splits)

section \<open>Pseudoterminals\<close>

record pty =
  pty_master :: fd
  pty_path :: string

text \<open>
  \<open>Pty::new\<close>: the result of \<open>posix_openpt\<close>, and the return value and buffer of
  \<open>ptsname_r\<close>, which returns an error number itself.
\<close>

definition pty_new :: "libc_result \<Rightarrow> c_int \<times> string \<Rightarrow> panic + (io_error + pty)" where
  "pty_new openpt ptsname =
     (case cerr openpt of
        Inl e \<Rightarrow> Inr (Inl e)
      | Inr master \<Rightarrow>
          if fst ptsname \<noteq> 0 then Inr (Inl (os_error (fst ptsname) ''os error''))
          else if CHR 0x00 \<notin> set (snd ptsname) then Inl ''CStr conversion should not fail''
          else Inr (Inr \<lparr>pty_master = nat master, pty_path = takeWhile (\<lambda>c. c \<noteq> CHR 0x00) (snd ptsname)\<rparr>))"

end
