(* ===== verification/Signals.thy ===== *)
theory Signals
  imports System
begin

text \<open>
  \<open>system/signal_set.rs\<close>, \<open>system/signalfd.rs\<close> and \<open>signal_stream.rs\<close>: signal sets, the
  signal mask of the calling thread, and the task that turns the signals of a signalfd into
  events of the main loop. The results of the libc calls are the record \<open>signal_os\<close>.
\<close>

section \<open>Signal sets\<close>

type_synonym sigset = "c_int set"

abbreviation (input) SIGABRT :: int where "SIGABRT \<equiv> 6"

datatype sigmask_how = SIG_BLOCK | SIG_SETMASK

record signal_os =
  so_sigemptyset :: libc_result
  so_sigaddset :: "c_int \<Rightarrow> libc_result"
  so_signalfd :: libc_result
  so_sigmask :: "sigmask_how \<Rightarrow> libc_result"

text \<open>The calls succeed. (\<open>sigaddset\<close> refuses only numbers that are no signals.)\<close>

definition signals_ok :: "signal_os \<Rightarrow> bool" where
  "signals_ok os \<longleftrightarrow> fst (so_sigemptyset os) = 0 \<and> (\<forall>sig. fst (so_sigaddset os sig) = 0) \<and>
     0 \<le> fst (so_signalfd os) \<and> (\<forall>how. fst (so_sigmask os how) = 0)"

fun add_signals :: "(c_int \<Rightarrow> libc_result) \<Rightarrow> c_int list \<Rightarrow> sigset \<Rightarrow> io_error + sigset" where
  "add_signals sigaddset [] A = Inr A"
| "add_signals sigaddset (signum # signals) A =
     and_then (cerr (sigaddset signum)) (\<lambda>_. add_signals sigaddset signals (insert signum A))"

definition signal_set_new :: "signal_os \<Rightarrow> c_int list \<Rightarrow> io_error + sigset" where
  "signal_set_new os signals =
     and_then (cerr (so_sigemptyset os)) (\<lambda>_. add_signals (so_sigaddset os) signals {})"

text \<open>
  \<open>thread_sigmask\<close> on the mask of the thread: \<open>pthread_sigmask\<close> returns 0, or the number of
  an error; the set it was to write is then left as it was initialised, empty.
\<close>

definition thread_sigmask :: "signal_os \<Rightarrow> sigmask_how \<Rightarrow> sigset \<Rightarrow> sigset \<Rightarrow> (io_error + sigset) \<times> sigset" where
  "thread_sigmask os how A blocked =
     (let r = so_sigmask os how; ok = (fst r = 0) in
      (and_then (cerr r) (\<lambda>_. Inr (if ok then blocked else {})),
       if ok then (case how of SIG_BLOCK \<Rightarrow> blocked \<union> A | SIG_SETMASK \<Rightarrow> A) else blocked))"

definition block :: "signal_os \<Rightarrow> sigset \<Rightarrow> sigset \<Rightarrow> (io_error + sigset) \<times> sigset" where
  "block os = thread_sigmask os SIG_BLOCK"

definition set_mask :: "signal_os \<Rightarrow> sigset \<Rightarrow> sigset \<Rightarrow> (io_error + sigset) \<times> sigset" where
  "set_mask os = thread_sigmask os SIG_SETMASK"

lemmas mask_defs = block_def set_mask_def thread_sigmask_def cerr_def Let_def

lemma add_signals_ok:
  "(\<And>sig. fst (sigaddset sig) = 0) \<Longrightarrow> add_signals sigaddset signals A = Inr (A \<union> set signals)"
  by (induction signals arbitrary: A) (auto simp: cerr_def)

lemma add_signals_set: "add_signals sigaddset signals A = Inr B \<Longrightarrow> B = A \<union> set signals"
  by (induction signals arbitrary: A) (auto simp: and_then_eq_Inr)

lemma signal_set_new_ok: "signals_ok os \<Longrightarrow> signal_set_new os signals = Inr (set signals)"
  by (simp add: signals_ok_def signal_set_new_def cerr_def add_signals_ok)

lemma signal_set_new_set: "signal_set_new os signals = Inr B \<Longrightarrow> B = set signals"
  by (auto simp: signal_set_new_def and_then_eq_Inr dest: add_signals_set)

lemma masks_ok:
  assumes "signals_ok os"
  shows "block os A blocked = (Inr blocked, blocked \<union> A)" "set_mask os A blocked = (Inr blocked, A)"
  using assms by (simp_all add: signals_ok_def mask_defs)

text \<open>
  A failing \<open>pthread_sigmask\<close> goes unnoticed: it returns the number of the error, and
  \<open>cerr\<close> looks for -1.
\<close>

lemma sigmask_error_unnoticed:
  "0 < fst (so_sigmask os how) \<Longrightarrow> thread_sigmask os how A blocked = (Inr {}, blocked)"
  by (simp add: mask_defs)

section \<open>The signalfd\<close>

record siginfo =
  ssi_signo :: u32

definition signalfd_new :: "signal_os \<Rightarrow> sigset \<Rightarrow> io_error + fd" where
  "signalfd_new os A = and_then (cerr (so_signalfd os)) (\<lambda>r. Inr (nat r))"

text \<open>
  \<open>SignalFd::read\<close>: the 128 bytes the kernel wrote, or the error of \<open>read_exact\<close>; the signal
  number is their first word.
\<close>

definition le_u32 :: "string \<Rightarrow> u32" where
  "le_u32 b = of_nat (\<Sum>i < 4. of_char (b ! i) * 256 ^ i)"

definition signalfd_read :: "io_error + string \<Rightarrow> io_error + siginfo" where
  "signalfd_read r = and_then r (\<lambda>bytes. Inr \<lparr>ssi_signo = le_u32 bytes\<rparr>)"

section \<open>The signal stream\<close>

definition signal_stream_init :: "signal_os \<Rightarrow> c_int list \<Rightarrow> io_error + unit \<Rightarrow> sigset \<Rightarrow> (io_error + sigset) \<times> sigset" where
  "signal_stream_init os signals async_fd blocked =
     (case signal_set_new os signals of
        Inl err \<Rightarrow> (Inl err, blocked)
      | Inr signal_set \<Rightarrow>
          (case and_then (signalfd_new os signal_set) (\<lambda>_. async_fd) of
             Inl err \<Rightarrow> (Inl err, blocked)
           | Inr _ \<Rightarrow> block os signal_set blocked))"

definition restore_sigmask :: "signal_os \<Rightarrow> sigset \<Rightarrow> sigset \<Rightarrow> (io_error + unit) \<times> sigset" where
  "restore_sigmask os old blocked =
     (case set_mask os old blocked of (r, blocked) \<Rightarrow> (and_then r (\<lambda>_. Inr ()), blocked))"

text \<open>
  The task: each result of a read, and whether the main loop still receives. A read that
  would block is tried again when the descriptor is readable (\<open>async_io_mut\<close>). The events
  sent, and whether the task goes on, has returned or has panicked.
\<close>

datatype task_end = TaskRunning | TaskReturned | TaskPanicked panic

fun signal_task :: "((io_error + siginfo) \<times> bool) list \<Rightarrow> siginfo list \<times> task_end" where
  "signal_task [] = ([], TaskRunning)"
| "signal_task ((Inl err, _) # rs) =
     (if io_kind err = WouldBlock then signal_task rs
      else ([], TaskPanicked ''failed to read signal from signalfd''))"
| "signal_task ((Inr siginfo, receiving) # rs) =
     (if receiving then (case signal_task rs of (sent, e) \<Rightarrow> (siginfo # sent, e)) else ([], TaskReturned))"

text \<open>While the loop receives and reads fail only by blocking, every signal is sent, in order.\<close>

lemma signal_task_sends_all:
  assumes "\<And>r alive. (r, alive) \<in> set rs \<Longrightarrow> alive \<and> (\<forall>err. r = Inl err \<longrightarrow> io_kind err = WouldBlock)"
  shows "signal_task rs = (concat (map (\<lambda>(r, _). case r of Inr i \<Rightarrow> [i] | Inl _ \<Rightarrow> []) rs), TaskRunning)"
  using assms
proof (induction rs)
  case Nil
  then show ?case by simp
next
  case (Cons x rs)
  obtain r alive where x: "x = (r, alive)" by (cases x)
  have rs: "signal_task rs = (concat (map (\<lambda>(r, _). case r of Inr i \<Rightarrow> [i] | Inl _ \<Rightarrow> []) rs), TaskRunning)"
    using Cons.prems by (intro Cons.IH) auto
  show ?case
    using rs Cons.prems [of r alive] by (cases r) (simp_all add: x)
qed

text \<open>
  C21: signals that beam-init collects do not leak into its services: setting up the stream
  blocks exactly the collected signals beside those already blocked, and the set it returns
  makes \<open>restore_sigmask\<close>, in whatever mask a forked child runs, bring back exactly the mask
  beam-init was started with; when an earlier call fails nothing is blocked.
\<close>

theorem sigmask_inherited:
  assumes "\<And>how. fst (so_sigmask os how) = 0"
    and "signal_stream_init os signals async_fd blocked = (r, blocked')"
  shows "case r of
      Inl _ \<Rightarrow> blocked' = blocked
    | Inr old \<Rightarrow> blocked' = blocked \<union> set signals \<and> (\<forall>child. restore_sigmask os old child = (Inr (), blocked))"
proof (cases "signal_set_new os signals")
  case (Inl err)
  with assms(2) have "r = Inl err" "blocked' = blocked" by (simp_all add: signal_stream_init_def)
  then show ?thesis by simp
next
  case (Inr A)
  with assms show ?thesis
    using signal_set_new_set [OF Inr]
    by (auto simp: signal_stream_init_def mask_defs restore_sigmask_def split: sum.splits)
qed

definition sample_signal_os :: signal_os where
  "sample_signal_os =
     \<lparr>so_sigemptyset = (0, io_other OtherKind []), so_sigaddset = (\<lambda>_. (0, io_other OtherKind [])),
      so_signalfd = (3, io_other OtherKind []), so_sigmask = (\<lambda>_. (0, io_other OtherKind []))\<rparr>"

theorem sigmask_inherited_witness:
  "case fst (signal_stream_init sample_signal_os [SIGCHLD, SIGTERM, SIGINT] (Inr ()) {13}) of
      Inl _ \<Rightarrow> snd (signal_stream_init sample_signal_os [SIGCHLD, SIGTERM, SIGINT] (Inr ()) {13}) = {13}
    | Inr old \<Rightarrow>
        snd (signal_stream_init sample_signal_os [SIGCHLD, SIGTERM, SIGINT] (Inr ()) {13}) =
          {13} \<union> set [SIGCHLD, SIGTERM, SIGINT] \<and>
        (\<forall>child. restore_sigmask sample_signal_os old child = (Inr (), {13}))"
  by (rule sigmask_inherited [of _ _ "Inr ()"]) (simp_all add: sample_signal_os_def)

section \<open>Ending by a signal\<close>

text \<open>
  \<open>exit_with_signal\<close>, as the number of the signal the process ends by: \<open>raise\<close> ends a process
  that does not block the signal when its default action is to terminate, otherwise the
  process goes on to \<open>abort\<close>. (For process 1 of a container the kernel ignores \<open>raise\<close>.)
\<close>

definition default_terminates :: "c_int \<Rightarrow> bool" where
  "default_terminates sig \<longleftrightarrow> 1 \<le> sig \<and> sig \<le> 31 \<and> sig \<notin> {17, 18, 19, 20, 21, 22, 23, 28}"

definition exit_with_signal :: "sigset \<Rightarrow> c_int \<Rightarrow> c_int" where
  "exit_with_signal blocked sig = (if sig \<notin> blocked \<and> default_terminates sig then sig else SIGABRT)"

end
