(* ===== verification/Child.thy ===== *)
theory Child
  imports Spawn Signals
begin

text \<open>
  The child side of \<open>beam-init/src/spawn.rs\<close>: what runs between \<open>fork\<close> and \<open>execvp\<close>, and
  the monitor process of a PTY service. A system call is a result that may depend on the
  credentials the process has at that moment; a successful call changes the process state.
  Every failure on this side ends the process with \<open>_exit(101)\<close> (\<open>expect_no_panic\<close>).
\<close>

section \<open>The process before exec\<close>

record proc =
  p_uid :: u32
  p_gid :: u32
  p_groups :: "u32 list"
  p_nofile :: rlimit
  p_cloexec :: bool
  p_stdio :: "(nat \<times> fd) list"
  p_blocked :: sigset
  p_leader :: bool

record child_os =
  c_setpgid :: libc_result
  c_getrlimit :: "libc_result \<times> rlimit"
  c_setrlimit :: "rlimit \<Rightarrow> libc_result"
  c_close_range :: libc_result
  c_setgroups :: "proc \<Rightarrow> libc_result"
  c_setgid :: "proc \<Rightarrow> u32 \<Rightarrow> libc_result"
  c_setuid :: "proc \<Rightarrow> u32 \<Rightarrow> libc_result"
  c_execvp :: "string \<Rightarrow> c_int option"
  c_err_write :: "io_error + unit"

text \<open>
  How a child ends: it becomes the service's program, or it exits with a code, having
  written an error number to the error pipe or not.
\<close>

datatype child_end = Image proc string "string list" "string list" | ExitWith c_int "c_int option"

definition expect_no_panic :: "io_error + 'a \<Rightarrow> ('a \<Rightarrow> child_end) \<Rightarrow> child_end" where
  "expect_no_panic r f = (case r of Inr x \<Rightarrow> f x | Inl e \<Rightarrow> ExitWith 101 None)"

text \<open>\<open>Credentials::set_creds\<close>: supplementary groups, then the group, then the user.\<close>

definition set_creds :: "child_os \<Rightarrow> credentials \<Rightarrow> proc \<Rightarrow> io_error + proc" where
  "set_creds os c p =
     and_then (cerr (c_setgroups os p)) (\<lambda>_.
       let p = p\<lparr>p_groups := []\<rparr> in
     and_then (cerr (c_setgid os p (gid c))) (\<lambda>_.
       let p = p\<lparr>p_gid := gid c\<rparr> in
     and_then (cerr (c_setuid os p (uid c))) (\<lambda>_.
       Inr (p\<lparr>p_uid := uid c\<rparr>))))"

definition exec_with_creds_and_err_pipe ::
    "child_os \<Rightarrow> proc \<Rightarrow> string \<Rightarrow> string list \<Rightarrow> string list \<Rightarrow> credentials \<Rightarrow> child_end" where
  "exec_with_creds_and_err_pipe os p c argv envp cr =
     expect_no_panic (case_prod getrlimit (c_getrlimit os)) (\<lambda>limit.
       let limit = limit\<lparr>rlim_cur := min (rlim_max limit) 1024\<rparr> in
     expect_no_panic (setrlimit (c_setrlimit os) limit) (\<lambda>_.
       let p = p\<lparr>p_nofile := limit\<rparr> in
     expect_no_panic (close_range (c_close_range os)) (\<lambda>_.
       let p = p\<lparr>p_cloexec := True\<rparr> in
     expect_no_panic (set_creds os cr p) (\<lambda>p.
     case c_execvp os c of
       None \<Rightarrow> Image p c argv envp
     | Some errno \<Rightarrow> expect_no_panic (c_err_write os) (\<lambda>_. ExitWith 1 (Some errno))))))"

text \<open>
  What the documentation of the calls promises a process with uid 0: it may change its
  groups, its group and its user.
\<close>

definition privileged :: "child_os \<Rightarrow> bool" where
  "privileged os \<longleftrightarrow> (\<forall>p. p_uid p = 0 \<longrightarrow>
     fst (c_setgroups os p) = 0 \<and> (\<forall>g. fst (c_setgid os p g) = 0) \<and> (\<forall>u. fst (c_setuid os p u) = 0))"

lemma set_creds_Inr:
  "set_creds os c p = Inr p' \<Longrightarrow> p' = p\<lparr>p_groups := [], p_gid := gid c, p_uid := uid c\<rparr>"
  by (auto simp: set_creds_def and_then_eq_Inr Let_def)

lemma set_creds_privileged:
  "privileged os \<Longrightarrow> p_uid p = 0 \<Longrightarrow> isOk (set_creds os c p)"
  by (simp add: set_creds_def privileged_def cerr_def)

lemma expect_no_panic_Image:
  "expect_no_panic r f = Image p c a e \<longleftrightarrow> (\<exists>x. r = Inr x \<and> f x = Image p c a e)"
  by (cases r) (auto simp: expect_no_panic_def)

lemma expect_no_panic_err:
  "expect_no_panic r f = ExitWith n (Some errno) \<longleftrightarrow> (\<exists>x. r = Inr x \<and> f x = ExitWith n (Some errno))"
  by (cases r) (auto simp: expect_no_panic_def)

text \<open>
  C8: whatever the kernel answers, a service program runs only with exactly the user and
  group of the client who created it, no supplementary groups, the hard limit of files it
  inherits and a soft limit of at most 1024, the signal mask it was forked with, every inherited descriptor above 2 closed, and the command as its first argument;
  an error number is reported only for a failed \<open>execvp\<close>; and when the init process is
  root and its calls succeed, the program does run.
\<close>

theorem exec_credentials:
  assumes r: "r = exec_with_creds_and_err_pipe os p c (c # as) envp cr"
  shows "(r = Image p' c' argv envp' \<longrightarrow>
            p_uid p' = uid cr \<and> p_gid p' = gid cr \<and> p_groups p' = [] \<and>
            p_nofile p' = (snd (c_getrlimit os))\<lparr>rlim_cur := min (rlim_max (snd (c_getrlimit os))) 1024\<rparr> \<and>
            p_cloexec p' \<and> p_stdio p' = p_stdio p \<and> p_blocked p' = p_blocked p \<and> c' = c \<and> argv = c # as \<and> envp' = envp \<and> c_execvp os c = None) \<and>
    (r = ExitWith n (Some errno) \<longrightarrow> c_execvp os c = Some errno \<and> n = 1) \<and>
    (privileged os \<and> p_uid p = 0 \<and> isOk (case_prod getrlimit (c_getrlimit os)) \<and>
       (\<forall>l. isOk (setrlimit (c_setrlimit os) l)) \<and> isOk (close_range (c_close_range os)) \<and> c_execvp os c = None \<longrightarrow> (\<exists>p'. r = Image p' c (c # as) envp))"
proof (intro conjI impI)
  assume "r = Image p' c' argv envp'"
  then obtain q where q: "set_creds os cr (p\<lparr>p_nofile := (snd (c_getrlimit os))\<lparr>rlim_cur :=
      min (rlim_max (snd (c_getrlimit os))) 1024\<rparr>, p_cloexec := True\<rparr>) = Inr q"
    and e: "(case c_execvp os c of None \<Rightarrow> Image q c (c # as) envp
      | Some errno \<Rightarrow> expect_no_panic (c_err_write os) (\<lambda>_. ExitWith 1 (Some errno))) = Image p' c' argv envp'"
    by (auto simp: r exec_with_creds_and_err_pipe_def expect_no_panic_Image Let_def getrlimit_def and_then_eq_Inr
        split: prod.splits)
  from e have "c_execvp os c = None" "p' = q" "c' = c" "argv = c # as" "envp' = envp"
    by (auto simp: expect_no_panic_Image split: option.splits)
  with set_creds_Inr [OF q]
  show "p_uid p' = uid cr" "p_gid p' = gid cr" "p_groups p' = []"
    "p_nofile p' = (snd (c_getrlimit os))\<lparr>rlim_cur := min (rlim_max (snd (c_getrlimit os))) 1024\<rparr>" "p_cloexec p'"
    "p_stdio p' = p_stdio p" "p_blocked p' = p_blocked p" "c' = c" "argv = c # as" "envp' = envp" "c_execvp os c = None" by simp_all
next
  assume "r = ExitWith n (Some errno)"
  then show "c_execvp os c = Some errno" "n = 1"
    by (auto simp: r exec_with_creds_and_err_pipe_def expect_no_panic_err Let_def split: option.splits)
next
  assume a: "privileged os \<and> p_uid p = 0 \<and> isOk (case_prod getrlimit (c_getrlimit os)) \<and>
    (\<forall>l. isOk (setrlimit (c_setrlimit os) l)) \<and> isOk (close_range (c_close_range os)) \<and> c_execvp os c = None"
  then obtain m v where "case_prod getrlimit (c_getrlimit os) = Inr m" "close_range (c_close_range os) = Inr v"
    by (auto elim!: isOkE)
  moreover obtain u where "setrlimit (c_setrlimit os) (m\<lparr>rlim_cur := min (rlim_max m) 1024\<rparr>) = Inr u"
    using a by (meson isOkE)
  moreover obtain q where "set_creds os cr (p\<lparr>p_nofile := m\<lparr>rlim_cur := min (rlim_max m) 1024\<rparr>, p_cloexec := True\<rparr>) = Inr q"
    using set_creds_privileged [of os "p\<lparr>p_nofile := m\<lparr>rlim_cur := min (rlim_max m) 1024\<rparr>, p_cloexec := True\<rparr>" cr] a
    by (auto elim!: isOkE)
  ultimately show "\<exists>p'. r = Image p' c (c # as) envp"
    using a by (simp add: r exec_with_creds_and_err_pipe_def expect_no_panic_def Let_def)
qed

definition good_child :: child_os where
  "good_child = \<lparr>c_setpgid = (0, os_error 1 []), c_getrlimit = ((0, os_error 1 []), \<lparr>rlim_cur = 4096, rlim_max = 4096\<rparr>),
     c_setrlimit = \<lambda>_. (0, os_error 1 []), c_close_range = (0, os_error 1 []),
     c_setgroups = \<lambda>p. (if p_uid p = 0 then 0 else -1, os_error 1 []),
     c_setgid = \<lambda>p g. (if p_uid p = 0 then 0 else -1, os_error 1 []),
     c_setuid = \<lambda>p u. (if p_uid p = 0 then 0 else -1, os_error 1 []),
     c_execvp = \<lambda>c. if c = ''sh'' then None else Some 2, c_err_write = Inr ()\<rparr>"

definition root_proc :: proc where
  "root_proc = \<lparr>p_uid = 0, p_gid = 0, p_groups = [4, 20], p_nofile = \<lparr>rlim_cur = 4096, rlim_max = 4096\<rparr>,
     p_cloexec = False, p_stdio = [], p_blocked = {2, 15, 17}, p_leader = False\<rparr>"

theorem exec_credentials_witness:
  "\<exists>p'. exec_with_creds_and_err_pipe good_child root_proc ''sh'' [''sh''] [] \<lparr>uid = 1000, gid = 100\<rparr> =
      Image p' ''sh'' [''sh''] [] \<and> p_uid p' = 1000 \<and> p_groups p' = []"
proof -
  define r where "r = exec_with_creds_and_err_pipe good_child root_proc ''sh'' (''sh'' # []) [] \<lparr>uid = 1000, gid = 100\<rparr>"
  note claim = exec_credentials [OF r_def]
  have "privileged good_child" by (simp add: privileged_def good_child_def)
  moreover have "p_uid root_proc = 0" "isOk (case_prod getrlimit (c_getrlimit good_child))"
    "\<And>l. isOk (setrlimit (c_setrlimit good_child) l)"
    "isOk (close_range (c_close_range good_child))" "c_execvp good_child ''sh'' = None"
    by (simp_all add: good_child_def root_proc_def wrapper_defs)
  ultimately obtain p' where image: "r = Image p' ''sh'' (''sh'' # []) []"
    using claim by blast
  have "p_uid p' = 1000" "p_groups p' = []"
    using claim [THEN conjunct1, THEN mp, OF image] by simp_all
  then show ?thesis using image unfolding r_def by blast
qed

section \<open>Standard streams\<close>

text \<open>\<open>PtyClient::make_tty\<close>: unlock, open the client side, and give it to the service's user.\<close>

record tty_os =
  t_unlock :: libc_result
  t_peer :: libc_result
  t_fstat_gid :: "io_error + u32"
  t_fchown :: "u32 \<Rightarrow> u32 \<Rightarrow> libc_result"
  t_dup2 :: "fd \<Rightarrow> nat \<Rightarrow> libc_result"

definition make_tty :: "tty_os \<Rightarrow> u32 \<Rightarrow> io_error + fd" where
  "make_tty t owner =
     and_then (cerr (t_unlock t)) (\<lambda>_.
     and_then (cerr (t_peer t)) (\<lambda>fd.
     and_then (t_fstat_gid t) (\<lambda>st_gid.
     and_then (cerr (t_fchown t owner st_gid)) (\<lambda>_. Inr (nat fd)))))"

definition dup_all :: "tty_os \<Rightarrow> fd \<Rightarrow> nat list \<Rightarrow> proc \<Rightarrow> io_error + proc" where
  "dup_all t f targets p =
     and_then (collect_results (\<lambda>n. cerr (t_dup2 t f n)) targets) (\<lambda>_.
       Inr (p\<lparr>p_stdio := p_stdio p @ map (\<lambda>n. (n, f)) targets\<rparr>))"

definition set_stdioe :: "tty_os \<Rightarrow> sink \<Rightarrow> u32 \<Rightarrow> proc \<Rightarrow> io_error + proc" where
  "set_stdioe t sink owner p =
     (case sink of
        PtySink _ \<Rightarrow> and_then (make_tty t owner) (\<lambda>pty_fd. dup_all t pty_fd [0, 1, 2] p)
      | LogSink log_writer \<Rightarrow> dup_all t log_writer [1, 2] p)"

section \<open>The forked process\<close>

record fork_os =
  f_signal_os :: signal_os
  f_setsid :: libc_result
  f_tty :: tty_os
  f_fork :: "io_error + pid_t"
  f_self_pid :: pid_t
  f_pid_write :: "io_error + unit"
  f_barrier :: "io_error + nat"
  f_child :: child_os

text \<open>
  What a run leaves behind: how the service's process ended its setup (if it was forked),
  the pid written to the pid pipe, and the forked process itself, which exits (after the
  double fork) or stays as the monitor of the given service process.
\<close>

datatype first_end = FirstExit c_int | Monitoring pid_t

record run =
  service_end :: "child_end option"
  pid_written :: "pid_t option"
  run_first :: first_end

definition died :: "child_end option \<Rightarrow> pid_t option \<Rightarrow> run" where
  "died s p = \<lparr>service_end = s, pid_written = p, run_first = FirstExit 101\<rparr>"

definition or_die :: "child_end option \<Rightarrow> pid_t option \<Rightarrow> io_error + 'a \<Rightarrow> ('a \<Rightarrow> run) \<Rightarrow> run" where
  "or_die s p r f = (case r of Inr x \<Rightarrow> f x | Inl e \<Rightarrow> died s p)"

definition service_process_main ::
    "child_os \<Rightarrow> proc \<Rightarrow> string \<times> string list \<times> string list \<Rightarrow> credentials \<Rightarrow> child_end" where
  "service_process_main os p prep cr =
     expect_no_panic (setpgid (c_setpgid os)) (\<lambda>_.
       exec_with_creds_and_err_pipe os (p\<lparr>p_leader := True\<rparr>) (fst prep) (fst (snd prep)) (snd (snd prep)) cr)"

text \<open>
  The child of a fork has the signal mask of its parent and is in its parent's process group;
  \<open>p_leader\<close> says that it leads a group of its own.
\<close>

definition forked ::
    "fork_os \<Rightarrow> sigset \<Rightarrow> service_config \<Rightarrow> string \<times> string list \<times> string list \<Rightarrow> sink \<Rightarrow> proc \<Rightarrow> run" where
  "forked os old_sigmask config prep sink p =
     (case restore_sigmask (f_signal_os os) old_sigmask (p_blocked p) of (r, blocked) \<Rightarrow>
     or_die None None r (\<lambda>_.
     or_die None None (setsid (f_setsid os)) (\<lambda>_.
       let p = p\<lparr>p_blocked := blocked, p_leader := True\<rparr> in
     or_die None None (set_stdioe (f_tty os) sink (uid (creds config)) p) (\<lambda>p.
     if \<not> has_ctty sink then
       or_die None None (f_fork os) (\<lambda>service_pid.
         let s = Some (service_process_main (f_child os) (p\<lparr>p_leader := False\<rparr>) prep (creds config)) in
       or_die s None (f_pid_write os) (\<lambda>_.
         \<lparr>service_end = s, pid_written = Some service_pid, run_first = FirstExit 0\<rparr>))
     else
       or_die None None (signal_set_new (f_signal_os os) [SIGCHLD]) (\<lambda>sigs.
       case block (f_signal_os os) sigs (p_blocked p) of (r, blocked) \<Rightarrow>
       or_die None None r (\<lambda>old_sigset.
       or_die None None (signalfd_new (f_signal_os os) sigs) (\<lambda>_.
       or_die None None (f_fork os) (\<lambda>service_pid.
         let s = Some (case set_mask (f_signal_os os) old_sigset blocked of (r, blocked) \<Rightarrow>
                   expect_no_panic r (\<lambda>_.
                     service_process_main (f_child os) (p\<lparr>p_blocked := blocked, p_leader := False\<rparr>) prep (creds config))) in
       or_die s None (f_pid_write os) (\<lambda>_.
         let w = Some (f_self_pid os) in
       or_die s w (barrier_wait (f_barrier os)) (\<lambda>_.
       or_die s w (and_then (signal_set_new (f_signal_os os) [SIGTTOU]) (\<lambda>sigs.
           fst (block (f_signal_os os) sigs blocked))) (\<lambda>_.
         \<lparr>service_end = s, pid_written = w, run_first = Monitoring service_pid\<rparr>)))))))))))"

lemma or_die_cases:
  "or_die s p r f = x \<longleftrightarrow> (\<exists>y. r = Inr y \<and> f y = x) \<or> (\<not> isOk r \<and> x = died s p)"
  by (cases r) (auto simp: or_die_def)

lemma service_process_main_Image:
  "service_process_main os p (c, c # as, envp) cr = Image p' c' argv envp' \<Longrightarrow>
     p_uid p' = uid cr \<and> p_gid p' = gid cr \<and> p_groups p' = [] \<and> p_stdio p' = p_stdio p \<and>
     p_blocked p' = p_blocked p \<and> p_leader p' \<and> c' = c \<and> argv = c # as \<and> envp' = envp"
  by (auto simp: service_process_main_def exec_with_creds_and_err_pipe_def expect_no_panic_Image Let_def
      dest!: set_creds_Inr split: option.splits)

lemma exec_ends:
  "exec_with_creds_and_err_pipe os p c argv envp cr = ExitWith n errno \<Longrightarrow>
     (n = 101 \<and> errno = None) \<or> (n = 1 \<and> errno \<noteq> None \<and> errno = c_execvp os c)"
  by (auto simp: exec_with_creds_and_err_pipe_def expect_no_panic_def Let_def
      split: sum.splits option.splits) (metis option.exhaust)+

lemma service_process_main_ends:
  "service_process_main os p prep cr = ExitWith n errno \<Longrightarrow>
     (n = 101 \<and> errno = None) \<or> (n = 1 \<and> errno \<noteq> None \<and> errno = c_execvp os (fst prep))"
  by (auto simp: service_process_main_def expect_no_panic_def dest!: exec_ends split: sum.splits)

lemma dup_all_stdio: "dup_all t f ns p = Inr p' \<Longrightarrow> p' = p\<lparr>p_stdio := p_stdio p @ map (\<lambda>n. (n, f)) ns\<rparr>"
  by (auto simp: dup_all_def and_then_eq_Inr)

lemma set_stdioe_stdio:
  "set_stdioe t sink owner p = Inr p' \<Longrightarrow>
     \<exists>f. p_stdio p' = p_stdio p @ map (\<lambda>n. (n, f)) (if has_ctty sink then [0, 1, 2] else [1, 2]) \<and>
       (\<forall>w. sink = LogSink w \<longrightarrow> f = w)"
  by (auto simp: set_stdioe_def has_ctty_def and_then_eq_Inr dest!: dup_all_stdio split: sink.splits)

section \<open>Parent and child together\<close>

text \<open>What the parent reads when the forked process runs as in \<open>r\<close>.\<close>

definition eof :: io_error where
  "eof = io_other UnexpectedEof ''failed to fill whole buffer''"

definition reported_errno :: "run \<Rightarrow> c_int option" where
  "reported_errno r = (case service_end r of Some (ExitWith n e) \<Rightarrow> e | _ \<Rightarrow> None)"

definition parent_view :: "(nat \<Rightarrow> io_error + (fd \<times> fd)) \<Rightarrow> pid_t \<Rightarrow> run \<Rightarrow> spawn_os" where
  "parent_view pipes forked_pid r =
     \<lparr>sp_pipe = pipes, sp_fork = Inr forked_pid,
      sp_err_read = (case reported_errno r of Some e \<Rightarrow> Inr e | None \<Rightarrow> Inl eof),
      sp_pid_read = map_option Inr (pid_written r)\<rparr>"

lemma spawn_parent_view:
  assumes "isOk (prepare config)" "\<And>n. isOk (pipes n)"
  shows "spawn_service (parent_view pipes fp r) config sink =
    (case reported_errno r of
       Some errno \<Rightarrow> Some (Inl (os_error errno ''os error''))
     | None \<Rightarrow> map_option (\<lambda>pid. Inr (pid, if has_ctty sink
          then Some (snd (projr (pipes 2)), fst (projr (pipes 3))) else None)) (pid_written r))"
proof -
  obtain prep where "prepare config = Inr prep" using assms(1) by (auto elim!: isOkE)
  moreover have "\<exists>a b. pipes n = Inr (a, b)" for n using assms(2) [of n] by (auto elim!: isOkE)
  then obtain a b where "pipes n = Inr (a n, b n)" for n by metis
  ultimately show ?thesis
    by (cases "reported_errno r"; cases "pid_written r")
      (simp_all add: spawn_service_def parent_view_def eof_def io_other_def)
qed

lemma set_stdioe_frame: "set_stdioe t sink owner p = Inr p' \<Longrightarrow> p_blocked p' = p_blocked p"
  by (auto simp: set_stdioe_def and_then_eq_Inr dest!: dup_all_stdio split: sink.splits)

lemma mask_calls_ok:
  assumes "\<And>how. fst (so_sigmask os how) = 0"
  shows "restore_sigmask os old m = (Inr (), old)" "block os A m = (Inr m, m \<union> A)" "set_mask os A m = (Inr m, A)"
  using assms by (simp_all add: restore_sigmask_def mask_defs)

text \<open>
  How a forked process can have gone: it died before the second fork, or its child called
  \<open>execvp\<close> as the process \<open>q\<close> with the mask \<open>b\<close>.
\<close>

lemma forked_run:
  assumes "r = forked os old_sigmask config prep sink p"
  shows "(service_end r = None \<and> pid_written r = None) \<or>
    (\<exists>sp q0 q b x. f_fork os = Inr sp \<and> p_stdio q0 = p_stdio p \<and>
       set_stdioe (f_tty os) sink (uid (creds config)) q0 = Inr q \<and>
       ((\<forall>how. fst (so_sigmask (f_signal_os os) how) = 0) \<longrightarrow> b = old_sigmask) \<and>
       service_end r = Some x \<and>
       (x = ExitWith 101 None \<or>
        x = service_process_main (f_child os) (q\<lparr>p_blocked := b, p_leader := False\<rparr>) prep (creds config)) \<and>
       pid_written r \<in> {None, Some (if has_ctty sink then f_self_pid os else sp)})"
proof -
  let ?so = "f_signal_os os"
  let ?ok = "\<forall>how. fst (so_sigmask ?so how) = 0"
  obtain r1 b1 where r1: "restore_sigmask ?so old_sigmask (p_blocked p) = (r1, b1)" by force
  let ?q0 = "p\<lparr>p_blocked := b1, p_leader := True\<rparr>"
  have b1: "b1 = old_sigmask" if ?ok using r1 mask_calls_ok(1) [of ?so] that by auto
  show ?thesis
  proof (cases "isOk r1 \<and> isOk (setsid (f_setsid os)) \<and> isOk (set_stdioe (f_tty os) sink (uid (creds config)) ?q0)")
    case False
    then show ?thesis
      by (auto simp: assms forked_def r1 or_die_def died_def Let_def split: sum.splits)
  next
    case True
    then obtain q where q: "set_stdioe (f_tty os) sink (uid (creds config)) ?q0 = Inr q" by (auto elim!: isOkE)
    have same: "p_blocked q = b1" using set_stdioe_frame [OF q] by simp
    show ?thesis
    proof (cases "has_ctty sink")
      case False
      have "q\<lparr>p_leader := False\<rparr> = q\<lparr>p_blocked := b1, p_leader := False\<rparr>" using same by (cases q) simp
      with True q False b1 show ?thesis
        by (intro disj_imp [THEN iffD2] impI)
          (rule exI [of _ "projr (f_fork os)"], rule exI [of _ ?q0], rule exI [of _ q], rule exI [of _ b1],
            auto simp: assms forked_def r1 or_die_def died_def Let_def split: sum.splits elim!: isOkE)
    next
      case ctty: True
      obtain r2 b2 where r2: "block ?so (projr (signal_set_new ?so [SIGCHLD])) b1 = (r2, b2)" by force
      obtain r3 b3 where r3: "set_mask ?so (projr r2) b2 = (r3, b3)" by force
      have b3: "b3 = old_sigmask" if ok: ?ok
      proof -
        have "r2 = Inr b1" using r2 mask_calls_ok(2) [of ?so] ok by auto
        with r3 mask_calls_ok(3) [of ?so] ok b1 show ?thesis by auto
      qed
      let ?early = "isOk (signal_set_new ?so [SIGCHLD]) \<and> isOk r2 \<and>
        isOk (signalfd_new ?so (projr (signal_set_new ?so [SIGCHLD]))) \<and> isOk (f_fork os)"
      show ?thesis
      proof (cases ?early)
        case False
        then have "r = died None None"
          using True q ctty r2 by (auto simp: assms forked_def r1 or_die_def Let_def same split: sum.splits)
        then show ?thesis by (simp add: died_def)
      next
        case early: True
        then obtain sigs old_sigset sfd sp where steps: "signal_set_new ?so [SIGCHLD] = Inr sigs" "r2 = Inr old_sigset"
          "signalfd_new ?so sigs = Inr sfd" "f_fork os = Inr sp" by (auto elim!: isOkE)
        let ?x = "expect_no_panic r3 (\<lambda>_.
          service_process_main (f_child os) (q\<lparr>p_blocked := b3, p_leader := False\<rparr>) prep (creds config))"
        have "service_end r = Some ?x" "pid_written r \<in> {None, Some (f_self_pid os)}"
          using True q ctty r2 r3 steps
          by (auto simp: assms forked_def r1 or_die_def died_def Let_def same split: sum.splits)
        moreover have "?x = ExitWith 101 None \<or>
            ?x = service_process_main (f_child os) (q\<lparr>p_blocked := b3, p_leader := False\<rparr>) prep (creds config)"
          by (simp add: expect_no_panic_def split: sum.splits)
        ultimately show ?thesis
          using steps q ctty b3
          by (intro disjI2 exI [of _ sp] exI [of _ ?q0] exI [of _ q] exI [of _ b3] exI [of _ ?x]) simp
      qed
    qed
  qed
qed

text \<open>
  C9: starting a service, parent and child together: a start that is reported as
  successful has the pid of the service's process (of the monitor for a PTY) and a process
  that either runs the command as the client, with its output in the sink, leading a process
  group of its own and with the signal mask beam-init was started with, or died before it
  could; the error of a failed \<open>execvp\<close> reaches the client; and if the forked process dies
  before it has written a pid, as when the second fork fails, the parent never returns.
\<close>

theorem spawn_outcome:
  assumes prep: "prepare config = Inr (c, c # as, envp)" and pipes: "\<And>n. isOk (pipes n)"
    and r: "r = forked os old_sigmask config (c, c # as, envp) sink p"
    and res: "res = spawn_service (parent_view pipes fp r) config sink"
  shows "(res = Some (Inr (pid, mon)) \<longrightarrow>
      (if has_ctty sink then pid = f_self_pid os \<and> mon \<noteq> None else f_fork os = Inr pid \<and> mon = None) \<and>
      (service_end r = Some (ExitWith 101 None) \<or>
       (\<exists>p'. service_end r = Some (Image p' c (c # as) envp) \<and> p_uid p' = uid (creds config) \<and>
         p_gid p' = gid (creds config) \<and> p_groups p' = [] \<and> p_leader p' \<and>
         ((\<forall>how. fst (so_sigmask (f_signal_os os) how) = 0) \<longrightarrow> p_blocked p' = old_sigmask) \<and>
         (\<exists>f. map_of (rev (p_stdio p')) 1 = Some f \<and> map_of (rev (p_stdio p')) 2 = Some f \<and>
            (sink = LogSink w \<longrightarrow> f = w))))) \<and>
    (res = Some (Inl e) \<longrightarrow> raw_os_error e \<noteq> None \<and> raw_os_error e = c_execvp (f_child os) c) \<and>
    (\<not> isOk (f_fork os) \<longrightarrow> res = None)"
proof -
  have ok: "isOk (prepare config)" by (simp add: prep)
  note view = spawn_parent_view [of config pipes fp r sink, OF ok pipes, folded res]
  have ends: "x = ExitWith 101 None \<or> (\<exists>e. x = ExitWith 1 (Some e) \<and> c_execvp (f_child os) c = Some e) \<or>
      (\<exists>p'. x = Image p' c (c # as) envp \<and> p_uid p' = uid (creds config) \<and>
         p_gid p' = gid (creds config) \<and> p_groups p' = [] \<and> p_stdio p' = p_stdio q \<and>
         p_blocked p' = p_blocked q \<and> p_leader p')"
    if "x = service_process_main (f_child os) q (c, c # as, envp) (creds config)" for x q
    using service_process_main_ends [of "f_child os" q "(c, c # as, envp)" "creds config"]
      service_process_main_Image [of "f_child os" q c as envp "creds config"] that
    by (cases x) fastforce+
  note run = forked_run [OF r]
  show ?thesis
  proof (cases "service_end r")
    case None
    with run show ?thesis by (simp add: view reported_errno_def)
  next
    case (Some x)
    then have "service_end r \<noteq> None" by simp
    with run obtain sp q0 q b y where sp: "f_fork os = Inr sp" and q0: "p_stdio q0 = p_stdio p"
      and q: "set_stdioe (f_tty os) sink (uid (creds config)) q0 = Inr q"
      and blocked: "(\<forall>how. fst (so_sigmask (f_signal_os os) how) = 0) \<longrightarrow> b = old_sigmask"
      and y: "service_end r = Some y" "y = ExitWith 101 None \<or>
        y = service_process_main (f_child os) (q\<lparr>p_blocked := b, p_leader := False\<rparr>) (c, c # as, envp) (creds config)"
      and pid: "pid_written r \<in> {None, Some (if has_ctty sink then f_self_pid os else sp)}"
      by blast
    from y Some have x: "x = ExitWith 101 None \<or>
        x = service_process_main (f_child os) (q\<lparr>p_blocked := b, p_leader := False\<rparr>) (c, c # as, envp) (creds config)"
      by simp
    obtain f where f: "p_stdio q = p_stdio p @ map (\<lambda>n. (n, f)) (if has_ctty sink then [0, 1, 2] else [1, 2])"
      and w: "sink = LogSink w \<longrightarrow> f = w" using set_stdioe_stdio [OF q] q0 by auto
    then have std: "map_of (rev (p_stdio q)) 1 = Some f" "map_of (rev (p_stdio q)) 2 = Some f" by auto
    from x consider "x = ExitWith 101 None"
      | e where "x = ExitWith 1 (Some e)" "c_execvp (f_child os) c = Some e"
      | p' where "x = Image p' c (c # as) envp" "p_uid p' = uid (creds config)"
         "p_gid p' = gid (creds config)" "p_groups p' = []" "p_stdio p' = p_stdio q"
         "p_blocked p' = b" "p_leader p'"
      using ends [of x "q\<lparr>p_blocked := b, p_leader := False\<rparr>"] by auto
    then show ?thesis
      using Some sp pid std w blocked
      by cases (auto simp: view reported_errno_def os_error_def split: if_splits)
  qed
qed

definition good_fork :: fork_os where
  "good_fork = \<lparr>f_signal_os = sample_signal_os, f_setsid = (6, eof),
     f_tty = \<lparr>t_unlock = (0, eof), t_peer = (9, eof), t_fstat_gid = Inr 5, t_fchown = \<lambda>_ _. (0, eof),
              t_dup2 = \<lambda>f n. (int n, eof)\<rparr>,
     f_fork = Inr 7, f_self_pid = 6, f_pid_write = Inr (),
     f_barrier = Inr 0, f_child = good_child\<rparr>"

definition sh_config :: service_config where
  "sh_config = \<lparr>cmd = ''sh'', args = [''-c''], env = [(''A'', ''b'')], labels = [], liveness = None,
     pty_flag = False, creds = \<lparr>uid = 1000, gid = 100\<rparr>, graceful_termination_period = 10\<rparr>"

theorem spawn_outcome_witness:
  "spawn_service (parent_view (\<lambda>n. Inr (2 * n, 2 * n + 1)) 5
       (forked good_fork {} sh_config (''sh'', [''sh'', ''-c''], [''A=b'']) (LogSink 3) root_proc))
     sh_config (LogSink 3) = Some (Inr (7, None)) \<and>
   (\<exists>p'. service_end (forked good_fork {} sh_config (''sh'', [''sh'', ''-c''], [''A=b'']) (LogSink 3) root_proc) =
      Some (Image p' ''sh'' [''sh'', ''-c''] [''A=b'']) \<and> p_uid p' = 1000)"
proof -
  define r where "r = forked good_fork {} sh_config (''sh'', [''sh'', ''-c''], [''A=b'']) (LogSink 3) root_proc"
  have prep: "prepare sh_config = Inr (''sh'', ''sh'' # [''-c''], [''A=b''])"
    by (simp add: prepare_def sh_config_def cstring_def env_entry_def)
  have "\<exists>p'. service_end r = Some (Image p' ''sh'' [''sh'', ''-c''] [''A=b''])" "pid_written r = Some 7"
    by (simp_all add: r_def forked_def or_die_def good_fork_def set_stdioe_def dup_all_def wrapper_defs has_ctty_def
        service_process_main_def expect_no_panic_def exec_with_creds_and_err_pipe_def good_child_def
        set_creds_def sh_config_def root_proc_def Let_def sample_signal_os_def mask_calls_ok)
  moreover from this have res: "spawn_service (parent_view (\<lambda>n. Inr (2 * n, 2 * n + 1)) 5 r) sh_config (LogSink 3) =
      Some (Inr (7, None))"
    using prep by (auto simp: spawn_parent_view reported_errno_def has_ctty_def)
  have "service_end r = Some (ExitWith 101 None) \<or>
      (\<exists>p'. service_end r = Some (Image p' ''sh'' [''sh'', ''-c''] [''A=b'']) \<and> p_uid p' = 1000)"
    using spawn_outcome [where pipes = "\<lambda>n. Inr (2 * n, 2 * n + 1)" and fp = 5 and pid = 7 and mon = None
        and w = 3, OF prep _ r_def refl, THEN conjunct1, THEN mp, OF _ res]
    by (auto simp: sh_config_def)
  ultimately have "\<exists>p'. service_end r = Some (Image p' ''sh'' [''sh'', ''-c''] [''A=b'']) \<and> p_uid p' = 1000"
    by auto
  with res show ?thesis unfolding r_def [symmetric] by (intro conjI)
qed

section \<open>The monitor process\<close>

datatype monitor_call = Killpg pid_t c_int | Tcsetpgrp pid_t | Ack

datatype monitor_next = Continue | MonitorExit c_int | MonitorRaise c_int | MonitorAbort

definition command_calls :: "pid_t \<Rightarrow> pid_t \<Rightarrow> monitor_command \<Rightarrow> monitor_call list" where
  "command_calls service_pid self_pid c =
     (case c of
        MonSignal sig \<Rightarrow> [Killpg service_pid sig]
      | Foreground \<Rightarrow> [Tcsetpgrp service_pid, Killpg service_pid SIGCONT]
      | Background \<Rightarrow> [Killpg service_pid SIGTSTP, Tcsetpgrp self_pid])"

text \<open>The calls made, up to and including the first that fails, and whether none did.\<close>

fun run_calls :: "(monitor_call \<Rightarrow> io_error + unit) \<Rightarrow> monitor_call list \<Rightarrow> monitor_call list \<times> bool" where
  "run_calls os [] = ([], True)"
| "run_calls os (c # cs) =
     (case os c of
        Inl e \<Rightarrow> ([c], False)
      | Inr _ \<Rightarrow> (case run_calls os cs of (done', ok) \<Rightarrow> (c # done', ok)))"

fun monitor_reap :: "pid_t \<Rightarrow> (io_error + (pid_t \<times> raw_status)) list \<Rightarrow> monitor_next" where
  "monitor_reap service_pid [] = Continue"
| "monitor_reap service_pid (Inl e # ws) = MonitorExit 101"
| "monitor_reap service_pid (Inr (pid, status) # ws) =
     (if pid \<noteq> service_pid then monitor_reap service_pid ws
      else case status_code status of
          Some code \<Rightarrow> MonitorExit code
        | None \<Rightarrow> (case status_signal status of Some signal \<Rightarrow> MonitorRaise signal | None \<Rightarrow> MonitorExit 1))"

text \<open>
  One round of the loop: \<open>cmd_in\<close> is the byte read from the command pipe when it is
  readable, \<open>hup\<close> an error or hang-up on it, \<open>waits\<close> the children found when the signal
  descriptor is readable.
\<close>

definition monitor_round ::
    "(monitor_call \<Rightarrow> io_error + unit) \<Rightarrow> pid_t \<Rightarrow> pid_t \<Rightarrow> (io_error + u8) option \<Rightarrow> bool \<Rightarrow>
     (io_error + (pid_t \<times> raw_status)) list option \<Rightarrow> monitor_call list \<times> monitor_next" where
  "monitor_round os service_pid self_pid cmd_in hup waits =
     (let (calls, next) =
        (case cmd_in of
           None \<Rightarrow> ([], Continue)
         | Some (Inl e) \<Rightarrow> ([], MonitorExit 101)
         | Some (Inr b) \<Rightarrow>
             (case de b of
                Inl _ \<Rightarrow> ([], MonitorAbort)
              | Inr c \<Rightarrow> (case run_calls os (command_calls service_pid self_pid c @ [Ack]) of
                  (calls, ok) \<Rightarrow> (calls, if ok then Continue else MonitorExit 101)))) in
      if next \<noteq> Continue then (calls, next)
      else
        (calls @ (if hup then [Killpg service_pid SIGKILL] else []),
         (case waits of None \<Rightarrow> Continue | Some ws \<Rightarrow> monitor_reap service_pid ws)))"

lemma run_calls_subset: "run_calls os cs = (d, ok) \<Longrightarrow> set d \<subseteq> set cs"
  by (induction cs arbitrary: d ok) (fastforce split: sum.splits prod.splits)+

lemma run_calls_last:
  "run_calls os (cs @ [a]) = (d, ok) \<Longrightarrow> a \<notin> set cs \<Longrightarrow> a \<in> set d \<Longrightarrow>
     d = cs @ [a] \<and> (\<forall>c \<in> set cs. isOk (os c))"
  by (induction cs arbitrary: d ok) (auto split: sum.splits prod.splits)

lemma command_calls_targets:
  "Ack \<notin> set (command_calls s p c)" "Killpg pid sig \<in> set (command_calls s p c) \<Longrightarrow> pid = s"
  by (cases c; auto simp: command_calls_def)+

lemma monitor_reap_service:
  "distinct (map fst ws) \<Longrightarrow> (sp, st) \<in> set ws \<Longrightarrow> exit_status_from st = Inr e \<Longrightarrow>
     monitor_reap sp (map Inr ws) = (case e of Code c \<Rightarrow> MonitorExit c | Signal s _ \<Rightarrow> MonitorRaise s)"
proof (induction ws)
  case (Cons w ws)
  show ?case
  proof (cases "fst w = sp")
    case True
    with Cons.prems have "w = (sp, st)" by (auto simp: prod_eq_iff rev_image_eqI)
    with Cons.prems show ?thesis by (auto simp: exit_status_from_def split: option.splits)
  next
    case False
    with Cons show ?thesis by (cases w) auto
  qed
qed simp

lemma monitor_round_calls:
  assumes "monitor_round os sp self cmd_in hup waits = (calls, next)"
  obtains d rest where "calls = d @ rest" "set rest \<subseteq> {Killpg sp SIGKILL}"
    "d = [] \<or> (\<exists>b c ok. cmd_in = Some (Inr b) \<and> de b = Inr c \<and>
       run_calls os (command_calls sp self c @ [Ack]) = (d, ok))"
proof -
  define rest :: "monitor_call list" where "rest = (if hup then [Killpg sp SIGKILL] else [])"
  have "\<exists>d. (calls = d \<or> calls = d @ rest) \<and> (d = [] \<or> (\<exists>b c ok. cmd_in = Some (Inr b) \<and> de b = Inr c \<and>
       run_calls os (command_calls sp self c @ [Ack]) = (d, ok)))"
    using assms
    by (auto simp: monitor_round_def Let_def rest_def split: option.splits sum.splits prod.splits if_splits)
  moreover have "set rest \<subseteq> {Killpg sp SIGKILL}" by (auto simp: rest_def)
  ultimately show ?thesis using that [of _ "[]"] that [of _ rest] by auto
qed



end
