(* ===== verification/Publisher.thy ===== *)
theory Publisher
  imports Api
begin

text \<open>
  \<open>service_status_publisher\<close> of \<open>beam-init/src/services.rs\<close> and the waiting loop of
  \<open>wait_service\<close> in \<open>api_impl.rs\<close>. The tokio broadcast channel is modelled by its
  documentation: it keeps the last 32 values sent, a receiver is a position in the sequence
  of values, and one that fell behind learns how many values it missed. A value sent while
  nobody listens is dropped by the channel; no receiver ever points before it.
\<close>

section \<open>Publisher and subscription\<close>

definition channel_capacity :: nat where
  "channel_capacity = 32"

record publisher =
  latest :: api_status
  sent :: "api_status list"

record subscription =
  current :: "api_status option"
  position :: nat

definition publisher_new :: "api_status \<Rightarrow> publisher" where
  "publisher_new initial = \<lparr>latest = initial, sent = []\<rparr>"

definition publish :: "api_status \<Rightarrow> publisher \<Rightarrow> publisher" where
  "publish status p =
     (if latest p = status then p else p\<lparr>latest := status, sent := sent p @ [status]\<rparr>)"

definition subscribe :: "publisher \<Rightarrow> subscription" where
  "subscribe p = \<lparr>current = Some (latest p), position = length (sent p)\<rparr>"

text \<open>\<open>Pending\<close> is a \<open>recv\<close> that still waits; \<open>closed\<close> says that the sender was dropped.\<close>

datatype recv_result = Received api_status | Lagged nat | Closed | Pending

definition broadcast_recv :: "bool \<Rightarrow> api_status list \<Rightarrow> nat \<Rightarrow> recv_result \<times> nat" where
  "broadcast_recv closed vs pos =
     (if pos + channel_capacity < length vs
      then (Lagged (length vs - channel_capacity - pos), length vs - channel_capacity)
      else if pos < length vs then (Received (vs ! pos), pos + 1)
      else (if closed then Closed else Pending, pos))"

definition recv :: "bool \<Rightarrow> publisher \<Rightarrow> subscription \<Rightarrow> recv_result \<times> subscription" where
  "recv closed p s =
     (case current s of
        Some status \<Rightarrow> (Received status, s\<lparr>current := None\<rparr>)
      | None \<Rightarrow> (case broadcast_recv closed (sent p) (position s) of
          (r, pos) \<Rightarrow> (r, s\<lparr>position := pos\<rparr>)))"

section \<open>Waiting for a state\<close>

datatype wait_outcome = Found api_status | PrunedWhileWaiting | ObservationLag nat | Waiting

definition backlog :: "publisher \<Rightarrow> subscription \<Rightarrow> nat" where
  "backlog p s = length (sent p) - position s + (if current s = None then 0 else 1)"

text \<open>The loop of \<open>wait_service\<close>, run until it answers or has to wait.\<close>

function wait_service :: "status_kind \<Rightarrow> bool \<Rightarrow> publisher \<Rightarrow> subscription \<Rightarrow> wait_outcome \<times> subscription" where
  "wait_service k closed p s =
     (case recv closed p s of
        (Received st, s') \<Rightarrow> if kind st = k then (Found st, s') else wait_service k closed p s'
      | (Closed, s') \<Rightarrow> (PrunedWhileWaiting, s')
      | (Lagged n, s') \<Rightarrow> (ObservationLag n, s')
      | (Pending, s') \<Rightarrow> (Waiting, s'))"
  by pat_completeness auto
termination
  by (relation "measure (\<lambda>(k, closed, p, s). backlog p s)")
    (auto simp: recv_def backlog_def broadcast_recv_def split: option.splits prod.splits if_splits)

declare wait_service.simps [simp del]

text \<open>What the subscriber has still to see.\<close>

definition unseen :: "publisher \<Rightarrow> subscription \<Rightarrow> api_status list" where
  "unseen p s = (case current s of Some st \<Rightarrow> [st] | None \<Rightarrow> []) @ drop (position s) (sent p)"

lemma recv_cases:
  assumes "recv closed p s = (r, s')" "position s \<le> length (sent p)"
  obtains (got) st where "r = Received st" "unseen p s = st # unseen p s'" "position s' \<le> length (sent p)"
  | (lag) n where "r = Lagged n"
  | (wait) "unseen p s = []" "r = (if closed then Closed else Pending)" "s' = s"
proof (cases "current s")
  case None
  with assms that show ?thesis
    by (auto simp: recv_def broadcast_recv_def unseen_def Cons_nth_drop_Suc split: if_splits)
next
  case (Some st)
  with assms that show ?thesis by (auto simp: recv_def unseen_def)
qed

lemma wait_service_outcome:
  assumes "wait_service k closed p s = (out, s')" "position s \<le> length (sent p)"
  shows "case out of
      Found st \<Rightarrow> List.find (\<lambda>x. kind x = k) (unseen p s) = Some st \<and> position s' \<le> length (sent p)
    | PrunedWhileWaiting \<Rightarrow> closed \<and> List.find (\<lambda>x. kind x = k) (unseen p s) = None
    | Waiting \<Rightarrow> \<not> closed \<and> List.find (\<lambda>x. kind x = k) (unseen p s) = None \<and> unseen p s' = [] \<and>
        position s' \<le> length (sent p)
    | ObservationLag n \<Rightarrow> True"
  using assms
proof (induction k closed p s arbitrary: out s' rule: wait_service.induct)
  case (1 k closed p s)
  obtain r s1 where r: "recv closed p s = (r, s1)" by force
  from r "1.prems"(2) show ?case
  proof (cases rule: recv_cases)
    case (got st)
    show ?thesis
    proof (cases "kind st = k")
      case True
      then show ?thesis using got r "1.prems" by (subst (asm) wait_service.simps) auto
    next
      case False
      then have "wait_service k closed p s1 = (out, s')"
        using got r "1.prems"(1) by (subst (asm) wait_service.simps) simp
      with "1.IH" [OF r [symmetric] got(1) False] got False show ?thesis
        by (simp split: wait_outcome.splits)
    qed
  next
    case (lag n)
    then show ?thesis using r "1.prems"(1) by (subst (asm) wait_service.simps) auto
  next
    case wait
    then show ?thesis using r "1.prems" by (subst (asm) wait_service.simps) (auto split: if_splits)
  qed
qed

section \<open>Runs\<close>

text \<open>Publishing, pruning (the sender is dropped) and polls of one waiting request, in any order.\<close>

datatype wait_op = Publish api_status | Prune | Poll

fun wait_run :: "status_kind \<Rightarrow> wait_op list \<Rightarrow> bool \<Rightarrow> publisher \<Rightarrow> subscription \<Rightarrow> wait_outcome" where
  "wait_run k [] closed p s = Waiting"
| "wait_run k (Publish st # ops) closed p s = wait_run k ops closed (if closed then p else publish st p) s"
| "wait_run k (Prune # ops) closed p s = wait_run k ops True p s"
| "wait_run k (Poll # ops) closed p s =
     (case wait_service k closed p s of
        (Waiting, s') \<Rightarrow> wait_run k ops closed p s'
      | (out, s') \<Rightarrow> out)"

text \<open>The statuses published before the service is pruned.\<close>

fun published :: "wait_op list \<Rightarrow> api_status list" where
  "published [] = []"
| "published (Publish st # ops) = st # published ops"
| "published (Prune # ops) = []"
| "published (Poll # ops) = published ops"

lemma published_takeWhile: "Prune \<notin> set ops \<Longrightarrow> published (ops @ ops') = published ops @ published ops'"
  by (induction ops rule: published.induct) auto

lemma publish_log:
  "latest p # drop n (sent p) = xs \<Longrightarrow> n \<le> length (sent p) \<Longrightarrow>
     sent (publish st p) = sent p @ (if latest p = st then [] else [st])"
  by (simp add: publish_def)

lemma latest_publish [simp]: "latest (publish st p) = st"
  by (simp add: publish_def)

lemma find_append: "List.find P (xs @ ys) = (case List.find P xs of None \<Rightarrow> List.find P ys | Some x \<Rightarrow> Some x)"
  by (induction xs) auto

lemma unseen_publish:
  "position s \<le> length (sent p) \<Longrightarrow>
     unseen (publish st p) s = unseen p s @ (if latest p = st then [] else [st])"
  by (simp add: publish_def unseen_def)

text \<open>
  The statuses a waiting request has yet to see have the same first match as what remains
  to be published, when the latest published status is among the seen or the unseen ones.
\<close>

lemma wait_run_found:
  assumes "wait_run k ops closed p s = out" "position s \<le> length (sent p)"
    and "kind (latest p) = k \<longrightarrow> List.find (\<lambda>x. kind x = k) (unseen p s) \<noteq> None"
  shows "case out of
      Found st \<Rightarrow> List.find (\<lambda>x. kind x = k) (unseen p s @ (if closed then [] else published ops)) = Some st
    | PrunedWhileWaiting \<Rightarrow>
        List.find (\<lambda>x. kind x = k) (unseen p s @ (if closed then [] else published ops)) = None
    | _ \<Rightarrow> True"
  using assms
proof (induction k ops closed p s rule: wait_run.induct)
  case (1 k closed p s)
  then show ?case by auto
next
  case (2 k st ops closed p s)
  define p' where "p' = (if closed then p else publish st p)"
  have same: "List.find (\<lambda>x. kind x = k) (unseen p' s @ (if closed then [] else published ops)) =
      List.find (\<lambda>x. kind x = k) (unseen p s @ (if closed then [] else published (Publish st # ops)))"
    using "2.prems"(2,3) by (auto simp: p'_def unseen_publish find_append split: option.splits)
  have pos: "position s \<le> length (sent p')"
    using "2.prems"(2) by (auto simp: p'_def publish_def)
  have match: "kind (latest p') = k \<longrightarrow> List.find (\<lambda>x. kind x = k) (unseen p' s) \<noteq> None"
    using "2.prems"(2,3) by (auto simp: p'_def unseen_publish find_append split: option.splits)
  have "wait_run k ops closed p' s = out" using "2.prems"(1) by (simp add: p'_def)
  from "2.IH" [folded p'_def, OF this pos match] show ?case unfolding same .
next
  case (3 k ops closed p s)
  then show ?case
    by (auto simp: find_append split: wait_outcome.splits option.splits)
next
  case (4 k ops closed p s)
  obtain out' s' where w: "wait_service k closed p s = (out', s')" by force
  note o = wait_service_outcome [OF w "4.prems"(2)]
  show ?case
  proof (cases "out' = Waiting")
    case True
    have "out = wait_run k ops closed p s'"
      using "4.prems"(1) w True by simp
    with o "4.prems" "4.IH" [OF w [symmetric] True] True show ?thesis
      by (auto simp: find_append split: wait_outcome.splits option.splits)
  next
    case False
    then have "out = out'" using "4.prems"(1) w by (simp split: wait_outcome.splits)
    with o False show ?thesis
      by (auto simp: find_append split: wait_outcome.splits)
  qed
qed



text \<open>The log of a publisher is what was published, without adjacent repetitions.\<close>

lemma publish_run:
  "latest (fold publish sts p) # [] = [last (latest p # sts)] \<and>
   sent (fold publish sts p) = sent p @ tl (remdups_adj (latest p # sts))"
proof (induction sts arbitrary: p)
  case Nil
  then show ?case by simp
next
  case (Cons st sts)
  from Cons.IH [of "publish st p"] show ?case
    by (cases "latest p = st") (auto simp: publish_def remdups_adj_Cons split: list.splits)
qed


end
