(* ===== verification/Logs.thy ===== *)
theory Logs
  imports Utf8
begin

text \<open>
  \<open>beam-init/src/logs.rs\<close>: the ring buffer of a service's log lines, its readers and
  the sanitizer. The buffer is a data refinement of the unbounded history of pushed lines
  (\<open>rb_rep\<close>); the locale \<open>log_buffer\<close> states what a log reader relies on and proves
  what a reader sees under any interleaving of pushes and reads. Indices are \<open>u64\<close>
  words, as in the code: \<open>next_idx\<close> wraps after 2^64 pushes, which the theorems exclude.
\<close>

section \<open>The ring buffer\<close>

record ring_buffer =
  entries :: "string list"
  next_idx :: u64
  capacity :: usize

datatype ring_entry = Line string | Lost | Empty

definition rb_new :: "usize \<Rightarrow> ring_buffer" where
  "rb_new cap = \<lparr>entries = [], next_idx = 0, capacity = cap\<rparr>"

text \<open>The \<open>while\<close> loop of \<open>push\<close>: drop from the front until the capacity is met.\<close>

fun pop_excess :: "nat \<Rightarrow> string list \<Rightarrow> string list" where
  "pop_excess cap [] = []"
| "pop_excess cap (x # xs) = (if length (x # xs) > cap then pop_excess cap xs else x # xs)"

definition rb_push :: "ring_buffer \<Rightarrow> string \<Rightarrow> ring_buffer" where
  "rb_push q line =
     q\<lparr>entries := pop_excess (unat (capacity q)) (entries q @ [line]), next_idx := next_idx q + 1\<rparr>"

text \<open>The reader is the index of the entry it reads next; it is returned updated.\<close>

definition rb_get :: "ring_buffer \<Rightarrow> u64 \<Rightarrow> panic + (ring_entry \<times> u64)" where
  "rb_get q reader =
     (let first_idx = next_idx q - of_nat (length (entries q)) in
      if reader \<ge> next_idx q then
        (if reader = next_idx q then Inr (Empty, reader) else Inl ''debug_assert_eq'')
      else if reader < first_idx then Inr (Lost, first_idx)
      else
        let entry = unat (reader - first_idx) in
        if entry < length (entries q) then Inr (Line (entries q ! entry), reader + 1)
        else Inl ''index out of bounds'')"

section \<open>Refinement of the history\<close>

definition rb_rep :: "ring_buffer \<Rightarrow> string list \<Rightarrow> bool" where
  "rb_rep q h \<longleftrightarrow>
     0 < unat (capacity q) \<and> length h < 2 ^ 64 \<and> unat (next_idx q) = length h \<and>
     entries q = drop (length h - unat (capacity q)) h"

lemma pop_excess_drop: "pop_excess cap xs = drop (length xs - cap) xs"
proof (induction xs)
  case Nil
  then show ?case by simp
next
  case (Cons x xs)
  then show ?case by (cases "length xs < cap") (auto simp: Suc_diff_le)
qed

lemma rb_rep_new: "0 < unat cap \<Longrightarrow> rb_rep (rb_new cap) []"
  by (simp add: rb_rep_def rb_new_def)

lemma rb_capacity_push [simp]: "capacity (rb_push q l) = capacity q"
  by (simp add: rb_push_def)

lemma rb_rep_push:
  assumes "rb_rep q h" "Suc (length h) < 2 ^ 64"
  shows "rb_rep (rb_push q l) (h @ [l])"
proof -
  have "unat (next_idx q + 1) = Suc (length h)"
    using assms by (simp add: rb_rep_def unat_word_ariths)
  moreover have "drop (length (entries q @ [l]) - unat (capacity q)) (entries q @ [l]) =
      drop (length (h @ [l]) - unat (capacity q)) (h @ [l])"
    using assms by (cases "length h \<le> unat (capacity q)") (auto simp: rb_rep_def Suc_diff_le)
  ultimately show ?thesis
    using assms by (simp add: rb_rep_def rb_push_def pop_excess_drop)
qed

lemma rb_first_idx:
  assumes "rb_rep q h"
  shows "unat (next_idx q - of_nat (length (entries q))) = length h - unat (capacity q)"
proof -
  have le: "length (entries q) \<le> length h" and len: "length (entries q) = length h - (length h - unat (capacity q))"
    using assms by (auto simp: rb_rep_def)
  have "length (entries q) < 2 ^ LENGTH(64)" using assms le unfolding rb_rep_def by simp linarith
  then have u: "unat (of_nat (length (entries q)) :: u64) = length (entries q)"
    by (simp only: unat_of_nat mod_less)
  then have "(of_nat (length (entries q)) :: u64) \<le> next_idx q"
    using assms le by (simp add: word_le_nat_alt rb_rep_def)
  then have "unat (next_idx q - of_nat (length (entries q))) = unat (next_idx q) - length (entries q)"
    using u by (simp add: unat_sub)
  then show ?thesis
    using assms len by (simp add: rb_rep_def)
qed

lemma rb_get_end: "rb_rep q h \<Longrightarrow> unat r = length h \<Longrightarrow> rb_get q r = Inr (Empty, r)"
  by (auto simp: rb_get_def rb_rep_def word_unat_eq_iff word_le_nat_alt Let_def)

lemma rb_get_lost:
  assumes "rb_rep q h" "unat r < length h - unat (capacity q)"
  shows "\<exists>r'. rb_get q r = Inr (Lost, r') \<and> unat r' = length h - unat (capacity q)"
  using assms rb_first_idx [OF assms(1)]
  by (auto simp: rb_get_def rb_rep_def Let_def word_le_nat_alt word_less_nat_alt)

lemma rb_get_line:
  assumes "rb_rep q h" "length h - unat (capacity q) \<le> unat r" "unat r < length h"
  shows "\<exists>r'. rb_get q r = Inr (Line (h ! unat r), r') \<and> unat r' = Suc (unat r)"
proof -
  define f where "f = next_idx q - of_nat (length (entries q))"
  have f: "unat f = length h - unat (capacity q)"
    unfolding f_def by (rule rb_first_idx) fact
  then have le: "f \<le> r" using assms(2) by (simp add: word_le_nat_alt)
  have idx: "unat (r - f) = unat r - unat f" using le by (rule unat_sub)
  have r: "unat (r + 1) = Suc (unat r)"
    using assms(1,3) by (simp add: rb_rep_def unat_word_ariths)
  have "\<not> next_idx q \<le> r" "\<not> r < f"
    using assms le by (auto simp: rb_rep_def word_le_nat_alt word_less_nat_alt)
  moreover have "unat (r - f) < length (entries q)"
    using assms f idx by (auto simp: rb_rep_def)
  moreover have "entries q ! unat (r - f) = h ! unat r"
    using assms f idx by (auto simp: rb_rep_def nth_drop)
  ultimately have "rb_get q r = Inr (Line (h ! unat r), r + 1)"
    by (simp add: rb_get_def Let_def flip: f_def)
  with r show ?thesis by blast
qed

lemma rb_entries_bounded: "rb_rep q h \<Longrightarrow> length (entries q) \<le> unat (capacity q)"
  by (auto simp: rb_rep_def)

section \<open>Readers\<close>

text \<open>
  The stream of \<open>new_reader\<close>: it reads entries until the buffer is \<open>Empty\<close>, then waits
  for the next push. A run interleaves pushes of the writer with reads of one reader; the
  pushes are the history.
\<close>

datatype log_op = Push string | Read

fun reader_run :: "('q \<Rightarrow> string \<Rightarrow> 'q) \<Rightarrow> ('q \<Rightarrow> u64 \<Rightarrow> panic + (ring_entry \<times> u64)) \<Rightarrow>
    log_op list \<Rightarrow> 'q \<Rightarrow> u64 \<Rightarrow> panic + (ring_entry list \<times> 'q \<times> u64)" where
  "reader_run push get [] q r = Inr ([], q, r)"
| "reader_run push get (Push l # ops) q r = reader_run push get ops (push q l) r"
| "reader_run push get (Read # ops) q r =
     and_then (get q r) (\<lambda>(e, r').
       and_then (reader_run push get ops q r') (\<lambda>(out, q', r'').
         Inr (if e = Empty then out else e # out, q', r'')))"

definition pushed :: "log_op list \<Rightarrow> string list" where
  "pushed ops = List.map_filter (\<lambda>op. case op of Push l \<Rightarrow> Some l | Read \<Rightarrow> None) ops"

lemma pushed_simps [simp]:
  "pushed [] = []" "pushed (Push l # ops) = l # pushed ops" "pushed (Read # ops) = pushed ops"
  by (simp_all add: pushed_def map_filter_simps)

text \<open>
  What a reader may see of a history: from index \<open>i\<close> to \<open>j\<close>, every line in order,
  each gap announced by one \<open>Lost\<close>.
\<close>

inductive reads :: "string list \<Rightarrow> nat \<Rightarrow> ring_entry list \<Rightarrow> nat \<Rightarrow> bool" for h where
  reads_done: "reads h i [] i"
| reads_line: "i < length h \<Longrightarrow> reads h (Suc i) es j \<Longrightarrow> reads h i (Line (h ! i) # es) j"
| reads_lost: "i < k \<Longrightarrow> k \<le> length h \<Longrightarrow> reads h k es j \<Longrightarrow> reads h i (Lost # es) j"

inductive_cases reads_LineE: "reads h i (Line l # es) j"
inductive_cases reads_LostE: "reads h i (Lost # es) j"
inductive_simps reads_Nil [simp]: "reads h i [] j"

definition entry_text :: "ring_entry \<Rightarrow> string" where
  "entry_text e = (case e of Line l \<Rightarrow> l | Lost \<Rightarrow> ''[log entries lost]'' | Empty \<Rightarrow> [])"

lemma reads_le: "reads h i es j \<Longrightarrow> i \<le> j"
  by (induction rule: reads.induct) auto

text \<open>Without a gap, the lines read are exactly the slice of the history.\<close>

lemma reads_no_loss:
  "reads h i es j \<Longrightarrow> Lost \<notin> set es \<Longrightarrow> j \<le> length h \<Longrightarrow> map entry_text es = take (j - i) (drop i h)"
proof (induction rule: reads.induct)
  case (reads_line i es j)
  have "Suc i \<le> j" using reads_line by (blast dest: reads_le)
  then have "j - i = Suc (j - Suc i)" by simp
  with reads_line show ?case
    by (simp add: entry_text_def Cons_nth_drop_Suc [symmetric])
qed (auto simp: entry_text_def)

locale log_buffer =
  fixes rep :: "'q \<Rightarrow> string list \<Rightarrow> bool"
    and cap :: "'q \<Rightarrow> nat"
    and push :: "'q \<Rightarrow> string \<Rightarrow> 'q"
    and get :: "'q \<Rightarrow> u64 \<Rightarrow> panic + (ring_entry \<times> u64)"
  assumes rep_push: "rep q h \<Longrightarrow> Suc (length h) < 2 ^ 64 \<Longrightarrow> rep (push q l) (h @ [l])"
    and cap_push: "cap (push q l) = cap q"
    and get_end: "rep q h \<Longrightarrow> unat r = length h \<Longrightarrow> get q r = Inr (Empty, r)"
    and get_lost: "rep q h \<Longrightarrow> unat r < length h - cap q \<Longrightarrow>
          \<exists>r'. get q r = Inr (Lost, r') \<and> unat r' = length h - cap q"
    and get_line: "rep q h \<Longrightarrow> length h - cap q \<le> unat r \<Longrightarrow> unat r < length h \<Longrightarrow>
          \<exists>r'. get q r = Inr (Line (h ! unat r), r') \<and> unat r' = Suc (unat r)"
begin

lemma get_cases:
  assumes "rep q h" "unat r \<le> length h"
  obtains (at_end) "unat r = length h" "get q r = Inr (Empty, r)"
    | (line) r' where "unat r < length h" "length h - cap q \<le> unat r"
        "get q r = Inr (Line (h ! unat r), r')" "unat r' = Suc (unat r)"
    | (lost) r' where "unat r < length h - cap q" "get q r = Inr (Lost, r')" "unat r' = length h - cap q"
proof -
  consider "unat r = length h" | "unat r < length h" "length h - cap q \<le> unat r"
    | "unat r < length h - cap q"
    using assms(2) by linarith
  then show thesis
  proof cases
    case 1
    then show ?thesis using get_end [OF assms(1)] at_end by blast
  next
    case 2
    then show ?thesis using get_line [OF assms(1)] line by blast
  next
    case 3
    then show ?thesis using get_lost [OF assms(1)] lost by blast
  qed
qed

text \<open>
  Any run of pushes and reads returns, and the reader sees the history in order, with every
  gap announced.
\<close>

lemma run_reads:
  assumes "rep q h" "unat r \<le> length h" "length h + length (pushed ops) < 2 ^ 64"
  shows "\<exists>out q' r'. reader_run push get ops q r = Inr (out, q', r') \<and> rep q' (h @ pushed ops) \<and>
           cap q' = cap q \<and> reads (h @ pushed ops) (unat r) out (unat r') \<and> unat r' \<le> length (h @ pushed ops)"
  using assms
proof (induction ops arbitrary: q h r)
  case Nil
  then show ?case by simp
next
  case (Cons op ops)
  show ?case
  proof (cases op)
    case (Push l)
    then have "rep (push q l) (h @ [l])" using Cons.prems by (intro rep_push) auto
    with Push Cons.prems Cons.IH [of "push q l" "h @ [l]" r] show ?thesis by (auto simp: cap_push)
  next
    case Read
    let ?h = "h @ pushed ops"
    from Cons.prems(1,2) show ?thesis
    proof (cases rule: get_cases)
      case at_end
      with Read Cons.prems Cons.IH [of q h r] show ?thesis by auto
    next
      case (line r')
      with Read Cons.prems Cons.IH [of q h r'] obtain out q' r'' where
        "reader_run push get ops q r' = Inr (out, q', r'')" "rep q' ?h" "cap q' = cap q"
        "reads ?h (Suc (unat r)) out (unat r'')" "unat r'' \<le> length ?h" by auto
      moreover have "?h ! unat r = h ! unat r" using line(1) by (simp add: nth_append)
      ultimately show ?thesis
        using Read line reads_line [of "unat r" ?h out] by auto
    next
      case (lost r')
      with Read Cons.prems Cons.IH [of q h r'] obtain out q' r'' where
        "reader_run push get ops q r' = Inr (out, q', r'')" "rep q' ?h" "cap q' = cap q"
        "reads ?h (unat r') out (unat r'')" "unat r'' \<le> length ?h" by auto
      then show ?thesis
        using Read lost reads_lost [of "unat r" "unat r'" ?h out] by auto
    qed
  qed
qed

text \<open>Reading often enough after the last push reaches the end.\<close>

lemma run_reads_to_end:
  assumes "rep q h" "unat r \<le> length h" "length h < 2 ^ 64" "length h - unat r < n"
  shows "\<exists>out r'. reader_run push get (replicate n Read) q r = Inr (out, q, r') \<and> unat r' = length h"
  using assms
proof (induction n arbitrary: r)
  case 0
  then show ?case by simp
next
  case (Suc n)
  from Suc.prems(1,2) show ?case
  proof (cases rule: get_cases)
    case at_end
    have "\<exists>out. reader_run push get (replicate n Read) q r = Inr (out, q, r)" for n
      by (induction n) (auto simp: at_end)
    then show ?thesis using at_end(1) by blast
  next
    case (line r')
    then have "length h - unat r' < n" using Suc.prems(4) by linarith
    with line Suc.prems obtain out r'' where
      "reader_run push get (replicate n Read) q r' = Inr (out, q, r'')" "unat r'' = length h"
      using Suc.IH [of r'] by auto
    with line show ?thesis by auto
  next
    case (lost r')
    then have "length h - unat r' < n" using Suc.prems(4) by linarith
    with lost Suc.prems obtain out r'' where
      "reader_run push get (replicate n Read) q r' = Inr (out, q, r'')" "unat r'' = length h"
      using Suc.IH [of r'] by auto
    with lost show ?thesis by auto
  qed
qed

end

interpretation rb: log_buffer rb_rep "\<lambda>q. unat (capacity q)" rb_push rb_get
  by unfold_locales (auto simp: rb_rep_push rb_get_end rb_get_lost rb_get_line)

text \<open>
  C11: a log reader that starts at index 0 never panics and sees, whatever the interleaving
  of pushes and reads and whatever the capacity, the pushed lines in order, each gap where
  lines were evicted announced by one loss marker; the buffer keeps exactly the last
  \<open>capacity\<close> lines.
\<close>

theorem reader_sees_history:
  assumes "0 < unat cap" "length (pushed ops) < 2 ^ 64"
  shows "\<exists>out q r. reader_run rb_push rb_get ops (rb_new cap) 0 = Inr (out, q, r) \<and>
           reads (pushed ops) 0 out (unat r) \<and>
           entries q = drop (length (pushed ops) - unat cap) (pushed ops)"
proof -
  obtain out q r where run: "reader_run rb_push rb_get ops (rb_new cap) 0 = Inr (out, q, r)"
    and rep: "rb_rep q (pushed ops)" and reads: "reads (pushed ops) 0 out (unat r)"
    and cap: "unat (capacity q) = unat cap"
    using rb.run_reads [OF rb_rep_new, of cap 0 ops] assms by (auto simp: rb_new_def)
  then show ?thesis by (auto simp: rb_rep_def)
qed

section \<open>The log store\<close>

text \<open>
  \<open>Logs\<close> holds the shared queue and the handle of the one writer task. \<open>new_writer\<close> makes
  the pipe (its result is the argument), aborts the previous writer and starts a new one
  (the handle is the argument).
\<close>

record logs =
  queue :: ring_buffer
  abort_handle :: "nat option"

definition logs_new :: "usize \<Rightarrow> logs" where
  "logs_new cap = \<lparr>queue = rb_new cap, abort_handle = None\<rparr>"

definition logs_new_writer :: "io_error + fd \<Rightarrow> nat \<Rightarrow> logs \<Rightarrow> io_error + (fd \<times> nat list \<times> logs)" where
  "logs_new_writer pipe task l =
     and_then pipe (\<lambda>tx.
       let aborted = (case abort_handle l of Some h \<Rightarrow> [h] | None \<Rightarrow> []) in
       Inr (tx, aborted, l\<lparr>abort_handle := Some task\<rparr>))"

definition copy_logs :: "logs \<Rightarrow> string list" where
  "copy_logs l = entries (queue l)"

definition push_log :: "logs \<Rightarrow> string \<Rightarrow> logs" where
  "push_log l line = l\<lparr>queue := rb_push (queue l) line\<rparr>"

section \<open>Sanitizing\<close>

definition is_filtered_control :: "nat \<Rightarrow> bool" where
  "is_filtered_control ch \<longleftrightarrow> is_control ch \<and> ch \<noteq> 0x0A \<and> ch \<noteq> 0x09"

definition sanitize_char :: "nat \<Rightarrow> nat" where
  "sanitize_char ch =
     (if \<not> is_filtered_control ch then ch
      else if ch < 0x20 then ch + 0x2400
      else 0x2370)"

definition sanitize :: "string \<Rightarrow> string" where
  "sanitize bytes =
     (let line = (if valid_utf8 bytes then bytes else encode_chars (decode_lossy bytes)) in
      if \<not> list_ex is_filtered_control (chars line) then line
      else encode_chars (map sanitize_char (chars line)))"

text \<open>The writer task: every segment of the pipe is sanitized and pushed, then the closing line.\<close>

definition writer_task :: "string list \<Rightarrow> ring_buffer \<Rightarrow> ring_buffer" where
  "writer_task segments q =
     rb_push (fold (\<lambda>line q. rb_push q (sanitize line)) segments q) ''[log stream closed]''"

lemma sanitize_char_scalar: "is_scalar c \<Longrightarrow> is_scalar (sanitize_char c)"
  by (auto simp: sanitize_char_def is_scalar_def)

lemma sanitize_char_id: "\<not> is_filtered_control c \<Longrightarrow> sanitize_char c = c"
  by (simp add: sanitize_char_def)

lemma sanitize_char_clean: "\<not> is_filtered_control (sanitize_char c)"
  by (auto simp: sanitize_char_def is_filtered_control_def is_control_def)

lemma map_sanitize_scalars: "list_all is_scalar cs \<Longrightarrow> list_all is_scalar (map sanitize_char cs)"
  by (auto simp: list_all_iff sanitize_char_scalar)

text \<open>The fast path, which returns the input unchanged, agrees with replacing every character.\<close>

lemma sanitize_eq: "sanitize bytes = encode_chars (map sanitize_char (decode_lossy bytes))"
proof -
  define line where "line = (if valid_utf8 bytes then bytes else encode_chars (decode_lossy bytes))"
  have line: "line = encode_chars (decode_lossy bytes)"
    by (simp add: line_def encode_decode)
  then have chars: "chars line = decode_lossy bytes"
    by (simp add: decode_encode decode_scalars)
  show ?thesis
  proof (cases "list_ex is_filtered_control (decode_lossy bytes)")
    case True
    then show ?thesis by (simp add: sanitize_def chars flip: line_def)
  next
    case False
    then have "map sanitize_char (decode_lossy bytes) = decode_lossy bytes"
      by (intro map_idI) (auto simp: list_ex_iff sanitize_char_id)
    with False show ?thesis by (simp add: sanitize_def chars flip: line_def) (simp add: line)
  qed
qed

lemma decode_sanitize: "chars (sanitize bytes) = map sanitize_char (decode_lossy bytes)"
  by (simp add: sanitize_eq decode_encode map_sanitize_scalars decode_scalars)

lemma valid_sanitize: "valid_utf8 (sanitize bytes)"
  by (simp add: sanitize_eq valid_encode map_sanitize_scalars decode_scalars)


text \<open>\<open>reader_sees_history\<close> at a capacity of two lines, with a reader that lost one.\<close>

theorem reader_sees_history_witness:
  "\<exists>out q r. reader_run rb_push rb_get [Push ''a'', Push ''b'', Push ''c'', Read, Read] (rb_new 2) 0 = Inr (out, q, r) \<and>
     reads [''a'', ''b'', ''c''] 0 out (unat r) \<and> entries q = [''b'', ''c'']"
  using reader_sees_history [of 2 "[Push ''a'', Push ''b'', Push ''c'', Read, Read]"] by simp

end
