(* ===== verification/Services.thy ===== *)
theory Services
  imports Child Publisher Logs
begin

text \<open>
  \<open>beam-init/src/services.rs\<close>: the service manager. Every operation of \<open>ServiceManager\<close>
  is a function from the manager's state to a panic, or to its result and the new state.

  The kernel and the runtime are the record \<open>os\<close> of oracles, indexed by the clock of the
  \<open>world\<close>, which counts the calls made so far and gives tasks and termination tokens their
  identity. \<open>procs\<close> are the children the manager spawned and has not reaped: the kernel
  knows them, so the oracles for \<open>kill\<close> and \<open>spawn\<close> receive them. What an operation does to
  processes and tasks is appended to the trace.

  A call that never returns (a spawn whose child dies before it wrote its pid) is treated
  like a panic: it is the left side of the result.
\<close>

section \<open>Types\<close>

definition BOOTSTRAP_NAME :: string where
  "BOOTSTRAP_NAME = ''bootstrap''"

datatype start_reason = User | Automatic

datatype after_stop = Stop | PruneAfter | Restart start_reason

fun is_restart :: "after_stop \<Rightarrow> bool" where
  "is_restart (Restart _) = True"
| "is_restart Stop = False"
| "is_restart PruneAfter = False"

fun merge :: "after_stop \<Rightarrow> after_stop \<Rightarrow> after_stop" where
  "merge PruneAfter requested = PruneAfter"
| "merge cur PruneAfter = PruneAfter"
| "merge cur (Restart Automatic) = cur"
| "merge cur requested = requested"

record service_process =
  main_pid :: pid_t
  monitor_tx :: "monitor_sender option"

type_synonym token = nat

record pending_kill =
  kill_token :: token
  kill_task :: nat

datatype service_status =
    Stopped
  | Running service_process "pty option"
  | Frozen service_process "pty option"
  | Stopping service_process after_stop "pending_kill option"
  | Exited raw_status
  | Error io_error
  | Dummy

record service_state =
  status :: service_status
  logs :: logs
  automatic_restart_attempts :: u32
  liveness_probe :: "nat option"
  publisher :: publisher

record service =
  config :: service_config
  state :: service_state

datatype service_error =
    NoPty string
  | ServiceNotFound string
  | ServiceExists string
  | SpawnFailed string string
  | InvalidCredentials
  | InvalidRequest string
  | BuildEnvironment string
  | BootstrapIsProtected
  | ServicePrunedWhileWaiting
  | ObservationLagged nat
  | ShuttingDown
  | TooManyOpenFiles

text \<open>The HTTP status and text of an error response.\<close>

fun error_response :: "service_error \<Rightarrow> nat \<times> string" where
  "error_response (NoPty name) = (404, ''Service '' @ name @ '' has no PTY'')"
| "error_response (ServiceNotFound name) = (404, ''Service '' @ name @ '' was not found'')"
| "error_response (ServiceExists name) = (409, ''Service named `'' @ name @ ''` already exists'')"
| "error_response (SpawnFailed c err) = (400, ''Failed to spawn '' @ c @ '': '' @ err)"
| "error_response InvalidCredentials = (401, ''Service owned by a different user'')"
| "error_response (InvalidRequest err) = (400, err)"
| "error_response (BuildEnvironment err) = (500, err)"
| "error_response BootstrapIsProtected =
     (403, ''The '' @ [CHR 0x22] @ ''bootstrap'' @ [CHR 0x22] @ '' service cannot be modified'')"
| "error_response ServicePrunedWhileWaiting = (410, ''Service was pruned before condition was met'')"
| "error_response (ObservationLagged skipped) =
     (409, ''Unable to determine if requested state occurred: missed '' @ show_nat skipped @ '' service status updates'')"
| "error_response ShuttingDown = (503, ''beam-init is shutting down'')"
| "error_response TooManyOpenFiles = (500, ''Too many open files'')"

section \<open>The world\<close>

datatype effect =
    Kill pid_t c_int
  | MonitorSent monitor_sender monitor_command
  | Spawned pid_t
  | TaskAborted nat
  | ProbeTask nat string probe
  | KillTimer nat u32 string token
  | WriterTask nat
  | LogTask string string

record world =
  clock :: nat
  procs :: "pid_t list"
  trace :: "effect list"

record os =
  os_kill :: "nat \<Rightarrow> pid_t list \<Rightarrow> pid_t \<Rightarrow> c_int \<Rightarrow> libc_result"
  os_monitor_write :: "nat \<Rightarrow> io_error + unit"
  os_monitor_read :: "nat \<Rightarrow> io_error + unit"
  os_pty :: "nat \<Rightarrow> panic + (io_error + pty)"
  os_pipe :: "nat \<Rightarrow> io_error + fd"
  os_spawn :: "nat \<Rightarrow> pid_t list \<Rightarrow> spawn_os"
  os_dup :: "nat \<Rightarrow> io_error + fd"

definition emit :: "effect list \<Rightarrow> world \<Rightarrow> world" where
  "emit es w = w\<lparr>clock := clock w + 2, trace := trace w @ es\<rparr>"

record manager =
  services :: "(string, service) btree"
  user_env_files :: "string list"
  log_retention_lines :: usize
  shutdown :: bool
  world :: world

definition put :: "string \<Rightarrow> service \<Rightarrow> manager \<Rightarrow> manager" where
  "put name s m = m\<lparr>services := bt_insert name s (services m)\<rparr>"

definition with_world :: "world \<Rightarrow> manager \<Rightarrow> manager" where
  "with_world w m = m\<lparr>world := w\<rparr>"

type_synonym 'a outcome = "panic + ((service_error + 'a) \<times> manager)"

section \<open>Conversion of a status for the API\<close>

definition api_of_status :: "service_status \<Rightarrow> panic + api_status" where
  "api_of_status st =
     (case st of
        Stopped \<Rightarrow> Inr ApiStopped
      | Running process pty \<Rightarrow> Inr (ApiRunning (main_pid process) (map_option pty_path pty))
      | Frozen process pty \<Rightarrow> Inr (ApiFrozen (main_pid process) (map_option pty_path pty))
      | Stopping process after pending \<Rightarrow>
          Inr (ApiStopping (main_pid process) (after = PruneAfter) (is_restart after))
      | Exited exit_status \<Rightarrow> and_then (exit_status_from exit_status) (\<lambda>e. Inr (ApiExited e))
      | Error err \<Rightarrow> Inr (ApiError (io_msg err))
      | Dummy \<Rightarrow> Inl ''unreachable'')"

definition api_of_service :: "service \<Rightarrow> panic + api_service" where
  "api_of_service s =
     and_then (api_of_status (status (state s))) (\<lambda>st. Inr
       \<lparr>svc_cmd = cmd (config s), svc_args = args (config s), svc_status = st,
        svc_automatic_restart_attempts = automatic_restart_attempts (state s),
        svc_labels = labels (config s)\<rparr>)"

section \<open>Operations of one service\<close>

definition check_credentials :: "service \<Rightarrow> credentials \<Rightarrow> service_error + unit" where
  "check_credentials s c =
     (if uid c \<noteq> 0 \<and> uid c \<noteq> uid (creds (config s)) then Inl InvalidCredentials else Inr ())"

definition set_status :: "service_status \<Rightarrow> service \<Rightarrow> panic + service" where
  "set_status st s =
     and_then (api_of_status st) (\<lambda>api. Inr
       (s\<lparr>state := (state s)\<lparr>publisher := publish api (publisher (state s)), status := st\<rparr>\<rparr>))"

text \<open>\<open>mem::replace(&mut service.state.status, ServiceStatus::Dummy)\<close>: no publication.\<close>

definition replace_dummy :: "service \<Rightarrow> service" where
  "replace_dummy s = s\<lparr>state := (state s)\<lparr>status := Dummy\<rparr>\<rparr>"

definition abort_liveness_probe :: "service \<times> world \<Rightarrow> service \<times> world" where
  "abort_liveness_probe sw =
     (case sw of (s, w) \<Rightarrow>
       (case liveness_probe (state s) of
          Some h \<Rightarrow> (s\<lparr>state := (state s)\<lparr>liveness_probe := None\<rparr>\<rparr>, emit [TaskAborted h] w)
        | None \<Rightarrow> (s, w)))"

definition spawn_liveness_probe :: "string \<Rightarrow> service \<times> world \<Rightarrow> service \<times> world" where
  "spawn_liveness_probe name sw =
     (case sw of (s, w) \<Rightarrow>
       (case liveness (config s) of
          None \<Rightarrow> (s, w)
        | Some p \<Rightarrow>
            (s\<lparr>state := (state s)\<lparr>liveness_probe := Some (clock w)\<rparr>\<rparr>,
             emit [ProbeTask (clock w) name p] w)))"

fun validate_env :: "env_map \<Rightarrow> service_error + unit" where
  "validate_env [] = Inr ()"
| "validate_env ((k, v) # vars) =
     (if k = [] then Inl (InvalidRequest ''environment keys may not be empty'')
      else if CHR ''='' \<in> set k then
        Inl (InvalidRequest (''environment keys may not contain '' @ [CHR 0x27] @ ''='' @ [CHR 0x27]))
      else if CHR 0x00 \<in> set k \<or> CHR 0x00 \<in> set v then
        Inl (InvalidRequest ''environment key/value may not contain NUL'')
      else validate_env vars)"

definition validate :: "service_config \<Rightarrow> service_error + unit" where
  "validate c = validate_env (env c)"

text \<open>\<open>MonitorCommandSender::send\<close> with its \<open>expect\<close>, and \<open>ServiceProcess::send_signal\<close>.\<close>

definition send_monitor :: "os \<Rightarrow> monitor_sender \<Rightarrow> monitor_command \<Rightarrow> world \<Rightarrow> panic + world" where
  "send_monitor os ch c w =
     and_then (monitor_send (os_monitor_write os (clock w)) (os_monitor_read os (clock w)) c) (\<lambda>r.
       case r of
         Inl e \<Rightarrow> Inl ''failed to send command on monitor pipe''
       | Inr _ \<Rightarrow> Inr (emit [MonitorSent ch c] w))"

definition process_send_signal :: "os \<Rightarrow> c_int \<Rightarrow> service_process \<Rightarrow> world \<Rightarrow> panic + world" where
  "process_send_signal os signal process w =
     (case monitor_tx process of
        Some ch \<Rightarrow> send_monitor os ch (MonSignal signal) w
      | None \<Rightarrow>
          and_then (kill_process_group (\<lambda>k. os_kill os k (procs w)) (clock w) (main_pid process) signal)
            (\<lambda>(targets, r). case r of
                Inl e \<Rightarrow> Inl ''process to exist''
              | Inr _ \<Rightarrow> Inr (emit (map (\<lambda>t. Kill t signal) targets) w)))"

section \<open>Looking up a service\<close>

definition new_manager :: "string list \<Rightarrow> usize \<Rightarrow> manager" where
  "new_manager env_files retention =
     \<lparr>services = bt_empty, user_env_files = env_files, log_retention_lines = retention, shutdown = False,
      world = \<lparr>clock = 0, procs = [], trace = []\<rparr>\<rparr>"

definition get_service :: "manager \<Rightarrow> credentials \<Rightarrow> string \<Rightarrow> service_error + service" where
  "get_service m c name =
     (case bt_get (services m) name of
        None \<Rightarrow> Inl (ServiceNotFound name)
      | Some s \<Rightarrow> and_then (check_credentials s c) (\<lambda>_. Inr s))"

definition get_service_mut :: "manager \<Rightarrow> credentials \<Rightarrow> string \<Rightarrow> service_error + service" where
  "get_service_mut m c name =
     (if name = BOOTSTRAP_NAME then Inl BootstrapIsProtected
      else case bt_get (services m) name of
          None \<Rightarrow> Inl (ServiceNotFound name)
        | Some s \<Rightarrow> and_then (check_credentials s c) (\<lambda>_. Inr s))"

text \<open>\<open>?\<close> on a service error inside an operation: it returns the error and leaves the state.\<close>

definition or_error :: "manager \<Rightarrow> service_error + 'a \<Rightarrow> ('a \<Rightarrow> 'b outcome) \<Rightarrow> 'b outcome" where
  "or_error m r f = (case r of Inl e \<Rightarrow> Inr (Inl e, m) | Inr x \<Rightarrow> f x)"

lemma or_error_simps [simp]:
  "or_error m (Inl e) f = Inr (Inl e, m)"
  "or_error m (Inr x) f = f x"
  by (simp_all add: or_error_def)

section \<open>Creating a service\<close>

definition new_service :: "service_config \<Rightarrow> usize \<Rightarrow> service" where
  "new_service c retention =
     \<lparr>config = c,
      state = \<lparr>status = Stopped, logs = logs_new retention, automatic_restart_attempts = 0,
               liveness_probe = None, publisher = publisher_new ApiStopped\<rparr>\<rparr>"

definition create_service :: "string \<Rightarrow> service_config \<Rightarrow> manager \<Rightarrow> unit outcome" where
  "create_service name c m =
     (if shutdown m then Inr (Inl ShuttingDown, m)
      else if name = [] then Inr (Inl (InvalidRequest ''Service name may not be empty''), m)
      else if 255 < length name then
        Inr (Inl (InvalidRequest ''Service name may not be longer than 255 bytes''), m)
      else or_error m (validate c) (\<lambda>_.
        case bt_get (services m) name of
          Some _ \<Rightarrow> Inr (Inl (ServiceExists name), m)
        | None \<Rightarrow> Inr (Inr (), put name (new_service c (log_retention_lines m)) m)))"

section \<open>Starting a service\<close>

definition saturating_incr :: "u32 \<Rightarrow> u32" where
  "saturating_incr n = (if n = -1 then n else n + 1)"

definition attempts_after :: "start_reason \<Rightarrow> u32 \<Rightarrow> u32" where
  "attempts_after reason n = (case reason of User \<Rightarrow> 0 | Automatic \<Rightarrow> saturating_incr n)"

text \<open>\<open>Logs::new_writer\<close> on the service's log, with the tasks it aborts and starts.\<close>

definition new_log_writer :: "os \<Rightarrow> service \<times> world \<Rightarrow> panic + (fd \<times> service \<times> world)" where
  "new_log_writer os sw =
     (case sw of (s, w) \<Rightarrow>
       (case logs_new_writer (os_pipe os (clock w)) (clock w) (logs (state s)) of
          Inl e \<Rightarrow> Inl ''failed to create log writer''
        | Inr (tx, aborted, l) \<Rightarrow>
            Inr (tx, s\<lparr>state := (state s)\<lparr>logs := l\<rparr>\<rparr>,
                 emit (map TaskAborted aborted @ [WriterTask (clock w)]) w)))"

text \<open>The part of \<open>start_service\<close> up to the sink: the terminal, if the service has one.\<close>

definition open_pty :: "os \<Rightarrow> service \<times> world \<Rightarrow> panic + ((io_error + pty option) \<times> world)" where
  "open_pty os sw =
     (case sw of (s, w) \<Rightarrow>
       if pty_flag (config s)
       then and_then (os_pty os (clock w)) (\<lambda>r. Inr (and_then r (\<lambda>p. Inr (Some p)), emit [] w))
       else Inr (Inr None, w))"

definition make_sink :: "os \<Rightarrow> string \<Rightarrow> pty option \<Rightarrow> service \<times> world \<Rightarrow> panic + (sink \<times> service \<times> world)" where
  "make_sink os name terminal sw =
     (case terminal of
        Some p \<Rightarrow> (case sw of (s, w) \<Rightarrow>
          Inr (PtySink (pty_master p), s,
               emit [LogTask name (''[process connected to pty: '' @ path_display (pty_path p) @ '']'')] w))
      | None \<Rightarrow> and_then (new_log_writer os sw) (\<lambda>(tx, s, w). Inr (LogSink tx, s, w)))"

text \<open>\<open>spawn_service\<close> in the world: a new child is in the process table.\<close>

definition world_spawn ::
    "os \<Rightarrow> service_config \<Rightarrow> sink \<Rightarrow> world \<Rightarrow> panic + ((io_error + (pid_t \<times> monitor_sender option)) \<times> world)" where
  "world_spawn os c snk w =
     (case spawn_service (os_spawn os (clock w) (procs w)) c snk of
        None \<Rightarrow> Inl ''spawn_service does not return''
      | Some (Inl e) \<Rightarrow> Inr (Inl e, emit [] w)
      | Some (Inr (pid, mon)) \<Rightarrow>
          Inr (Inr (pid, mon), (emit [Spawned pid] w)\<lparr>procs := procs w @ [pid]\<rparr>))"

definition start_failed :: "string \<Rightarrow> io_error \<Rightarrow> service \<Rightarrow> world \<Rightarrow> manager \<Rightarrow> unit outcome" where
  "start_failed name err s w m =
     and_then (set_status (Error err) s) (\<lambda>s.
       Inr (Inl (SpawnFailed (cmd (config s)) (io_msg err)), put name s (with_world w m)))"

definition start_service :: "os \<Rightarrow> credentials \<Rightarrow> string \<Rightarrow> start_reason \<Rightarrow> manager \<Rightarrow> unit outcome" where
  "start_service os c name reason m =
     (if shutdown m then Inr (Inl ShuttingDown, m)
      else case bt_get (services m) name of
          None \<Rightarrow> Inr (Inl (ServiceNotFound name), m)
        | Some s \<Rightarrow>
          or_error m (check_credentials s c) (\<lambda>_.
            let s = s\<lparr>state := (state s)\<lparr>automatic_restart_attempts :=
                  attempts_after reason (automatic_restart_attempts (state s))\<rparr>\<rparr> in
            and_then (open_pty os (s, world m)) (\<lambda>(r, w).
            case r of
              Inl err \<Rightarrow> start_failed name err s w m
            | Inr terminal \<Rightarrow>
                and_then (make_sink os name terminal (s, w)) (\<lambda>(snk, s, w).
                and_then (world_spawn os (config s) snk w) (\<lambda>(r, w).
                case r of
                  Inl err \<Rightarrow> start_failed name err s w m
                | Inr (child_pid, mon) \<Rightarrow>
                    and_then (set_status (Running \<lparr>main_pid = child_pid, monitor_tx = mon\<rparr> terminal) s) (\<lambda>s.
                      case spawn_liveness_probe name (s, w) of
                        (s, w) \<Rightarrow> Inr (Inr (), put name s (with_world w m))))))))"

section \<open>Freezing and thawing\<close>

definition store :: "string \<Rightarrow> 'a \<Rightarrow> manager \<Rightarrow> panic + (service \<times> world) \<Rightarrow> 'a outcome" where
  "store name x m r = and_then r (\<lambda>(s, w). Inr (Inr x, put name s (with_world w m)))"

definition freeze_running ::
    "os \<Rightarrow> service_process \<Rightarrow> pty option \<Rightarrow> service \<times> world \<Rightarrow> panic + (service \<times> world)" where
  "freeze_running os process terminal sw =
     (case abort_liveness_probe sw of (s, w) \<Rightarrow>
       and_then (process_send_signal os SIGSTOP process w) (\<lambda>w.
       and_then (set_status (Frozen process terminal) s) (\<lambda>s. Inr (s, w))))"

definition thaw_frozen ::
    "os \<Rightarrow> string \<Rightarrow> service_process \<Rightarrow> pty option \<Rightarrow> service \<times> world \<Rightarrow> panic + (service \<times> world)" where
  "thaw_frozen os name process terminal sw =
     (case sw of (s, w) \<Rightarrow>
       and_then (process_send_signal os SIGCONT process w) (\<lambda>w.
       and_then (set_status (Running process terminal) s) (\<lambda>s.
         Inr (spawn_liveness_probe name (s, w)))))"

definition keep_status :: "service_status \<Rightarrow> service \<times> world \<Rightarrow> panic + (service \<times> world)" where
  "keep_status st sw = (case sw of (s, w) \<Rightarrow> and_then (set_status st s) (\<lambda>s. Inr (s, w)))"

definition freeze_service :: "os \<Rightarrow> credentials \<Rightarrow> string \<Rightarrow> manager \<Rightarrow> unit outcome" where
  "freeze_service os c name m =
     or_error m (get_service_mut m c name) (\<lambda>s.
       store name () m
        (case status (state s) of
           Running process terminal \<Rightarrow> freeze_running os process terminal (replace_dummy s, world m)
         | Dummy \<Rightarrow> Inl ''unreachable''
         | st \<Rightarrow> keep_status st (replace_dummy s, world m)))"

definition thaw_service :: "os \<Rightarrow> credentials \<Rightarrow> string \<Rightarrow> manager \<Rightarrow> unit outcome" where
  "thaw_service os c name m =
     or_error m (get_service_mut m c name) (\<lambda>s.
       store name () m
        (case status (state s) of
           Frozen process terminal \<Rightarrow> thaw_frozen os name process terminal (replace_dummy s, world m)
         | Dummy \<Rightarrow> Inl ''unreachable''
         | st \<Rightarrow> keep_status st (replace_dummy s, world m)))"

section \<open>Terminating a service\<close>

text \<open>
  SIGTERM to a running service: with a grace period the kill timer is a new task holding a
  fresh token; without one SIGKILL follows at once.
\<close>

definition terminate_running ::
    "os \<Rightarrow> string \<Rightarrow> after_stop \<Rightarrow> service_process \<Rightarrow> service \<times> world \<Rightarrow> panic + (service \<times> world)" where
  "terminate_running os name requested process sw =
     (case abort_liveness_probe sw of (s, w) \<Rightarrow>
       and_then (process_send_signal os SIGTERM process w) (\<lambda>w.
         let p = graceful_termination_period (config s) in
         if p = 0 then
           and_then (process_send_signal os SIGKILL process w) (\<lambda>w.
           and_then (set_status (Stopping process requested None) s) (\<lambda>s. Inr (s, w)))
         else
           (let t = clock w; w = emit [KillTimer t p name t] w in
            and_then (set_status (Stopping process requested (Some \<lparr>kill_token = t, kill_task = t\<rparr>)) s)
              (\<lambda>s. Inr (s, w)))))"

definition terminate_frozen ::
    "os \<Rightarrow> after_stop \<Rightarrow> service_process \<Rightarrow> service \<times> world \<Rightarrow> panic + (service \<times> world)" where
  "terminate_frozen os requested process sw =
     (case sw of (s, w) \<Rightarrow>
       and_then (process_send_signal os SIGKILL process w) (\<lambda>w.
       and_then (set_status (Stopping process requested None) s) (\<lambda>s. Inr (s, w))))"

definition terminate_service_inner :: "os \<Rightarrow> credentials \<Rightarrow> string \<Rightarrow> after_stop \<Rightarrow> manager \<Rightarrow> unit outcome" where
  "terminate_service_inner os c name requested m =
     (case bt_get (services m) name of
        None \<Rightarrow> Inr (Inl (ServiceNotFound name), m)
      | Some s0 \<Rightarrow>
          (let s = replace_dummy s0 in
           case status (state s0) of
             Stopping process after pending \<Rightarrow>
               store name () m (keep_status (Stopping process (merge after requested) pending) (s, world m))
           | Frozen process terminal \<Rightarrow>
               store name () m (terminate_frozen os requested process (s, world m))
           | Running process terminal \<Rightarrow>
               store name () m (terminate_running os name requested process (s, world m))
           | Dummy \<Rightarrow> Inl ''unreachable''
           | st \<Rightarrow>
               (case requested of
                  Stop \<Rightarrow> store name () m (keep_status st (s, world m))
                | PruneAfter \<Rightarrow> Inr (Inr (), m\<lparr>services := bt_remove name (services m)\<rparr>)
                | Restart reason \<Rightarrow> start_service os c name reason (put name s m))))"

definition terminate_service :: "os \<Rightarrow> credentials \<Rightarrow> string \<Rightarrow> after_stop \<Rightarrow> manager \<Rightarrow> unit outcome" where
  "terminate_service os c name intent m =
     or_error m (get_service_mut m c name) (\<lambda>_.
       if shutdown m \<and> is_restart intent then Inr (Inl ShuttingDown, m)
       else terminate_service_inner os c name intent m)"

definition force_kill_service :: "os \<Rightarrow> string \<Rightarrow> token \<Rightarrow> manager \<Rightarrow> panic + manager" where
  "force_kill_service os name tok m =
     (case bt_get (services m) name of
        None \<Rightarrow> Inr m
      | Some s \<Rightarrow>
          (case status (state s) of
             Stopping process after (Some kill) \<Rightarrow>
               if kill_token kill = tok
               then and_then (process_send_signal os SIGKILL process (world m)) (\<lambda>w. Inr (with_world w m))
               else Inr m
           | _ \<Rightarrow> Inr m))"

section \<open>Queries, terminals and signals\<close>

definition list_services :: "manager \<Rightarrow> credentials \<Rightarrow> (string \<times> service_status) list" where
  "list_services m c =
     map (\<lambda>(name, s). (name, status (state s)))
       (filter (\<lambda>(name, s). isOk (check_credentials s c)) (services m))"

definition get_pty :: "os \<Rightarrow> credentials \<Rightarrow> string \<Rightarrow> manager \<Rightarrow> fd outcome" where
  "get_pty os c name m =
     or_error m (get_service m c name) (\<lambda>s.
       let of_pty = (\<lambda>terminal. case terminal of
             None \<Rightarrow> Inr (Inl (NoPty name), m)
           | Some p \<Rightarrow>
               (case os_dup os (clock (world m)) of
                  Inr f \<Rightarrow> Inr (Inr f, with_world (emit [] (world m)) m)
                | Inl err \<Rightarrow>
                    if raw_os_error err = Some EMFILE
                    then Inr (Inl TooManyOpenFiles, with_world (emit [] (world m)) m)
                    else Inl ''Failed to dup PTY fd'')) in
       case status (state s) of
         Running process terminal \<Rightarrow> of_pty terminal
       | Frozen process terminal \<Rightarrow> of_pty terminal
       | Dummy \<Rightarrow> Inl ''unreachable''
       | _ \<Rightarrow> Inr (Inl (NoPty name), m))"

definition notify_pty :: "monitor_command \<Rightarrow> os \<Rightarrow> credentials \<Rightarrow> string \<Rightarrow> manager \<Rightarrow> unit outcome" where
  "notify_pty command os c name m =
     or_error m (get_service_mut m c name) (\<lambda>s.
       let notify = (\<lambda>process. case monitor_tx process of
             None \<Rightarrow> Inr (Inr (), m)
           | Some ch \<Rightarrow> and_then (send_monitor os ch command (world m)) (\<lambda>w. Inr (Inr (), with_world w m))) in
       case status (state s) of
         Running process terminal \<Rightarrow> notify process
       | Frozen process terminal \<Rightarrow> notify process
       | Dummy \<Rightarrow> Inl ''unreachable''
       | _ \<Rightarrow> Inr (Inr (), m))"

definition notify_pty_attached :: "os \<Rightarrow> credentials \<Rightarrow> string \<Rightarrow> manager \<Rightarrow> unit outcome" where
  "notify_pty_attached = notify_pty Foreground"

definition notify_pty_detached :: "os \<Rightarrow> credentials \<Rightarrow> string \<Rightarrow> manager \<Rightarrow> unit outcome" where
  "notify_pty_detached = notify_pty Background"

definition send_signal :: "os \<Rightarrow> credentials \<Rightarrow> string \<Rightarrow> c_int \<Rightarrow> manager \<Rightarrow> unit outcome" where
  "send_signal os c name sig m =
     or_error m (get_service_mut m c name) (\<lambda>s.
       if sig \<le> 0 \<or> 32 \<le> sig then
         Inr (Inl (InvalidRequest (''Signal '' @ show_int sig @ '' is not valid'')), m)
       else
         (let send = (\<lambda>process.
              and_then (process_send_signal os sig process (world m)) (\<lambda>w. Inr (Inr (), with_world w m))) in
          case status (state s) of
            Running process terminal \<Rightarrow> send process
          | Frozen process terminal \<Rightarrow> send process
          | Stopping process after pending \<Rightarrow> send process
          | Dummy \<Rightarrow> Inl ''unreachable''
          | _ \<Rightarrow> Inr (Inr (), m)))"

definition service_subscribe :: "credentials \<Rightarrow> string \<Rightarrow> manager \<Rightarrow> service_error + subscription" where
  "service_subscribe c name m =
     and_then (get_service m c name) (\<lambda>s. Inr (subscribe (publisher (state s))))"

definition manager_copy_logs :: "credentials \<Rightarrow> string \<Rightarrow> manager \<Rightarrow> service_error + string list" where
  "manager_copy_logs c name m = and_then (get_service m c name) (\<lambda>s. Inr (copy_logs (logs (state s))))"

text \<open>A log reader is the queue it reads, from index 0.\<close>

definition log_reader :: "credentials \<Rightarrow> string \<Rightarrow> manager \<Rightarrow> service_error + (ring_buffer \<times> u64)" where
  "log_reader c name m = and_then (get_service m c name) (\<lambda>s. Inr (queue (logs (state s)), 0))"

section \<open>Shutdown\<close>

definition shutdown_initiated :: "manager \<Rightarrow> bool" where
  "shutdown_initiated m = shutdown m"

definition finished :: "service_status \<Rightarrow> bool" where
  "finished st \<longleftrightarrow> (case st of Stopped \<Rightarrow> True | Exited _ \<Rightarrow> True | Error _ \<Rightarrow> True | _ \<Rightarrow> False)"

definition shutdown_complete :: "manager \<Rightarrow> bool" where
  "shutdown_complete m \<longleftrightarrow>
     shutdown_initiated m \<and> list_all (\<lambda>s. finished (status (state s))) (bt_values (services m))"

fun stop_services :: "os \<Rightarrow> string list \<Rightarrow> manager \<Rightarrow> panic + manager" where
  "stop_services os [] m = Inr m"
| "stop_services os (name # names) m =
     and_then (terminate_service_inner os root name Stop m) (\<lambda>(r, m). stop_services os names m)"

definition stop_all_services :: "os \<Rightarrow> manager \<Rightarrow> panic + manager" where
  "stop_all_services os m = stop_services os (bt_keys (services m)) m"

definition begin_shutdown :: "os \<Rightarrow> manager \<Rightarrow> panic + manager" where
  "begin_shutdown os m =
     (if shutdown_initiated m then Inr m else stop_all_services os (m\<lparr>shutdown := True\<rparr>))"

section \<open>Signals to the init process\<close>

text \<open>
  The loop over the services that looks for the process \<open>pid\<close>: the first live service with
  that main process, in key order.
\<close>

fun has_process :: "pid_t \<Rightarrow> service_status \<Rightarrow> bool" where
  "has_process pid (Running process _) = (main_pid process = pid)"
| "has_process pid (Frozen process _) = (main_pid process = pid)"
| "has_process pid (Stopping process _ _) = (main_pid process = pid)"
| "has_process pid _ = False"

definition find_service :: "pid_t \<Rightarrow> manager \<Rightarrow> (string \<times> service) option" where
  "find_service pid m = List.find (\<lambda>(name, s). has_process pid (status (state s))) (services m)"

text \<open>What the loop does with the service it found.\<close>

definition process_exited :: "os \<Rightarrow> raw_status \<Rightarrow> string \<Rightarrow> service \<Rightarrow> manager \<Rightarrow> panic + manager" where
  "process_exited os st name s m =
     (case status (state s) of
        Stopping process after pending \<Rightarrow>
          (let w = (case pending of None \<Rightarrow> world m | Some k \<Rightarrow> emit [TaskAborted (kill_task k)] (world m));
               s = s\<lparr>state := (state s)\<lparr>status := Stopping process after None\<rparr>\<rparr> in
           case abort_liveness_probe (s, w) of (s, w) \<Rightarrow>
           (case after of
              Stop \<Rightarrow> and_then (set_status Stopped s) (\<lambda>s. Inr (put name s (with_world w m)))
            | PruneAfter \<Rightarrow> Inr ((with_world w m)\<lparr>services := bt_remove name (services m)\<rparr>)
            | Restart reason \<Rightarrow>
                and_then (start_service os (creds (config s)) name reason (put name s (with_world w m)))
                  (\<lambda>(r, m). Inr m)))
      | _ \<Rightarrow>
          and_then (set_status (Exited st) s) (\<lambda>s.
            case abort_liveness_probe (s, world m) of (s, w) \<Rightarrow> Inr (put name s (with_world w m))))"

definition reaped :: "pid_t \<Rightarrow> manager \<Rightarrow> manager" where
  "reaped pid m = m\<lparr>world := (world m)\<lparr>procs := filter (\<lambda>p. p \<noteq> pid) (procs (world m))\<rparr>\<rparr>"

text \<open>
  The \<open>waitpid\<close> loop over the children found in turn: a pid with its status, or an error;
  after them \<open>waitpid\<close> finds none and the loop ends.
\<close>

fun reap_children :: "os \<Rightarrow> (libc_result \<times> raw_status) list \<Rightarrow> manager \<Rightarrow> panic + manager" where
  "reap_children os [] m = Inr m"
| "reap_children os ((r, st0) # ws) m =
     (case waitpid r st0 of
        Inl err \<Rightarrow> if raw_os_error err = Some ECHILD then Inr m else Inl ''waitpid failed''
      | Inr None \<Rightarrow> Inr m
      | Inr (Some (pid, st)) \<Rightarrow>
          (let m = reaped pid m in
           and_then (case find_service pid m of
               None \<Rightarrow> Inr m
             | Some (name, s) \<Rightarrow> process_exited os st name s m)
             (reap_children os ws)))"

definition handle_signal :: "os \<Rightarrow> int \<Rightarrow> (libc_result \<times> raw_status) list \<Rightarrow> manager \<Rightarrow> panic + manager" where
  "handle_signal os signo ws m =
     and_then (if signo = SIGCHLD then reap_children os ws m else Inr m) (\<lambda>m.
       if signo = SIGTERM \<or> signo = SIGINT then begin_shutdown os m else Inr m)"

end
