(* ===== verification/Services_Inv.thy ===== *)
theory Services_Inv
  imports Services
begin

text \<open>
  The invariant of the service manager and its preservation by every operation, together
  with the absence of panics, under the documented behaviour of the kernel (\<open>os_ok\<close>).
\<close>

section \<open>The kernel's promises\<close>

text \<open>
  \<open>kill\<close> reaches a child that was not reaped, alone or through its process group, unless it
  left the group (\<open>ESRCH\<close>); a monitor pipe fails only when the monitor is gone; a new
  process gets a pid that no unreaped child has; the forked child writes its pid; duplicating
  a descriptor and creating a pipe fail at most for want of descriptors.
\<close>

definition kill_ok :: "os \<Rightarrow> bool" where
  "kill_ok os \<longleftrightarrow> (\<forall>k ps pid sig. pid \<in> set ps \<and> 1 < pid \<and> 1 \<le> sig \<and> sig \<le> 31 \<longrightarrow>
     fst (os_kill os k ps pid sig) = 0 \<and>
     (fst (os_kill os k ps (- pid) sig) = 0 \<or>
      fst (os_kill os k ps (- pid) sig) = -1 \<and> raw_os_error (snd (os_kill os k ps (- pid) sig)) = Some ESRCH))"

definition monitor_ok :: "os \<Rightarrow> bool" where
  "monitor_ok os \<longleftrightarrow>
     (\<forall>k e. os_monitor_write os k = Inl e \<longrightarrow> io_kind e = BrokenPipe) \<and>
     (\<forall>k e. os_monitor_read os k = Inl e \<longrightarrow> io_kind e = UnexpectedEof)"

definition spawn_ok :: "os \<Rightarrow> bool" where
  "spawn_ok os \<longleftrightarrow> (\<forall>k ps. sp_pid_read (os_spawn os k ps) \<noteq> None \<and>
     (\<forall>pid. sp_pid_read (os_spawn os k ps) = Some (Inr pid) \<longrightarrow> 1 < pid \<and> pid \<notin> set ps))"

definition fds_ok :: "os \<Rightarrow> bool" where
  "fds_ok os \<longleftrightarrow> (\<forall>k. isOk (os_pty os k)) \<and> (\<forall>k. isOk (os_pipe os k)) \<and>
     (\<forall>k e. os_dup os k = Inl e \<longrightarrow> raw_os_error e = Some EMFILE)"

definition os_ok :: "os \<Rightarrow> bool" where
  "os_ok os \<longleftrightarrow> kill_ok os \<and> monitor_ok os \<and> spawn_ok os \<and> fds_ok os"

text \<open>\<open>waitpid(-1, WNOHANG)\<close>: children that ended, or \<open>ECHILD\<close>.\<close>

definition waits_ok :: "(libc_result \<times> raw_status) list \<Rightarrow> bool" where
  "waits_ok ws \<longleftrightarrow> (\<forall>(r, st) \<in> set ws.
     if fst r = -1 then raw_os_error (snd r) = Some ECHILD else terminated_status st)"

section \<open>The invariant\<close>

fun process_of :: "service_status \<Rightarrow> service_process option" where
  "process_of (Running process _) = Some process"
| "process_of (Frozen process _) = Some process"
| "process_of (Stopping process _ _) = Some process"
| "process_of _ = None"

fun is_running :: "service_status \<Rightarrow> bool" where
  "is_running (Running _ _) = True"
| "is_running _ = False"

fun terminal_ok :: "bool \<Rightarrow> service_status \<Rightarrow> bool" where
  "terminal_ok flag (Running process terminal) \<longleftrightarrow> (terminal \<noteq> None \<longleftrightarrow> flag)"
| "terminal_ok flag (Frozen process terminal) \<longleftrightarrow> (terminal \<noteq> None \<longleftrightarrow> flag)"
| "terminal_ok flag _ \<longleftrightarrow> True"

fun pending_ok :: "nat \<Rightarrow> u32 \<Rightarrow> service_status \<Rightarrow> bool" where
  "pending_ok clk grace (Stopping process after (Some k)) \<longleftrightarrow> kill_token k < clk \<and> grace \<noteq> 0"
| "pending_ok clk grace _ \<longleftrightarrow> True"

definition name_ok :: "string \<Rightarrow> service_config \<Rightarrow> bool" where
  "name_ok name c \<longleftrightarrow> 0 < length name \<and> length name \<le> 255 \<and> validate c = Inr ()"

definition process_ok :: "service_config \<Rightarrow> service_status \<Rightarrow> bool" where
  "process_ok c st \<longleftrightarrow> (\<forall>p. process_of st = Some p \<longrightarrow> 1 < main_pid p \<and> (monitor_tx p \<noteq> None \<longleftrightarrow> pty_flag c))"

definition svc_ok :: "nat \<Rightarrow> string \<Rightarrow> service \<Rightarrow> bool" where
  "svc_ok clk name s \<longleftrightarrow>
     name_ok name (config s) \<and>
     api_of_status (status (state s)) = Inr (latest (publisher (state s))) \<and>
     (liveness_probe (state s) \<noteq> None \<longleftrightarrow> is_running (status (state s)) \<and> liveness (config s) \<noteq> None) \<and>
     process_ok (config s) (status (state s)) \<and>
     terminal_ok (pty_flag (config s)) (status (state s)) \<and>
     pending_ok clk (graceful_termination_period (config s)) (status (state s))"

text \<open>
  Every service but those in \<open>E\<close> is well formed, its process is a child that was not
  reaped, and no two of them have the same process.
\<close>

definition proc_in :: "pid_t list \<Rightarrow> service \<Rightarrow> bool" where
  "proc_in ps s \<longleftrightarrow> (\<forall>p. process_of (status (state s)) = Some p \<longrightarrow> main_pid p \<in> set ps)"

definition proc_apart :: "service \<Rightarrow> service \<Rightarrow> bool" where
  "proc_apart s t \<longleftrightarrow> (\<forall>p q. process_of (status (state s)) = Some p \<longrightarrow>
     process_of (status (state t)) = Some q \<longrightarrow> main_pid p \<noteq> main_pid q)"

definition inv_except :: "string set \<Rightarrow> manager \<Rightarrow> bool" where
  "inv_except E m \<longleftrightarrow> bt_inv (services m) \<and>
     (\<forall>a s. bt_get (services m) a = Some s \<longrightarrow> a \<notin> E \<longrightarrow>
        svc_ok (clock (world m)) a s \<and> proc_in (procs (world m)) s \<and>
        (\<forall>b t. bt_get (services m) b = Some t \<longrightarrow> b \<notin> E \<longrightarrow> b \<noteq> a \<longrightarrow> proc_apart s t))"

abbreviation sound :: "manager \<Rightarrow> bool" where
  "sound \<equiv> inv_except {}"

text \<open>After the shutdown began no service runs or will be restarted.\<close>

fun calm :: "service_status \<Rightarrow> bool" where
  "calm (Running _ _) = False"
| "calm (Frozen _ _) = False"
| "calm (Stopping _ after _) = (\<not> is_restart after)"
| "calm _ = True"

definition quiet :: "manager \<Rightarrow> bool" where
  "quiet m \<longleftrightarrow> (shutdown m \<longrightarrow> (\<forall>a s. bt_get (services m) a = Some s \<longrightarrow> calm (status (state s))))"

section \<open>Selectors and updates\<close>

lemma put_simps [simp]:
  "services (put name s m) = bt_insert name s (services m)"
  "world (put name s m) = world m"
  "shutdown (put name s m) = shutdown m"
  "user_env_files (put name s m) = user_env_files m"
  "log_retention_lines (put name s m) = log_retention_lines m"
  by (simp_all add: put_def)

lemma with_world_simps [simp]:
  "services (with_world w m) = services m"
  "world (with_world w m) = w"
  "shutdown (with_world w m) = shutdown m"
  "user_env_files (with_world w m) = user_env_files m"
  "log_retention_lines (with_world w m) = log_retention_lines m"
  by (simp_all add: with_world_def)

lemma emit_simps [simp]:
  "clock (emit es w) = clock w + 2" "procs (emit es w) = procs w" "trace (emit es w) = trace w @ es"
  by (simp_all add: emit_def)

lemma has_process_iff: "has_process pid st \<longleftrightarrow> (\<exists>p. process_of st = Some p \<and> main_pid p = pid)"
  by (cases st) auto

definition later :: "world \<Rightarrow> world \<Rightarrow> bool" where
  "later w w' \<longleftrightarrow> clock w \<le> clock w' \<and> procs w' = procs w"

lemma later_refl [simp]: "later w w" and later_emit [simp]: "later w (emit es w)"
  by (simp_all add: later_def)

lemma later_trans: "later a b \<Longrightarrow> later b c \<Longrightarrow> later a c"
  by (simp add: later_def)

lemma pending_ok_mono: "pending_ok k g st \<Longrightarrow> k \<le> k' \<Longrightarrow> pending_ok k' g st"
  by (induction k g st rule: pending_ok.induct) auto

lemma svc_ok_mono: "svc_ok k a s \<Longrightarrow> k \<le> k' \<Longrightarrow> svc_ok k' a s"
  by (auto simp: svc_ok_def intro: pending_ok_mono)

text \<open>Replacing one service.\<close>

lemma inv_except_mono: "inv_except E m \<Longrightarrow> E \<subseteq> E' \<Longrightarrow> inv_except E' m"
  unfolding inv_except_def by (meson subsetD)

lemma inv_exceptD:
  assumes "inv_except E m" "bt_get (services m) a = Some s" "a \<notin> E"
  shows "svc_ok (clock (world m)) a s" "proc_in (procs (world m)) s"
    and "bt_get (services m) b = Some t \<Longrightarrow> b \<notin> E \<Longrightarrow> b \<noteq> a \<Longrightarrow> proc_apart s t"
  using assms by (auto simp: inv_except_def)

lemma inv_bt: "inv_except E m \<Longrightarrow> bt_inv (services m)"
  by (simp add: inv_except_def)

lemma proc_apart_sym: "proc_apart s t \<Longrightarrow> proc_apart t s"
  by (auto simp: proc_apart_def)

lemma proc_in_mono: "proc_in ps s \<Longrightarrow> set ps \<subseteq> set ps' \<Longrightarrow> proc_in ps' s"
  by (auto simp: proc_in_def)

lemma inv_put:
  assumes sound: "inv_except E m" "E \<subseteq> {name}"
    and w: "clock (world m) \<le> clock w" "set (procs (world m)) \<subseteq> set (procs w)"
    and s: "svc_ok (clock w) name s" "proc_in (procs w) s"
    and apart: "\<And>b t. bt_get (services m) b = Some t \<Longrightarrow> b \<noteq> name \<Longrightarrow> proc_apart s t"
  shows "sound (put name s (with_world w m))"
  unfolding inv_except_def
proof (intro conjI allI impI)
  note sound' = inv_exceptD [OF inv_except_mono [OF sound]]
  show "bt_inv (services (put name s (with_world w m)))" using sound by (simp add: inv_bt)
  fix a u assume a: "bt_get (services (put name s (with_world w m))) a = Some u"
  show "svc_ok (clock (world (put name s (with_world w m)))) a u"
    using a s sound'(1) [THEN svc_ok_mono, OF _ _ w(1)] by (auto split: if_splits)
  show "proc_in (procs (world (put name s (with_world w m)))) u"
    using a s sound'(2) [THEN proc_in_mono, OF _ _ w(2)] by (auto split: if_splits)
  fix b t assume "bt_get (services (put name s (with_world w m))) b = Some t" "b \<noteq> a"
  then show "proc_apart u t"
    using a apart sound'(3) by (auto split: if_splits intro: proc_apart_sym)
qed

lemma inv_world:
  "sound m \<Longrightarrow> later (world m) w \<Longrightarrow> sound (with_world w m)"
  by (auto simp: inv_except_def later_def intro: svc_ok_mono)

lemma inv_remove:
  assumes sound: "inv_except E m" "E \<subseteq> {name}" and w: "later (world m) w"
  shows "sound ((with_world w m)\<lparr>services := bt_remove name (services m)\<rparr>)"
  unfolding inv_except_def
proof (intro conjI allI impI)
  let ?m = "(with_world w m)\<lparr>services := bt_remove name (services m)\<rparr>"
  note sound' = inv_exceptD [OF inv_except_mono [OF sound]]
  note bt = inv_bt [OF sound(1)]
  show "bt_inv (services ?m)" using bt by simp
  fix a u assume a: "bt_get (services ?m) a = Some u"
  show "svc_ok (clock (world ?m)) a u"
    using a w sound'(1) [THEN svc_ok_mono] by (auto simp: later_def bt split: if_splits)
  show "proc_in (procs (world ?m)) u"
    using a w sound'(2) by (auto simp: later_def bt split: if_splits)
  fix b t assume "bt_get (services ?m) b = Some t" "b \<noteq> a"
  then show "proc_apart u t" using a sound'(3) by (auto simp: bt split: if_splits)
qed

lemma inv_get:
  "sound m \<Longrightarrow> bt_get (services m) a = Some s \<Longrightarrow> svc_ok (clock (world m)) a s \<and> proc_in (procs (world m)) s"
  by (auto simp: inv_except_def)

lemma inv_get_apart:
  "sound m \<Longrightarrow> bt_get (services m) a = Some s \<Longrightarrow> bt_get (services m) b = Some t \<Longrightarrow> b \<noteq> a \<Longrightarrow> proc_apart s t"
  by (auto simp: inv_except_def)

section \<open>Operations of one service\<close>

definition good :: "manager \<Rightarrow> bool" where
  "good m \<longleftrightarrow> sound m \<and> quiet m"

definition ok_outcome :: "manager \<Rightarrow> 'a outcome \<Rightarrow> bool" where
  "ok_outcome m out \<longleftrightarrow> (\<exists>r m'. out = Inr (r, m') \<and> good m' \<and> shutdown m' = shutdown m)"

lemma ok_outcomeI: "good m' \<Longrightarrow> shutdown m' = shutdown m \<Longrightarrow> ok_outcome m (Inr (r, m'))"
  by (auto simp: ok_outcome_def)

lemma api_of_status_isOk:
  "isOk (api_of_status st) \<longleftrightarrow> (case st of Dummy \<Rightarrow> False | Exited s \<Rightarrow> terminated_status s | _ \<Rightarrow> True)"
  by (auto simp: api_of_status_def terminated_status_def exit_status_from_def status_code_def status_signal_def
      split: service_status.splits)

lemma set_status_Inr:
  "set_status st s = Inr s' \<longleftrightarrow> (\<exists>api. api_of_status st = Inr api \<and>
     s' = s\<lparr>state := (state s)\<lparr>publisher := publish api (publisher (state s)), status := st\<rparr>\<rparr>)"
  by (auto simp: set_status_def and_then_eq_Inr)

lemma set_status_ok:
  assumes "isOk (api_of_status st)"
  obtains s' where "set_status st s = Inr s'" "config s' = config s" "status (state s') = st"
    "liveness_probe (state s') = liveness_probe (state s)" "logs (state s') = logs (state s)"
    "automatic_restart_attempts (state s') = automatic_restart_attempts (state s)"
    "api_of_status st = Inr (latest (publisher (state s')))"
proof -
  obtain api where api: "api_of_status st = Inr api" using assms by (auto elim!: isOkE)
  then show ?thesis
    by (intro that [of "s\<lparr>state := (state s)\<lparr>publisher := publish api (publisher (state s)), status := st\<rparr>\<rparr>"])
      (simp_all add: set_status_def)
qed

lemma ser_signal: "1 \<le> sig \<Longrightarrow> sig \<le> 31 \<Longrightarrow> isOk (ser (MonSignal sig))"
  by (simp add: ser_def Let_def)

lemma send_monitor_ok:
  assumes "monitor_ok os" "isOk (ser c)"
  shows "send_monitor os ch c w = Inr (emit [MonitorSent ch c] w)"
  using assms by (auto simp: send_monitor_def monitor_send_def monitor_ok_def elim!: isOkE split: sum.splits)

lemma process_send_signal_ok:
  assumes "os_ok os" "1 < main_pid p" "main_pid p \<in> set (procs w)" "1 \<le> sig" "sig \<le> 31"
  shows "\<exists>es. process_send_signal os sig p w = Inr (emit es w)"
proof (cases "monitor_tx p")
  case (Some ch)
  then show ?thesis
    using assms send_monitor_ok [of os "MonSignal sig" ch w] ser_signal
    by (auto simp: process_send_signal_def os_ok_def)
next
  case None
  obtain r where r: "kill_process_group (\<lambda>k. os_kill os k (procs w)) (clock w) (main_pid p) sig = Inr r"
    using assms(2) kill_process_group_panic [of "\<lambda>k. os_kill os k (procs w)" "clock w" "main_pid p" sig]
    by (auto elim!: isOkE)
  have "kill_ok os" using assms(1) by (simp add: os_ok_def)
  then have single: "fst (os_kill os (clock w + 1) (procs w) (main_pid p) sig) = 0"
    and grp: "fst (os_kill os (clock w) (procs w) (- main_pid p) sig) = 0 \<or>
      fst (os_kill os (clock w) (procs w) (- main_pid p) sig) = -1 \<and>
      raw_os_error (snd (os_kill os (clock w) (procs w) (- main_pid p) sig)) = Some ESRCH"
    using assms(2-) by (auto simp: kill_ok_def)
  have "isOk (snd r)"
    using grp
  proof
    assume "fst (os_kill os (clock w) (procs w) (- main_pid p) sig) = 0"
    then show ?thesis using r by (auto simp: kill_process_group_def cerr_def split: if_splits)
  next
    assume "fst (os_kill os (clock w) (procs w) (- main_pid p) sig) = -1 \<and>
      raw_os_error (snd (os_kill os (clock w) (procs w) (- main_pid p) sig)) = Some ESRCH"
    then show ?thesis using r single by (auto simp: kill_process_group_def cerr_def split: if_splits)
  qed
  then show ?thesis using None r by (cases r) (auto simp: process_send_signal_def elim!: isOkE)
qed

lemma abort_liveness_probe_eq:
  "abort_liveness_probe (s, w) = (s\<lparr>state := (state s)\<lparr>liveness_probe := None\<rparr>\<rparr>,
     case liveness_probe (state s) of None \<Rightarrow> w | Some h \<Rightarrow> emit [TaskAborted h] w)"
  by (simp add: abort_liveness_probe_def split: option.splits)

lemma spawn_liveness_probe_eq:
  "spawn_liveness_probe name (s, w) =
     (case liveness (config s) of
        None \<Rightarrow> (s, w)
      | Some p \<Rightarrow> (s\<lparr>state := (state s)\<lparr>liveness_probe := Some (clock w)\<rparr>\<rparr>, emit [ProbeTask (clock w) name p] w))"
  by (simp add: spawn_liveness_probe_def)

lemma replace_dummy_simps [simp]:
  "config (replace_dummy s) = config s"
  "liveness_probe (state (replace_dummy s)) = liveness_probe (state s)"
  "logs (state (replace_dummy s)) = logs (state s)"
  "publisher (state (replace_dummy s)) = publisher (state s)"
  "status (state (replace_dummy s)) = Dummy"
  by (simp_all add: replace_dummy_def)

lemma svc_ok_not_Dummy: "svc_ok k a s \<Longrightarrow> status (state s) \<noteq> Dummy"
  by (auto simp: svc_ok_def api_of_status_def)

lemma svc_ok_api: "svc_ok k a s \<Longrightarrow> isOk (api_of_status (status (state s)))"
  by (simp add: svc_ok_def)

section \<open>Storing a service back\<close>

definition keeps_process :: "service \<Rightarrow> service \<Rightarrow> bool" where
  "keeps_process s s' \<longleftrightarrow>
     (\<forall>p. process_of (status (state s')) = Some p \<longrightarrow> process_of (status (state s)) = Some p)"

lemma inv_store:
  assumes sound: "sound m" and get: "bt_get (services m) name = Some s" and w: "later (world m) w"
    and s': "svc_ok (clock w) name s'" "keeps_process s s'"
  shows "sound (put name s' (with_world w m))"
proof (rule inv_put [OF sound])
  show "proc_in (procs w) s'"
    using inv_get [OF sound get] w s' by (auto simp: proc_in_def keeps_process_def later_def)
  show "proc_apart s' t" if "bt_get (services m) b = Some t" "b \<noteq> name" for b t
    using inv_get_apart [OF sound get that] s' by (auto simp: proc_apart_def keeps_process_def)
qed (use w s' in \<open>auto simp: later_def\<close>)

lemma good_put:
  assumes "good m" "bt_get (services m) name = Some s" "later (world m) w"
    and "svc_ok (clock w) name s'" "keeps_process s s'" "shutdown m \<longrightarrow> calm (status (state s'))"
  shows "good (put name s' (with_world w m))"
  using assms inv_store [of m name s w s'] by (auto simp: good_def quiet_def)

lemma store_ok:
  assumes "good m" "bt_get (services m) name = Some s" "r = Inr (s', w)" "later (world m) w"
    and "svc_ok (clock w) name s'" "keeps_process s s'" "shutdown m \<longrightarrow> calm (status (state s'))"
  shows "ok_outcome m (store name x m r)"
  using good_put [OF assms(1,2,4-7)] assms(3) by (simp add: store_def ok_outcome_def)

lemma good_world: "good m \<Longrightarrow> later (world m) w \<Longrightarrow> good (with_world w m)"
  by (simp add: good_def inv_world quiet_def)

lemma good_calm: "good m \<Longrightarrow> shutdown m \<Longrightarrow> bt_get (services m) a = Some s \<Longrightarrow> calm (status (state s))"
  by (auto simp: good_def quiet_def)

lemma good_get: "good m \<Longrightarrow> bt_get (services m) a = Some s \<Longrightarrow> svc_ok (clock (world m)) a s \<and> proc_in (procs (world m)) s"
  by (simp add: good_def inv_get)

end
