(* ===== verification/Services_Step.thy ===== *)
theory Services_Step
  imports Services_Inv
begin

text \<open>
  Every operation of the manager keeps the invariant and does not panic: creation, start,
  freezing and thawing, termination, forced kill, terminals and signals, the reaping of
  children and the shutdown.
\<close>

section \<open>Creation\<close>

lemma create_service_cases:
  obtains (refused) e where "create_service name c m = Inr (Inl e, m)"
  | (created) "create_service name c m = Inr (Inr (), put name (new_service c (log_retention_lines m)) m)"
    "\<not> shutdown m" "name_ok name c" "bt_get (services m) name = None"
proof (cases "shutdown m \<or> name = [] \<or> 255 < length name")
  case True
  then have "\<exists>e. create_service name c m = Inr (Inl e, m)" by (auto simp: create_service_def)
  with refused show ?thesis by blast
next
  case False
  then have eq: "create_service name c m = or_error m (validate c) (\<lambda>_.
        case bt_get (services m) name of
          Some _ \<Rightarrow> Inr (Inl (ServiceExists name), m)
        | None \<Rightarrow> Inr (Inr (), put name (new_service c (log_retention_lines m)) m))"
    by (simp add: create_service_def)
  show ?thesis
  proof (cases "validate c")
    case (Inl e)
    then show ?thesis using eq by (intro refused) simp
  next
    case (Inr u)
    then show ?thesis
      using eq refused created False by (cases "bt_get (services m) name") (auto simp: name_ok_def)
  qed
qed

lemma new_service_ok: "name_ok name c \<Longrightarrow> svc_ok k name (new_service c n)"
  by (simp add: svc_ok_def new_service_def api_of_status_def publisher_new_def process_ok_def)

lemma with_world_id [simp]: "with_world (world m) m = m"
  by (simp add: with_world_def)

lemma create_service_ok: "good m \<Longrightarrow> ok_outcome m (create_service name c m)"
proof (cases rule: create_service_cases [of name c m])
  case created
  assume good: "good m"
  have "sound (put name (new_service c (log_retention_lines m)) (with_world (world m) m))"
    using good created new_service_ok
    by (intro inv_put [of "{}"]) (auto simp: good_def new_service_def proc_in_def proc_apart_def)
  then show ?thesis using created by (auto simp: good_def quiet_def ok_outcome_def)
qed (auto simp: ok_outcome_def)

section \<open>Start\<close>

definition alike :: "service \<Rightarrow> service \<Rightarrow> bool" where
  "alike s s' \<longleftrightarrow> config s' = config s \<and> liveness_probe (state s') = liveness_probe (state s) \<and>
     automatic_restart_attempts (state s') = automatic_restart_attempts (state s)"

lemma open_pty_ok:
  assumes "os_ok os"
  obtains r w' where "open_pty os (s, w) = Inr (r, w')" "later w w'"
    "\<And>t. r = Inr t \<Longrightarrow> (t \<noteq> None) = pty_flag (config s)"
proof -
  have "isOk (os_pty os (clock w))" using assms by (simp add: os_ok_def fds_ok_def)
  then obtain r where "os_pty os (clock w) = Inr r" by (auto elim!: isOkE)
  then show ?thesis
    by (cases "pty_flag (config s)"; cases r)
      (auto simp: open_pty_def intro!: that)
qed

lemma make_sink_ok:
  assumes "os_ok os"
  obtains snk s' w' where "make_sink os name terminal (s, w) = Inr (snk, s', w')" "later w w'" "alike s s'"
    "has_ctty snk = (terminal \<noteq> None)"
proof (cases terminal)
  case (Some p)
  then show ?thesis by (intro that) (auto simp: make_sink_def has_ctty_def alike_def)
next
  case None
  have "isOk (os_pipe os (clock w))" using assms by (simp add: os_ok_def fds_ok_def)
  then obtain tx where "os_pipe os (clock w) = Inr tx" by (auto elim!: isOkE)
  then show ?thesis using None
    by (intro that [of _ "s\<lparr>state := (state s)\<lparr>logs := (logs (state s))\<lparr>Logs.abort_handle := Some (clock w)\<rparr>\<rparr>\<rparr>"])
      (auto simp: make_sink_def new_log_writer_def logs_new_writer_def has_ctty_def alike_def Let_def)
qed

lemma world_spawn_ok:
  assumes "os_ok os"
  obtains (failed) e w' where "world_spawn os c snk w = Inr (Inl e, w')" "later w w'"
  | (spawned) pid mon w' where "world_spawn os c snk w = Inr (Inr (pid, mon), w')" "clock w \<le> clock w'"
      "procs w' = procs w @ [pid]" "pid \<notin> set (procs w)" "1 < pid" "(mon \<noteq> None) = has_ctty snk"
proof -
  let ?o = "os_spawn os (clock w) (procs w)"
  have ok: "sp_pid_read ?o \<noteq> None" "\<And>pid. sp_pid_read ?o = Some (Inr pid) \<Longrightarrow> 1 < pid \<and> pid \<notin> set (procs w)"
    using assms by (auto simp: os_ok_def spawn_ok_def)
  have "spawn_service ?o c snk \<noteq> None"
    using ok(1) by (auto simp: spawn_service_def or_return_def split: sum.splits prod.splits)
  then obtain r where r: "spawn_service ?o c snk = Some r" by auto
  show ?thesis
  proof (cases r)
    case (Inl e)
    with r show ?thesis by (intro failed) (auto simp: world_spawn_def)
  next
    case (Inr x)
    then obtain pid mon where x: "r = Inr (pid, mon)" by (cases x) auto
    then have "sp_pid_read ?o = Some (Inr pid)" "(mon \<noteq> None) = has_ctty snk"
      using r spawn_service_Inr [of ?o c snk pid mon] by auto
    then show ?thesis using r x ok(2) by (intro spawned) (auto simp: world_spawn_def)
  qed
qed

text \<open>The two ways a start that gets past its guards can end.\<close>

definition api_ok :: "service \<Rightarrow> bool" where
  "api_ok s \<longleftrightarrow> api_of_status (status (state s)) = Inr (latest (publisher (state s)))"

lemma start_failed_eq:
  obtains s' where "start_failed name err s w m =
      Inr (Inl (SpawnFailed (cmd (config s)) (io_msg err)), put name s' (with_world w m))"
    "config s' = config s" "status (state s') = Error err" "liveness_probe (state s') = liveness_probe (state s)"
    "automatic_restart_attempts (state s') = automatic_restart_attempts (state s)" "api_ok s'"
proof -
  have "isOk (api_of_status (Error err))" by (simp add: api_of_status_isOk)
  then obtain s' where "set_status (Error err) s = Inr s'" "config s' = config s" "status (state s') = Error err"
    "liveness_probe (state s') = liveness_probe (state s)"
    "automatic_restart_attempts (state s') = automatic_restart_attempts (state s)"
    "api_of_status (Error err) = Inr (latest (publisher (state s')))"
    by (rule set_status_ok [of _ s])
  then show ?thesis by (intro that [of s']) (auto simp: start_failed_def api_ok_def)
qed

lemma start_service_spec:
  assumes os: "os_ok os" and m: "\<not> shutdown m" "bt_get (services m) name = Some s" "isOk (check_credentials s c)"
  obtains (failed) err s' w where
      "start_service os c name reason m =
         Inr (Inl (SpawnFailed (cmd (config s)) (io_msg err)), put name s' (with_world w m))"
      "later (world m) w" "config s' = config s" "status (state s') = Error err"
      "liveness_probe (state s') = liveness_probe (state s)" "api_ok s'"
      "automatic_restart_attempts (state s') = attempts_after reason (automatic_restart_attempts (state s))"
  | (started) p terminal s' w where
      "start_service os c name reason m = Inr (Inr (), put name s' (with_world w m))"
      "clock (world m) \<le> clock w" "procs w = procs (world m) @ [main_pid p]"
      "main_pid p \<notin> set (procs (world m))" "1 < main_pid p" "(monitor_tx p \<noteq> None) = pty_flag (config s)"
      "config s' = config s" "status (state s') = Running p terminal" "(terminal \<noteq> None) = pty_flag (config s)"
      "liveness_probe (state s') \<noteq> None \<longleftrightarrow> liveness (config s) \<noteq> None \<or> liveness_probe (state s) \<noteq> None"
      "api_ok s'"
      "automatic_restart_attempts (state s') = attempts_after reason (automatic_restart_attempts (state s))"
proof -
  let ?a = "attempts_after reason (automatic_restart_attempts (state s))"
  define s1 where "s1 = s\<lparr>state := (state s)\<lparr>automatic_restart_attempts := ?a\<rparr>\<rparr>"
  have s1: "config s1 = config s" "liveness_probe (state s1) = liveness_probe (state s)"
    "automatic_restart_attempts (state s1) = ?a" by (simp_all add: s1_def)
  obtain u where "check_credentials s c = Inr u" using m(3) by (auto elim!: isOkE)
  note start = start_service_def [of os c name reason m] and m' = m(1,2) this
  obtain r w1 where r: "open_pty os (s1, world m) = Inr (r, w1)" "later (world m) w1"
    "\<And>t. r = Inr t \<Longrightarrow> (t \<noteq> None) = pty_flag (config s)"
    using open_pty_ok [OF os, of s1 "world m"] s1(1) by metis
  show ?thesis
  proof (cases r)
    case (Inl err)
    obtain s' where f: "start_failed name err s1 w1 m =
        Inr (Inl (SpawnFailed (cmd (config s1)) (io_msg err)), put name s' (with_world w1 m))"
      "config s' = config s1" "status (state s') = Error err" "liveness_probe (state s') = liveness_probe (state s1)"
      "automatic_restart_attempts (state s') = automatic_restart_attempts (state s1)" "api_ok s'"
      by (rule start_failed_eq)
    have "start_service os c name reason m = start_failed name err s1 w1 m"
      using r(1) Inl by (simp add: start m' flip: s1_def)
    then show ?thesis using f s1 r(2) by (intro failed) auto
  next
    case (Inr terminal)
    obtain snk s2 w2 where snk: "make_sink os name terminal (s1, w1) = Inr (snk, s2, w2)" "later w1 w2"
      "alike s1 s2" "has_ctty snk = (terminal \<noteq> None)" by (rule make_sink_ok [OF os])
    from s1 snk(3) have s2: "config s2 = config s" "liveness_probe (state s2) = liveness_probe (state s)"
      "automatic_restart_attempts (state s2) = ?a" by (auto simp: alike_def)
    have rest: "start_service os c name reason m = and_then (world_spawn os (config s2) snk w2) (\<lambda>(r, w).
          case r of
            Inl err \<Rightarrow> start_failed name err s2 w m
          | Inr (child_pid, mon) \<Rightarrow>
              and_then (set_status (Running \<lparr>main_pid = child_pid, monitor_tx = mon\<rparr> terminal) s2) (\<lambda>s.
                case spawn_liveness_probe name (s, w) of
                  (s, w) \<Rightarrow> Inr (Inr (), put name s (with_world w m))))"
      using r(1) Inr snk(1) by (simp add: start m' flip: s1_def)
    have w2: "later (world m) w2" using r(2) snk(2) by (rule later_trans)
    show ?thesis
    proof (cases rule: world_spawn_ok [OF os, of "config s2" snk w2])
      case (1 err w3)
      obtain s' where f: "start_failed name err s2 w3 m =
          Inr (Inl (SpawnFailed (cmd (config s2)) (io_msg err)), put name s' (with_world w3 m))"
        "config s' = config s2" "status (state s') = Error err" "liveness_probe (state s') = liveness_probe (state s2)"
        "automatic_restart_attempts (state s') = automatic_restart_attempts (state s2)" "api_ok s'"
        by (rule start_failed_eq)
      then show ?thesis
        using 1 s2 later_trans [OF w2] by (intro failed [of err s' w3]) (auto simp: rest)
    next
      case (2 pid mon w3)
      let ?st = "Running \<lparr>main_pid = pid, monitor_tx = mon\<rparr> terminal"
      have "isOk (api_of_status ?st)" by (simp add: api_of_status_isOk)
      then obtain s3 where s3: "set_status ?st s2 = Inr s3" "config s3 = config s2" "status (state s3) = ?st"
        "liveness_probe (state s3) = liveness_probe (state s2)"
        "automatic_restart_attempts (state s3) = automatic_restart_attempts (state s2)"
        "api_of_status ?st = Inr (latest (publisher (state s3)))"
        by (rule set_status_ok [of _ s2])
      obtain s4 w4 where s4: "spawn_liveness_probe name (s3, w3) = (s4, w4)" by force
      have "config s4 = config s" "status (state s4) = ?st" "later w3 w4" "api_ok s4"
        "automatic_restart_attempts (state s4) = ?a"
        "liveness_probe (state s4) \<noteq> None \<longleftrightarrow> liveness (config s) \<noteq> None \<or> liveness_probe (state s) \<noteq> None"
        using s2 s3 s4 by (auto simp: spawn_liveness_probe_eq api_ok_def split: option.splits)
      moreover have "start_service os c name reason m = Inr (Inr (), put name s4 (with_world w4 m))"
        by (simp add: rest 2(1) s3(1) s4)
      ultimately show ?thesis
        using 2 w2 r(3) Inr snk(4) s2
        by (intro started [of s4 w4 "\<lparr>main_pid = pid, monitor_tx = mon\<rparr>" terminal])
          (auto simp: later_def)
    qed
  qed
qed

lemma start_service_ok:
  assumes os: "os_ok os" and sound: "inv_except {name} m"
    and m: "\<not> shutdown m" "bt_get (services m) name = Some s" "isOk (check_credentials s c)"
    and s: "name_ok name (config s)" "liveness_probe (state s) = None"
  shows "ok_outcome m (start_service os c name reason m)"
proof (cases rule: start_service_spec [OF os m, of reason])
  case (1 err s' w)
  have "sound (put name s' (with_world w m))"
    using 1 s by (intro inv_put [OF sound])
      (auto simp: later_def svc_ok_def api_ok_def process_ok_def proc_in_def proc_apart_def)
  then show ?thesis using 1 m(1) by (auto simp: ok_outcome_def good_def quiet_def)
next
  case (2 p terminal s' w)
  have "proc_apart s' t" if "bt_get (services m) b = Some t" "b \<noteq> name" for b t
    using inv_exceptD(2) [OF sound that(1)] that(2) 2(4,8) by (auto simp: proc_in_def proc_apart_def)
  moreover have "svc_ok (clock w) name s'"
    using 2(5-) s by (auto simp: svc_ok_def api_ok_def process_ok_def)
  ultimately have "sound (put name s' (with_world w m))"
    using 2(2,3,8) by (intro inv_put [OF sound]) (auto simp: proc_in_def)
  then show ?thesis using 2(1) m(1) by (auto simp: ok_outcome_def good_def quiet_def)
qed

text \<open>A service that is not the one started keeps its entry, whatever becomes of it.\<close>

lemma inv_except_put_world:
  assumes "inv_except {name} m" "later (world m) w"
  shows "inv_except {name} (put name s (with_world w m))"
  using assms by (auto simp: inv_except_def later_def intro: svc_ok_mono)

lemma inv_except_put:
  assumes "sound m" shows "inv_except {name} (put name s m)"
  using inv_except_put_world [OF inv_except_mono [OF assms], of name "world m"] by simp

section \<open>Freezing and thawing\<close>

lemma get_service_mut_Inr:
  "get_service_mut m c name = Inr s \<longleftrightarrow>
     name \<noteq> BOOTSTRAP_NAME \<and> bt_get (services m) name = Some s \<and> isOk (check_credentials s c)"
  by (auto simp: get_service_mut_def check_credentials_def split: option.splits)

lemma or_error_ok:
  assumes "good m" "\<And>x. r = Inr x \<Longrightarrow> ok_outcome m (f x)"
  shows "ok_outcome m (or_error m r f)"
  using assms by (cases r) (auto simp: ok_outcome_def)

text \<open>Putting the status back that was replaced by \<open>Dummy\<close>, or a quieter one.\<close>

lemma set_status_svc_ok:
  assumes "svc_ok k name s" "config s0 = config s" "isOk (api_of_status st)"
    and "liveness_probe (state s0) \<noteq> None \<longleftrightarrow> is_running st \<and> liveness (config s) \<noteq> None"
    and "process_ok (config s) st" "terminal_ok (pty_flag (config s)) st"
    and "pending_ok k' (graceful_termination_period (config s)) st"
  obtains s' where "set_status st s0 = Inr s'" "svc_ok k' name s'" "status (state s') = st" "config s' = config s"
proof -
  obtain s' where "set_status st s0 = Inr s'" "config s' = config s0" "status (state s') = st"
    "liveness_probe (state s') = liveness_probe (state s0)"
    "api_of_status st = Inr (latest (publisher (state s')))"
    using assms(3) by (rule set_status_ok [of _ s0])
  then show ?thesis using assms by (intro that [of s']) (auto simp: svc_ok_def)
qed

lemma unchanged_ok:
  assumes "good m" "bt_get (services m) name = Some s"
  shows "ok_outcome m (store name x m
    (and_then (set_status (status (state s)) (replace_dummy s)) (\<lambda>s. Inr (s, world m))))"
proof -
  have ok: "svc_ok (clock (world m)) name s" using good_get [OF assms] by simp
  then have "isOk (api_of_status (status (state s)))"
    "liveness_probe (state (replace_dummy s)) \<noteq> None \<longleftrightarrow> is_running (status (state s)) \<and> liveness (config s) \<noteq> None"
    "process_ok (config s) (status (state s))" "terminal_ok (pty_flag (config s)) (status (state s))"
    "pending_ok (clock (world m)) (graceful_termination_period (config s)) (status (state s))"
    by (simp_all add: svc_ok_def)
  from set_status_svc_ok [OF ok _ this] obtain s' where
    s': "set_status (status (state s)) (replace_dummy s) = Inr s'" "svc_ok (clock (world m)) name s'"
      "status (state s') = status (state s)" "config s' = config s"
    by (metis replace_dummy_simps(1))
  show ?thesis
  proof (rule store_ok [OF assms])
    show "shutdown m \<longrightarrow> calm (status (state s'))" using good_calm [OF assms(1) _ assms(2)] s'(3) by simp
  qed (use s' in \<open>simp_all add: keeps_process_def\<close>)
qed

text \<open>A signal to the process of a service that the invariant knows.\<close>

lemma service_signal_ok:
  assumes "os_ok os" "sound m" "bt_get (services m) name = Some s" "process_of (status (state s)) = Some p"
    and "procs w = procs (world m)" "1 \<le> sig" "sig \<le> 31"
  obtains es where "process_send_signal os sig p w = Inr (emit es w)"
proof -
  have "1 < main_pid p" "main_pid p \<in> set (procs w)"
    using inv_get [OF assms(2,3)] assms(4,5) by (auto simp: svc_ok_def process_ok_def proc_in_def)
  then show ?thesis using process_send_signal_ok [OF assms(1)] assms(6,7) that by blast
qed

lemma liveness_of:
  assumes "sound m" "bt_get (services m) name = Some s"
  shows "liveness_probe (state s) \<noteq> None \<longleftrightarrow> is_running (status (state s)) \<and> liveness (config s) \<noteq> None"
  using inv_get [OF assms] by (simp add: svc_ok_def)

text \<open>
  The transition of one service: it ends well, at a later world, in a well-formed service
  that has no other process and the given status.
\<close>

definition moves_to :: "manager \<Rightarrow> string \<Rightarrow> service \<Rightarrow> service_status \<Rightarrow> panic + (service \<times> world) \<Rightarrow> bool" where
  "moves_to m name s st r \<longleftrightarrow> (\<exists>s' w. r = Inr (s', w) \<and> later (world m) w \<and> svc_ok (clock w) name s' \<and>
     status (state s') = st \<and> config s' = config s)"

lemma moves_toI:
  "r = Inr (s', w) \<Longrightarrow> later (world m) w \<Longrightarrow> svc_ok (clock w) name s' \<Longrightarrow> status (state s') = st \<Longrightarrow>
     config s' = config s \<Longrightarrow> moves_to m name s st r"
  by (auto simp: moves_to_def)

lemma store_inv:
  assumes "sound m" "bt_get (services m) name = Some s" "moves_to m name s st r"
    and "process_of st = None \<or> process_of st = process_of (status (state s))"
  obtains s' w where "store name x m r = Inr (Inr x, put name s' (with_world w m))"
    "sound (put name s' (with_world w m))" "status (state s') = st" "config s' = config s"
proof -
  obtain s' w where s': "r = Inr (s', w)" "later (world m) w" "svc_ok (clock w) name s'"
      "status (state s') = st" "config s' = config s"
    using assms(3) by (auto simp: moves_to_def)
  then have "keeps_process s s'" using assms(4) by (auto simp: keeps_process_def)
  then have "sound (put name s' (with_world w m))" using s' by (intro inv_store [OF assms(1,2)]) auto
  with s' show ?thesis by (intro that [of s' w]) (auto simp: store_def)
qed

lemma store_moves:
  assumes "good m" "bt_get (services m) name = Some s" "moves_to m name s st r"
    and "process_of st = None \<or> process_of st = process_of (status (state s))" "shutdown m \<longrightarrow> calm st"
  shows "ok_outcome m (store name x m r)"
proof -
  have "sound m" using assms(1) by (simp add: good_def)
  from store_inv [OF this assms(2-4), of x] obtain s' w where
    "store name x m r = Inr (Inr x, put name s' (with_world w m))" "sound (put name s' (with_world w m))"
    "status (state s') = st" by metis
  then show ?thesis using assms(1,5) by (auto simp: ok_outcome_def good_def quiet_def)
qed

lemma keep_status_moves:
  assumes ok: "svc_ok (clock (world m)) name s" and "isOk (api_of_status st)"
    and "is_running st = is_running (status (state s))" "process_ok (config s) st" "terminal_ok (pty_flag (config s)) st"
    and "pending_ok (clock (world m)) (graceful_termination_period (config s)) st"
  shows "moves_to m name s st (keep_status st (replace_dummy s, world m))"
proof -
  have "liveness_probe (state (replace_dummy s)) \<noteq> None \<longleftrightarrow> is_running st \<and> liveness (config s) \<noteq> None"
    using ok assms(3) by (simp add: svc_ok_def)
  from set_status_svc_ok [OF ok replace_dummy_simps(1) assms(2) this assms(4-6)] show ?thesis
    by (metis (no_types, lifting) moves_to_def keep_status_def and_then_simps(2) later_refl case_prod_conv)
qed

lemma same_status_ok:
  assumes "good m" "bt_get (services m) name = Some s"
  shows "ok_outcome m (store name x m (keep_status (status (state s)) (replace_dummy s, world m)))"
  using unchanged_ok [OF assms] by (simp add: keep_status_def)

lemma abort_cases:
  obtains s1 w1 where "abort_liveness_probe (s, w) = (s1, w1)" "config s1 = config s" "later w w1"
    "liveness_probe (state s1) = None" "status (state s1) = status (state s)"
  by (rule that [of "fst (abort_liveness_probe (s, w))" "snd (abort_liveness_probe (s, w))"])
    (auto simp: abort_liveness_probe_eq split: option.splits)

lemma stop_after_kill:
  assumes ok: "svc_ok k name s" and s1: "config s1 = config s" "liveness_probe (state s1) = None"
    and p: "process_of (status (state s)) = Some p"
    and pend: "pending_ok k' (graceful_termination_period (config s)) (Stopping p after pending)"
  obtains s' where "set_status (Stopping p after pending) s1 = Inr s'" "svc_ok k' name s'"
    "status (state s') = Stopping p after pending" "config s' = config s"
proof (rule set_status_svc_ok [OF ok s1(1)])
  show "isOk (api_of_status (Stopping p after pending))" by (simp add: api_of_status_isOk)
  show "process_ok (config s) (Stopping p after pending)" using ok p by (auto simp: svc_ok_def process_ok_def)
qed (use s1(2) pend that in auto)

lemma terminate_running_moves:
  assumes os: "os_ok os" and sound: "sound m" and get: "bt_get (services m) name = Some s"
    and p: "status (state s) = Running p terminal"
  shows "\<exists>pending. moves_to m name s (Stopping p requested pending)
    (terminate_running os name requested p (replace_dummy s, world m))"
proof -
  note ok = inv_get [OF sound get, THEN conjunct1]
  obtain s1 w1 where ab: "abort_liveness_probe (replace_dummy s, world m) = (s1, w1)" "config s1 = config s"
    "later (world m) w1" "liveness_probe (state s1) = None"
    by (rule abort_cases [of "replace_dummy s" "world m"]) auto
  have pr: "process_of (status (state s)) = Some p" by (simp add: p)
  obtain es where t: "process_send_signal os SIGTERM p w1 = Inr (emit es w1)"
    using service_signal_ok [OF os sound get pr, of w1 SIGTERM] ab(3) by (auto simp: later_def)
  obtain es' where k: "process_send_signal os SIGKILL p (emit es w1) = Inr (emit es' (emit es w1))"
    using service_signal_ok [OF os sound get pr, of "emit es w1" SIGKILL] ab(3) by (auto simp: later_def)
  show ?thesis
  proof (cases "graceful_termination_period (config s) = 0")
    case True
    obtain s' where s': "set_status (Stopping p requested None) s1 = Inr s'"
      "svc_ok (clock (emit es' (emit es w1))) name s'" "status (state s') = Stopping p requested None" "config s' = config s"
      by (rule stop_after_kill [OF ok ab(2,4) pr]) auto
    have "terminate_running os name requested p (replace_dummy s, world m) = Inr (s', emit es' (emit es w1))"
      using ab t k s'(1) True by (simp add: terminate_running_def)
    moreover have "later (world m) (emit es' (emit es w1))" using ab(3) by (simp add: later_def)
    ultimately show ?thesis using s' by (blast intro: moves_toI)
  next
    case False
    define w2 where "w2 = emit es w1"
    define w3 where "w3 = emit [KillTimer (clock w2) (graceful_termination_period (config s)) name (clock w2)] w2"
    obtain s' where s': "set_status (Stopping p requested (Some \<lparr>kill_token = clock w2, kill_task = clock w2\<rparr>)) s1 = Inr s'"
      "svc_ok (clock w3) name s'"
      "status (state s') = Stopping p requested (Some \<lparr>kill_token = clock w2, kill_task = clock w2\<rparr>)"
      "config s' = config s"
      by (rule stop_after_kill [OF ok ab(2,4) pr]) (auto simp: w3_def False)
    have "terminate_running os name requested p (replace_dummy s, world m) = Inr (s', w3)"
      using ab t s'(1) False by (simp add: terminate_running_def Let_def w3_def w2_def)
    moreover have "later (world m) w3" using ab(3) by (simp add: later_def w3_def w2_def)
    ultimately show ?thesis using s' by (blast intro: moves_toI)
  qed
qed

lemma terminate_frozen_moves:
  assumes os: "os_ok os" and sound: "sound m" and get: "bt_get (services m) name = Some s"
    and p: "status (state s) = Frozen p terminal"
  shows "moves_to m name s (Stopping p requested None) (terminate_frozen os requested p (replace_dummy s, world m))"
proof -
  note ok = inv_get [OF sound get, THEN conjunct1]
  have pr: "process_of (status (state s)) = Some p" by (simp add: p)
  obtain es where k: "process_send_signal os SIGKILL p (world m) = Inr (emit es (world m))"
    using service_signal_ok [OF os sound get pr, of "world m" SIGKILL] by auto
  have "liveness_probe (state (replace_dummy s)) = None" using liveness_of [OF sound get] p by simp
  then obtain s' where "set_status (Stopping p requested None) (replace_dummy s) = Inr s'"
    "svc_ok (clock (emit es (world m))) name s'" "status (state s') = Stopping p requested None" "config s' = config s"
    by (rule stop_after_kill [OF ok replace_dummy_simps(1) _ pr]) auto
  then show ?thesis using k by (auto simp: moves_to_def terminate_frozen_def)
qed

lemma freeze_running_moves:
  assumes os: "os_ok os" and sound: "sound m" and get: "bt_get (services m) name = Some s"
    and p: "status (state s) = Running p terminal"
  shows "moves_to m name s (Frozen p terminal) (freeze_running os p terminal (replace_dummy s, world m))"
proof -
  note ok = inv_get [OF sound get, THEN conjunct1]
  obtain s1 w1 where ab: "abort_liveness_probe (replace_dummy s, world m) = (s1, w1)" "config s1 = config s"
    "later (world m) w1" "liveness_probe (state s1) = None"
    by (rule abort_cases [of "replace_dummy s" "world m"]) auto
  obtain es where t: "process_send_signal os SIGSTOP p w1 = Inr (emit es w1)"
    using service_signal_ok [OF os sound get, of p w1 SIGSTOP] ab(3) p by (auto simp: later_def)
  have "isOk (api_of_status (Frozen p terminal))" "process_ok (config s) (Frozen p terminal)"
    "terminal_ok (pty_flag (config s)) (Frozen p terminal)"
    using ok p by (auto simp: api_of_status_isOk svc_ok_def process_ok_def)
  then obtain s' where "set_status (Frozen p terminal) s1 = Inr s'" "svc_ok (clock (emit es w1)) name s'"
    "status (state s') = Frozen p terminal" "config s' = config s"
    using ab(4) by (elim set_status_svc_ok [OF ok ab(2)]) auto
  moreover have "later (world m) (emit es w1)" using ab(3) by (simp add: later_def)
  ultimately show ?thesis using ab t by (auto simp: moves_to_def freeze_running_def)
qed

lemma thaw_frozen_moves:
  assumes os: "os_ok os" and sound: "sound m" and get: "bt_get (services m) name = Some s"
    and p: "status (state s) = Frozen p terminal"
  shows "moves_to m name s (Running p terminal) (thaw_frozen os name p terminal (replace_dummy s, world m))"
proof -
  note ok = inv_get [OF sound get, THEN conjunct1]
  obtain es where es: "process_send_signal os SIGCONT p (world m) = Inr (emit es (world m))"
    using service_signal_ok [OF os sound get, of p "world m" SIGCONT] p by auto
  have "isOk (api_of_status (Running p terminal))" by (simp add: api_of_status_isOk)
  then obtain s2 where s2: "set_status (Running p terminal) (replace_dummy s) = Inr s2"
    "config s2 = config s" "status (state s2) = Running p terminal"
    "liveness_probe (state s2) = liveness_probe (state s)"
    "api_of_status (Running p terminal) = Inr (latest (publisher (state s2)))"
    by (rule set_status_ok [of _ "replace_dummy s"]) auto
  obtain s3 w3 where s3: "spawn_liveness_probe name (s2, emit es (world m)) = (s3, w3)" by force
  have "svc_ok (clock w3) name s3" "status (state s3) = Running p terminal" "config s3 = config s"
    "later (emit es (world m)) w3"
    using ok p s2 s3 by (auto simp: spawn_liveness_probe_eq svc_ok_def process_ok_def split: option.splits)
  moreover from this have "later (world m) w3" by (simp add: later_def)
  ultimately show ?thesis using es s2(1) s3 by (auto simp: moves_to_def thaw_frozen_def)
qed

section \<open>Freezing, thawing and terminating\<close>

lemma freeze_service_ok:
  assumes os: "os_ok os" and good: "good m"
  shows "ok_outcome m (freeze_service os c name m)"
  unfolding freeze_service_def
proof (rule or_error_ok [OF good])
  fix s assume "get_service_mut m c name = Inr s"
  then have get: "bt_get (services m) name = Some s" by (simp add: get_service_mut_Inr)
  note same = same_status_ok [OF good get, of "()"]
  show "ok_outcome m (store name () m
        (case status (state s) of
           Running process terminal \<Rightarrow> freeze_running os process terminal (replace_dummy s, world m)
         | Dummy \<Rightarrow> Inl ''unreachable''
         | st \<Rightarrow> keep_status st (replace_dummy s, world m)))"
  proof (cases "status (state s)")
    case (Running p terminal)
    then have "\<not> shutdown m" using good_calm [OF good _ get] by auto
    with Running show ?thesis
      using good store_moves [OF good get freeze_running_moves [OF os _ get Running]] by (simp add: good_def)
  next
    case Dummy
    then show ?thesis using good_get [OF good get] svc_ok_not_Dummy by blast
  qed (use same in simp_all)
qed

lemma thaw_service_ok:
  assumes os: "os_ok os" and good: "good m"
  shows "ok_outcome m (thaw_service os c name m)"
  unfolding thaw_service_def
proof (rule or_error_ok [OF good])
  fix s assume "get_service_mut m c name = Inr s"
  then have get: "bt_get (services m) name = Some s" by (simp add: get_service_mut_Inr)
  note same = same_status_ok [OF good get, of "()"]
  show "ok_outcome m (store name () m
        (case status (state s) of
           Frozen process terminal \<Rightarrow> thaw_frozen os name process terminal (replace_dummy s, world m)
         | Dummy \<Rightarrow> Inl ''unreachable''
         | st \<Rightarrow> keep_status st (replace_dummy s, world m)))"
  proof (cases "status (state s)")
    case (Frozen p terminal)
    then have "\<not> shutdown m" using good_calm [OF good _ get] by auto
    with Frozen show ?thesis
      using good store_moves [OF good get thaw_frozen_moves [OF os _ get Frozen]] by (simp add: good_def)
  next
    case Dummy
    then show ?thesis using good_get [OF good get] svc_ok_not_Dummy by blast
  qed (use same in simp_all)
qed

section \<open>Terminating\<close>

lemma is_restart_merge: "\<not> is_restart b \<Longrightarrow> \<not> is_restart (merge a b)"
  by (induction a b rule: merge.induct) auto

text \<open>
  Termination, also during the shutdown, where some services may still run: \<open>N\<close> are the
  services that need not be calm yet.
\<close>

definition quiet_but :: "string set \<Rightarrow> manager \<Rightarrow> bool" where
  "quiet_but N m \<longleftrightarrow> (shutdown m \<longrightarrow>
     (\<forall>a s. bt_get (services m) a = Some s \<longrightarrow> a \<notin> N \<longrightarrow> calm (status (state s))))"

definition ended_ok :: "string \<Rightarrow> manager \<Rightarrow> 'a outcome \<Rightarrow> bool" where
  "ended_ok name m out \<longleftrightarrow> (\<exists>r m'. out = Inr (r, m') \<and> sound m' \<and> shutdown m' = shutdown m \<and>
     (\<forall>N. quiet_but N m \<longrightarrow> quiet_but (N - {name}) m'))"

lemma ended_put:
  assumes "sound m" "bt_get (services m) name = Some s" "moves_to m name s st r"
    and "process_of st = None \<or> process_of st = process_of (status (state s))" "shutdown m \<longrightarrow> calm st"
  shows "ended_ok name m (store name x m r)"
proof -
  from store_inv [OF assms(1-4), of x] obtain s' w where
    "store name x m r = Inr (Inr x, put name s' (with_world w m))" "sound (put name s' (with_world w m))"
    "status (state s') = st" by metis
  then show ?thesis using assms(5) by (auto simp: ended_ok_def quiet_but_def)
qed

lemma terminate_finished_ok:
  assumes os: "os_ok os" and sound: "sound m" and get: "bt_get (services m) name = Some s"
    and fin: "process_of (status (state s)) = None"
    and restart: "is_restart requested \<longrightarrow> \<not> shutdown m \<and> isOk (check_credentials s c)"
  shows "ended_ok name m (case requested of
      Stop \<Rightarrow> store name () m (keep_status (status (state s)) (replace_dummy s, world m))
    | PruneAfter \<Rightarrow> Inr (Inr (), m\<lparr>services := bt_remove name (services m)\<rparr>)
    | Restart reason \<Rightarrow> start_service os c name reason (put name (replace_dummy s) m))"
proof (cases requested)
  case Stop
  note ok = inv_get [OF sound get, THEN conjunct1]
  have mv: "moves_to m name s (status (state s)) (keep_status (status (state s)) (replace_dummy s, world m))"
    using ok by (intro keep_status_moves) (auto simp: svc_ok_def)
  have "calm (status (state s))" using fin by (cases "status (state s)") auto
  then show ?thesis using Stop fin ended_put [OF sound get mv, of "()"] by simp
next
  case PruneAfter
  have "sound (m\<lparr>services := bt_remove name (services m)\<rparr>)"
    using inv_remove [OF sound, of name "world m"] by simp
  then show ?thesis
    using PruneAfter inv_bt [OF sound] by (auto simp: ended_ok_def quiet_but_def split: if_splits)
next
  case (Restart reason)
  note ok = inv_get [OF sound get, THEN conjunct1]
  have "\<not> is_running (status (state s))" using fin by (cases "status (state s)") auto
  then have "liveness_probe (state s) = None" using ok by (simp add: svc_ok_def)
  then have "ok_outcome (put name (replace_dummy s) m) (start_service os c name reason (put name (replace_dummy s) m))"
    using restart Restart ok
    by (intro start_service_ok [where s = "replace_dummy s", OF os inv_except_put [OF sound]])
      (auto simp: svc_ok_def check_credentials_def)
  then show ?thesis using Restart restart by (auto simp: ok_outcome_def ended_ok_def good_def quiet_but_def)
qed

lemma terminate_inner_ok:
  assumes os: "os_ok os" and sound: "sound m"
    and restart: "is_restart requested \<longrightarrow> \<not> shutdown m \<and>
      (\<forall>s. bt_get (services m) name = Some s \<longrightarrow> isOk (check_credentials s c))"
  shows "ended_ok name m (terminate_service_inner os c name requested m)"
proof (cases "bt_get (services m) name")
  case None
  then show ?thesis using sound by (auto simp: terminate_service_inner_def ended_ok_def quiet_but_def)
next
  case (Some s)
  note ok = inv_get [OF sound Some, THEN conjunct1]
  have calm: "shutdown m \<longrightarrow> calm (Stopping p requested pending)" for p pending using restart by auto
  show ?thesis
  proof (cases "status (state s)")
    case (Running p terminal)
    obtain pending where "moves_to m name s (Stopping p requested pending)
        (terminate_running os name requested p (replace_dummy s, world m))"
      using terminate_running_moves [OF os sound Some Running] by blast
    from ended_put [OF sound Some this] show ?thesis
      using Running Some calm by (simp add: terminate_service_inner_def)
  next
    case (Frozen p terminal)
    from ended_put [OF sound Some terminate_frozen_moves [OF os sound Some Frozen, of requested]] show ?thesis
      using Frozen Some calm by (simp add: terminate_service_inner_def)
  next
    case (Stopping p after pending)
    have "moves_to m name s (Stopping p (merge after requested) pending)
        (keep_status (Stopping p (merge after requested) pending) (replace_dummy s, world m))"
      using ok Stopping
      by (intro keep_status_moves) (cases pending; auto simp: svc_ok_def process_ok_def api_of_status_isOk)+
    from ended_put [OF sound Some this] show ?thesis
      using Stopping Some restart is_restart_merge by (auto simp: terminate_service_inner_def)
  next
    case Dummy
    then show ?thesis using svc_ok_not_Dummy [OF ok] by simp
  qed (use terminate_finished_ok [OF os sound Some, of requested c] restart Some in
      \<open>(cases requested; simp add: terminate_service_inner_def Let_def)+\<close>)
qed

lemma good_quiet_but: "good m \<longleftrightarrow> sound m \<and> quiet_but {} m"
  by (simp add: good_def quiet_def quiet_but_def)

lemma ended_ok_good: "good m \<Longrightarrow> ended_ok name m out \<Longrightarrow> ok_outcome m out"
proof -
  assume good: "good m" and "ended_ok name m out"
  then obtain r m' where m': "out = Inr (r, m')" "sound m'" "shutdown m' = shutdown m"
      "\<forall>N. quiet_but N m \<longrightarrow> quiet_but (N - {name}) m'" by (auto simp: ended_ok_def)
  then have "quiet_but {} m'" using good by (metis Diff_empty empty_Diff good_quiet_but)
  with m' show ?thesis by (auto simp: ok_outcome_def good_quiet_but)
qed

lemma terminate_service_ok:
  assumes os: "os_ok os" and good: "good m"
  shows "ok_outcome m (terminate_service os c name intent m)"
  unfolding terminate_service_def
proof (rule or_error_ok [OF good])
  fix s assume "get_service_mut m c name = Inr s"
  then have s: "bt_get (services m) name = Some s" "isOk (check_credentials s c)" by (auto simp: get_service_mut_Inr)
  show "ok_outcome m (if shutdown m \<and> is_restart intent then Inr (Inl ShuttingDown, m)
      else terminate_service_inner os c name intent m)"
  proof (cases "shutdown m \<and> is_restart intent")
    case True
    then show ?thesis using good by (simp add: ok_outcome_def)
  next
    case False
    then have "ended_ok name m (terminate_service_inner os c name intent m)"
      using s good by (intro terminate_inner_ok [OF os]) (auto simp: good_def)
    with False good show ?thesis by (auto intro: ended_ok_good)
  qed
qed

section \<open>Forced kill, terminals and signals\<close>

lemma force_kill_service_ok:
  assumes os: "os_ok os" and good: "good m"
  obtains m' where "force_kill_service os name tok m = Inr m'" "good m'" "shutdown m' = shutdown m"
    "services m' = services m"
proof (cases "\<exists>s p after k. bt_get (services m) name = Some s \<and> status (state s) = Stopping p after (Some k) \<and> kill_token k = tok")
  case True
  then obtain s p after k where s: "bt_get (services m) name = Some s" "status (state s) = Stopping p after (Some k)" "kill_token k = tok"
    by blast
  moreover obtain es where "process_send_signal os SIGKILL p (world m) = Inr (emit es (world m))"
    using service_signal_ok [OF os _ s(1), of p "world m" SIGKILL] s(2) good by (auto simp: good_def)
  ultimately show ?thesis
    using good_world [OF good later_emit, of es]
    by (intro that [of "with_world (emit es (world m)) m"]) (auto simp: force_kill_service_def)
next
  case False
  then have "force_kill_service os name tok m = Inr m"
    by (auto simp: force_kill_service_def split: option.splits service_status.splits)
  then show ?thesis using good that by simp
qed

lemma get_pty_ok:
  assumes os: "os_ok os" and good: "good m"
  shows "ok_outcome m (get_pty os c name m)"
proof -
  have dup: "raw_os_error e = Some EMFILE" if "os_dup os k = Inl e" for k e
    using os that by (auto simp: os_ok_def fds_ok_def)
  have w: "good (with_world (emit [] (world m)) m)" by (rule good_world [OF good later_emit])
  show ?thesis
    unfolding get_pty_def
  proof (rule or_error_ok [OF good])
    fix s assume "get_service m c name = Inr s"
    then have "bt_get (services m) name = Some s" by (auto simp: get_service_def and_then_eq_Inr split: option.splits)
    then have "status (state s) \<noteq> Dummy" using good_get [OF good] svc_ok_not_Dummy by blast
    then show "ok_outcome m (let of_pty = (\<lambda>terminal. case terminal of
             None \<Rightarrow> Inr (Inl (NoPty name), m)
           | Some p \<Rightarrow>
               (case os_dup os (clock (world m)) of
                  Inr f \<Rightarrow> Inr (Inr f, with_world (emit [] (world m)) m)
                | Inl err \<Rightarrow>
                    if raw_os_error err = Some EMFILE
                    then Inr (Inl TooManyOpenFiles, with_world (emit [] (world m)) m)
                    else Inl ''Failed to dup PTY fd'')) in
       case status (state s) of
         Running process terminal \<Rightarrow> of_pty terminal
       | Frozen process terminal \<Rightarrow> of_pty terminal
       | Dummy \<Rightarrow> Inl ''unreachable''
       | _ \<Rightarrow> Inr (Inl (NoPty name), m))"
      using good w dup
      by (cases "status (state s)"; cases "os_dup os (clock (world m))")
        (auto simp: ok_outcome_def split: option.splits)
  qed
qed

lemma notify_pty_ok:
  assumes os: "os_ok os" and good: "good m" and c: "command = Foreground \<or> command = Background"
  shows "ok_outcome m (notify_pty command os c name m)"
  unfolding notify_pty_def
proof (rule or_error_ok [OF good])
  fix s assume "get_service_mut m c name = Inr s"
  then have "bt_get (services m) name = Some s" by (simp add: get_service_mut_Inr)
  then have "status (state s) \<noteq> Dummy" using good_get [OF good] svc_ok_not_Dummy by blast
  moreover have "isOk (ser command)" using c by (auto simp: ser_def)
  then have "send_monitor os ch command (world m) = Inr (emit [MonitorSent ch command] (world m))" for ch
    using os by (intro send_monitor_ok) (auto simp: os_ok_def)
  moreover have "good (with_world (emit es (world m)) m)" for es by (rule good_world [OF good later_emit])
  ultimately show "ok_outcome m (let notify = (\<lambda>process. case monitor_tx process of
             None \<Rightarrow> Inr (Inr (), m)
           | Some ch \<Rightarrow> and_then (send_monitor os ch command (world m)) (\<lambda>w. Inr (Inr (), with_world w m))) in
       case status (state s) of
         Running process terminal \<Rightarrow> notify process
       | Frozen process terminal \<Rightarrow> notify process
       | Dummy \<Rightarrow> Inl ''unreachable''
       | _ \<Rightarrow> Inr (Inr (), m))"
    using good by (cases "status (state s)") (auto simp: ok_outcome_def split: option.splits)
qed

lemma send_signal_ok:
  assumes os: "os_ok os" and good: "good m"
  shows "ok_outcome m (send_signal os c name sig m)"
  unfolding send_signal_def
proof (rule or_error_ok [OF good])
  fix s assume "get_service_mut m c name = Inr s"
  then have get: "bt_get (services m) name = Some s" by (simp add: get_service_mut_Inr)
  have sound: "sound m" using good by (simp add: good_def)
  have dummy: "status (state s) \<noteq> Dummy" using good_get [OF good get] svc_ok_not_Dummy by blast
  show "ok_outcome m (if sig \<le> 0 \<or> 32 \<le> sig then
         Inr (Inl (InvalidRequest (''Signal '' @ show_int sig @ '' is not valid'')), m)
       else
         (let send = (\<lambda>process.
              and_then (process_send_signal os sig process (world m)) (\<lambda>w. Inr (Inr (), with_world w m))) in
          case status (state s) of
            Running process terminal \<Rightarrow> send process
          | Frozen process terminal \<Rightarrow> send process
          | Stopping process after pending \<Rightarrow> send process
          | Dummy \<Rightarrow> Inl ''unreachable''
          | _ \<Rightarrow> Inr (Inr (), m)))"
  proof (cases "sig \<le> 0 \<or> 32 \<le> sig")
    case False
    then have sent: "ok_outcome m (and_then (process_send_signal os sig p (world m)) (\<lambda>w. Inr (Inr (), with_world w m)))"
      if p: "process_of (status (state s)) = Some p" for p
    proof -
      obtain es where "process_send_signal os sig p (world m) = Inr (emit es (world m))"
        using service_signal_ok [OF os sound get p, of "world m" sig] False by auto
      then show ?thesis using good_world [OF good later_emit, of es] by (simp add: ok_outcome_def)
    qed
    with False dummy good show ?thesis by (cases "status (state s)") (simp_all add: ok_outcome_def)
  qed (use good in \<open>simp add: ok_outcome_def\<close>)
qed

section \<open>Shutdown\<close>

lemma stop_services_ok:
  assumes os: "os_ok os"
  shows "sound m \<Longrightarrow> \<exists>m'. stop_services os names m = Inr m' \<and> sound m' \<and> shutdown m' = shutdown m \<and>
     (quiet_but N m \<longrightarrow> quiet_but (N - set names) m')"
proof (induction names arbitrary: m N)
  case Nil
  then show ?case by simp
next
  case (Cons name names)
  have "ended_ok name m (terminate_service_inner os root name Stop m)"
    using Cons.prems by (intro terminate_inner_ok [OF os]) auto
  then obtain r m1 where m1: "terminate_service_inner os root name Stop m = Inr (r, m1)" "sound m1"
      "shutdown m1 = shutdown m" "quiet_but N m \<longrightarrow> quiet_but (N - {name}) m1"
    by (auto simp: ended_ok_def)
  from Cons.IH [OF m1(2), of "N - {name}"] m1 show ?case
    by (auto simp: Diff_insert2 [symmetric])
qed

lemma begin_shutdown_ok:
  assumes os: "os_ok os" and good: "good m"
  obtains m' where "begin_shutdown os m = Inr m'" "good m'" "shutdown m'"
proof (cases "shutdown m")
  case True
  then show ?thesis using good that by (simp add: begin_shutdown_def shutdown_initiated_def)
next
  case False
  let ?m = "m\<lparr>shutdown := True\<rparr>" and ?N = "set (bt_keys (services m))"
  have "sound ?m" using good by (simp add: good_def inv_except_def)
  moreover have "quiet_but ?N ?m" by (auto simp: quiet_but_def bt_keys_iff)
  ultimately obtain m' where "stop_services os (bt_keys (services m)) ?m = Inr m'" "sound m'" "shutdown m'" "quiet_but {} m'"
    using stop_services_ok [OF os, of ?m "bt_keys (services m)" ?N] by auto
  then show ?thesis using False that
    by (auto simp: begin_shutdown_def shutdown_initiated_def stop_all_services_def good_quiet_but)
qed

section \<open>Reaping\<close>

lemma find_service_Some:
  "bt_inv (services m) \<Longrightarrow> find_service pid m = Some (name, s) \<Longrightarrow>
     bt_get (services m) name = Some s \<and> has_process pid (status (state s))"
  by (auto simp: find_service_def find_Some_iff bt_get_Some_iff) (metis nth_mem)

lemma find_service_None:
  "bt_inv (services m) \<Longrightarrow> find_service pid m = None \<Longrightarrow> bt_get (services m) name = Some s \<Longrightarrow>
     \<not> has_process pid (status (state s))"
  by (auto simp: find_service_def find_None_iff bt_get_Some_iff)

lemma reaped_simps [simp]:
  "services (reaped pid m) = services m" "shutdown (reaped pid m) = shutdown m"
  "clock (world (reaped pid m)) = clock (world m)" "trace (world (reaped pid m)) = trace (world m)"
  "set (procs (world (reaped pid m))) = set (procs (world m)) - {pid}"
  by (auto simp: reaped_def)

lemma reaped_except:
  assumes sound: "sound m" and E: "\<And>a s. bt_get (services m) a = Some s \<Longrightarrow> has_process pid (status (state s)) \<Longrightarrow> a \<in> E"
  shows "inv_except E (reaped pid m)"
  unfolding inv_except_def
proof (intro conjI allI impI)
  show "bt_inv (services (reaped pid m))" using inv_bt [OF sound] by simp
  fix a s assume a: "bt_get (services (reaped pid m)) a = Some s" "a \<notin> E"
  then show "svc_ok (clock (world (reaped pid m))) a s" using inv_get [OF sound] by simp
  have "proc_in (procs (world m)) s" using a inv_get [OF sound] by simp
  then show "proc_in (procs (world (reaped pid m))) s"
    using E [of a s] a by (auto simp: proc_in_def has_process_iff)
  fix b t assume "bt_get (services (reaped pid m)) b = Some t" "b \<notin> E" "b \<noteq> a"
  then show "proc_apart s t" using a inv_get_apart [OF sound, of a s b t] by simp
qed

lemma reaped_found:
  assumes sound: "sound m" and s: "bt_get (services m) name = Some s" "has_process pid (status (state s))"
  shows "inv_except {name} (reaped pid m)"
proof (rule reaped_except [OF sound])
  fix a t assume "bt_get (services m) a = Some t" "has_process pid (status (state t))"
  then show "a \<in> {name}"
    using inv_get_apart [OF sound s(1), of a t] s(2) by (auto simp: proc_apart_def has_process_iff)
qed

lemma finished_put_ok:
  assumes inv: "inv_except {name} m" and q: "quiet m" and w: "later (world m) w"
    and s: "svc_ok k name s0" "config s' = config s0" "api_ok s'" "liveness_probe (state s') = None"
      "finished (status (state s'))"
  shows "good (put name s' (with_world w m))"
proof -
  have st: "process_of (status (state s')) = None" "\<not> is_running (status (state s'))" "calm (status (state s'))"
    "terminal_ok flag (status (state s'))" "pending_ok c g (status (state s'))" for flag c g
    using s(5) by (cases "status (state s')"; simp add: finished_def)+
  have "sound (put name s' (with_world w m))"
    using s st w by (intro inv_put [OF inv])
      (auto simp: later_def svc_ok_def api_ok_def process_ok_def proc_in_def proc_apart_def)
  then show ?thesis using q st by (auto simp: good_def quiet_def)
qed

lemma process_exited_ok:
  assumes os: "os_ok os" and inv: "inv_except {name} m" and q: "quiet m"
    and s: "bt_get (services m) name = Some s" "svc_ok k name s" "process_of (status (state s)) = Some p"
    and st: "terminated_status st"
  shows "\<exists>m'. process_exited os st name s m = Inr m' \<and> good m' \<and> shutdown m' = shutdown m"
proof (cases "\<exists>after pending. status (state s) = Stopping p after pending")
  case False
  have "isOk (api_of_status (Exited st))" using st by (simp add: api_of_status_isOk)
  then obtain s1 where s1: "set_status (Exited st) s = Inr s1" "config s1 = config s" "status (state s1) = Exited st"
    "api_of_status (Exited st) = Inr (latest (publisher (state s1)))"
    by (rule set_status_ok [of _ s]) auto
  obtain s2 w where s2: "abort_liveness_probe (s1, world m) = (s2, w)" "config s2 = config s1" "later (world m) w"
    "liveness_probe (state s2) = None" "status (state s2) = status (state s1)" "publisher (state s2) = publisher (state s1)"
    by (simp add: abort_liveness_probe_eq split: option.splits)
  then have "good (put name s2 (with_world w m))"
    using s1 by (intro finished_put_ok [OF inv q _ s(2)]) (auto simp: api_ok_def finished_def)
  moreover have "process_exited os st name s m = Inr (put name s2 (with_world w m))"
    using False s(3) s1(1) s2(1) by (cases "status (state s)") (auto simp: process_exited_def)
  ultimately show ?thesis by simp
next
  case True
  then obtain after pending where stopping: "status (state s) = Stopping p after pending" by blast
  define s1 where "s1 = s\<lparr>state := (state s)\<lparr>status := Stopping p after None\<rparr>\<rparr>"
  define w0 where "w0 = (case pending of None \<Rightarrow> world m | Some k \<Rightarrow> emit [TaskAborted (kill_task k)] (world m))"
  obtain s2 w where s2: "abort_liveness_probe (s1, w0) = (s2, w)" "config s2 = config s" "later w0 w"
    "liveness_probe (state s2) = None"
    by (rule abort_cases [of s1 w0]) (auto simp: s1_def)
  have "later (world m) w0" by (simp add: w0_def split: option.splits)
  then have w: "later (world m) w" using s2(3) by (rule later_trans)
  have eq: "process_exited os st name s m =
    (case after of
       Stop \<Rightarrow> and_then (set_status Stopped s2) (\<lambda>s. Inr (put name s (with_world w m)))
     | PruneAfter \<Rightarrow> Inr ((with_world w m)\<lparr>services := bt_remove name (services m)\<rparr>)
     | Restart reason \<Rightarrow>
         and_then (start_service os (creds (config s)) name reason (put name s2 (with_world w m))) (\<lambda>(r, m). Inr m))"
    by (simp add: process_exited_def stopping Let_def s2(1,2) flip: s1_def w0_def split: after_stop.split)
  show ?thesis
  proof (cases after)
    case Stop
    have "isOk (api_of_status Stopped)" by (simp add: api_of_status_isOk)
    then obtain s3 where s3: "set_status Stopped s2 = Inr s3" "config s3 = config s2" "status (state s3) = Stopped"
      "liveness_probe (state s3) = liveness_probe (state s2)" "api_of_status Stopped = Inr (latest (publisher (state s3)))"
      by (rule set_status_ok [of _ s2])
    then have "good (put name s3 (with_world w m))"
      using s2 by (intro finished_put_ok [OF inv q w s(2)]) (auto simp: api_ok_def finished_def)
    then show ?thesis using Stop s3(1) by (simp add: eq)
  next
    case PruneAfter
    have "sound ((with_world w m)\<lparr>services := bt_remove name (services m)\<rparr>)"
      by (rule inv_remove [OF inv _ w]) simp
    then show ?thesis
      using PruneAfter q inv_bt [OF inv] by (auto simp: eq good_def quiet_def split: if_splits)
  next
    case (Restart reason)
    then have "\<not> calm (status (state s))" using stopping by simp
    then have "\<not> shutdown m" using q s(1) by (auto simp: quiet_def)
    then have "ok_outcome (put name s2 (with_world w m))
        (start_service os (creds (config s)) name reason (put name s2 (with_world w m)))"
      using s(2) s2 by (intro start_service_ok [where s = s2, OF os inv_except_put_world [OF inv w]])
        (auto simp: svc_ok_def check_credentials_def)
    then show ?thesis using Restart by (auto simp: eq ok_outcome_def)
  qed
qed

lemma reap_one_ok:
  assumes os: "os_ok os" and good: "good m" and st: "terminated_status st"
  shows "\<exists>m'. (case find_service pid (reaped pid m) of
       None \<Rightarrow> Inr (reaped pid m)
     | Some (name, s) \<Rightarrow> process_exited os st name s (reaped pid m)) = Inr m' \<and> good m' \<and> shutdown m' = shutdown m"
proof -
  have sound: "sound m" and q: "quiet m" using good by (auto simp: good_def)
  have bt: "bt_inv (services (reaped pid m))" using inv_bt [OF sound] by simp
  have q': "quiet (reaped pid m)" using q by (simp add: quiet_def)
  show ?thesis
  proof (cases "find_service pid (reaped pid m)")
    case None
    have "inv_except {} (reaped pid m)"
      using find_service_None [OF bt None] by (intro reaped_except [OF sound]) auto
    then show ?thesis using q' None by (simp add: good_def)
  next
    case (Some ns)
    obtain name s where ns: "ns = (name, s)" by force
    with find_service_Some [OF bt, of pid name s] Some
    have s: "bt_get (services m) name = Some s" "has_process pid (status (state s))" by auto
    then obtain p where p: "process_of (status (state s)) = Some p" by (auto simp: has_process_iff)
    have "\<exists>m'. process_exited os st name s (reaped pid m) = Inr m' \<and> good m' \<and> shutdown m' = shutdown (reaped pid m)"
      using inv_get [OF sound s(1)] s(1)
      by (intro process_exited_ok [OF os reaped_found [OF sound s] q' _ _ p st]) auto
    then show ?thesis using Some ns by simp
  qed
qed

lemma reap_children_ok:
  assumes os: "os_ok os"
  shows "waits_ok ws \<Longrightarrow> good m \<Longrightarrow> \<exists>m'. reap_children os ws m = Inr m' \<and> good m' \<and> shutdown m' = shutdown m"
proof (induction ws arbitrary: m)
  case Nil
  then show ?case by simp
next
  case (Cons rs ws)
  obtain r st where rs: "rs = (r, st)" by (cases rs)
  have waits: "waits_ok ws" using Cons.prems(1) by (simp add: waits_ok_def)
  show ?case
  proof (cases "fst r = -1 \<or> fst r = 0")
    case True
    then show ?thesis
      using Cons.prems by (auto simp: rs waits_ok_def waitpid_def cerr_def)
  next
    case False
    then have w: "waitpid r st = Inr (Some (fst r, st))" and st: "terminated_status st"
      using Cons.prems(1) by (auto simp: rs waits_ok_def waitpid_def cerr_def)
    obtain m1 where m1: "(case find_service (fst r) (reaped (fst r) m) of
         None \<Rightarrow> Inr (reaped (fst r) m)
       | Some (name, s) \<Rightarrow> process_exited os st name s (reaped (fst r) m)) = Inr m1" "good m1" "shutdown m1 = shutdown m"
      using reap_one_ok [OF os Cons.prems(2) st] by blast
    then show ?thesis using Cons.IH [OF waits m1(2)] by (simp add: rs w Let_def)
  qed
qed

lemma handle_signal_ok:
  assumes os: "os_ok os" and good: "good m" and ws: "waits_ok ws"
  shows "\<exists>m'. handle_signal os signo ws m = Inr m' \<and> good m' \<and> (shutdown m \<longrightarrow> shutdown m')"
proof -
  obtain m1 where m1: "(if signo = SIGCHLD then reap_children os ws m else Inr m) = Inr m1" "good m1" "shutdown m1 = shutdown m"
    using reap_children_ok [OF os ws good] good by (cases "signo = SIGCHLD") auto
  obtain m2 where "begin_shutdown os m1 = Inr m2" "good m2" "shutdown m2"
    by (rule begin_shutdown_ok [OF os m1(2)])
  with m1 show ?thesis by (simp add: handle_signal_def)
qed

end
