(* ===== verification/Api_Impl.thy ===== *)
theory Api_Impl
  imports Services_Step Environment
begin

text \<open>
  \<open>beam-init/src/api_impl.rs\<close>: the commands of the API and their handler in the main task.
  What the handler asks of the system beside the manager (the process environment, the
  environment files, the user database) is the record \<open>env_os\<close>; the Debug text of an error,
  which the compiler derives, is its field \<open>debug_text\<close>.
\<close>

section \<open>Commands and responses\<close>

datatype command =
    CreateService string create_service_req
  | RestartService string
  | StopService string bool
  | FreezeService string
  | ThawService string
  | ShowService string
  | ListServices
  | ServiceLogs string bool
  | NotifyPtyAttached string
  | NotifyPtyDetached string
  | SendSignal string c_int
  | ForceKillService string token

datatype response =
    JsonCreated create_service_req
  | JsonUnit
  | JsonService api_service
  | JsonServices "(string, api_status) btree"
  | LogStream ring_buffer u64
  | LogText string

record env_os =
  vars_os :: "(string \<times> string) list"
  file_system :: "string \<Rightarrow> io_error + string"
  sysconf_pw :: int
  passwd :: "u32 \<Rightarrow> nat \<Rightarrow> pw_result"
  debug_text :: "service_error \<Rightarrow> string"

section \<open>The handler\<close>

definition stop_service_cmd :: "os \<Rightarrow> credentials \<Rightarrow> string \<Rightarrow> after_stop \<Rightarrow> manager \<Rightarrow> unit outcome" where
  "stop_service_cmd os c name after m =
     or_error m (get_service m c name) (\<lambda>s.
       terminate_service os (creds (config s)) name after m)"

text \<open>The environment a new service gets; \<open>Inl\<close> is a panic or a lookup that never returns.\<close>

definition service_environment ::
    "env_os \<Rightarrow> string list \<Rightarrow> credentials \<Rightarrow> string \<Rightarrow> (string, string) btree \<Rightarrow> panic + (service_error + env_map)" where
  "service_environment e files c name requested =
     (if name = BOOTSTRAP_NAME then Inr (Inr (bt_from_iter (vars_os e)))
      else case build_environment (file_system e) (sysconf_pw e) (passwd e) (uid c) files of
          None \<Rightarrow> Inl ''getpwuid_r does not return''
        | Some r \<Rightarrow> and_then r (\<lambda>r. Inr
            (case r of
               Inl err \<Rightarrow> Inl (BuildEnvironment (io_msg err))
             | Inr svc_env \<Rightarrow> Inr (bt_extend svc_env requested))))"

definition config_of_request :: "create_service_req \<Rightarrow> env_map \<Rightarrow> credentials \<Rightarrow> service_config" where
  "config_of_request r vars c =
     \<lparr>cmd = req_cmd r, args = req_args r, env = vars, labels = req_labels r, liveness = req_liveness r,
      pty_flag = req_pty r, creds = c, graceful_termination_period = req_graceful_termination_period r\<rparr>"

text \<open>\<open>?\<close> between two operations: an error ends the command in the state reached.\<close>

definition then_do :: "'a outcome \<Rightarrow> ('a \<Rightarrow> manager \<Rightarrow> 'b outcome) \<Rightarrow> 'b outcome" where
  "then_do out f =
     and_then out (\<lambda>(r, m). case r of Inl e \<Rightarrow> Inr (Inl e, m) | Inr x \<Rightarrow> f x m)"

definition create_command ::
    "os \<Rightarrow> env_os \<Rightarrow> credentials \<Rightarrow> string \<Rightarrow> create_service_req \<Rightarrow> manager \<Rightarrow> response outcome" where
  "create_command os e c name req m =
     and_then (service_environment e (user_env_files m) c name (req_env req)) (\<lambda>r.
       or_error m r (\<lambda>vars.
         then_do (create_service name (config_of_request req vars c) m) (\<lambda>_ m.
         then_do (start_service os c name User m) (\<lambda>_ m.
         Inr (Inr (JsonCreated req), m)))))"

definition list_command :: "credentials \<Rightarrow> manager \<Rightarrow> response outcome" where
  "list_command c m =
     and_then (collect_results (\<lambda>(name, st). and_then (api_of_status st) (\<lambda>a. Inr (name, a))) (list_services m c))
       (\<lambda>l. Inr (Inr (JsonServices (bt_from_iter l)), m))"

definition logs_text :: "string list \<Rightarrow> string" where
  "logs_text ls = concat (map (\<lambda>l. l @ [CHR 0x0A]) ls)"

definition done_unit :: "unit outcome \<Rightarrow> response outcome" where
  "done_unit out = then_do out (\<lambda>_ m. Inr (Inr JsonUnit, m))"

fun handle_api_command :: "os \<Rightarrow> env_os \<Rightarrow> command \<Rightarrow> credentials \<Rightarrow> manager \<Rightarrow> response outcome" where
  "handle_api_command os e (CreateService name req) c m = create_command os e c name req m"
| "handle_api_command os e (RestartService name) c m =
     done_unit (stop_service_cmd os c name (Restart User) m)"
| "handle_api_command os e (StopService name prune) c m =
     done_unit (stop_service_cmd os c name (if prune then PruneAfter else Stop) m)"
| "handle_api_command os e (FreezeService name) c m = done_unit (freeze_service os c name m)"
| "handle_api_command os e (ThawService name) c m = done_unit (thaw_service os c name m)"
| "handle_api_command os e (ShowService name) c m =
     or_error m (get_service m c name) (\<lambda>s.
       and_then (api_of_service s) (\<lambda>a. Inr (Inr (JsonService a), m)))"
| "handle_api_command os e ListServices c m = list_command c m"
| "handle_api_command os e (ServiceLogs name follow) c m =
     (if follow then or_error m (log_reader c name m) (\<lambda>(q, i). Inr (Inr (LogStream q i), m))
      else or_error m (manager_copy_logs c name m) (\<lambda>ls. Inr (Inr (LogText (logs_text ls)), m)))"
| "handle_api_command os e (NotifyPtyAttached name) c m = done_unit (notify_pty_attached os c name m)"
| "handle_api_command os e (NotifyPtyDetached name) c m = done_unit (notify_pty_detached os c name m)"
| "handle_api_command os e (SendSignal name sig) c m = done_unit (send_signal os c name sig m)"
| "handle_api_command os e (ForceKillService name tok) c m =
     and_then (force_kill_service os name tok m) (\<lambda>m. Inr (Inr JsonUnit, m))"

fun_cases handle_createE: "handle_api_command os e (CreateService name req) c m = r"

section \<open>The system's promises\<close>

text \<open>
  The suggested buffer size of the user database is positive and below 4 GiB, and no entry
  needs a larger buffer.
\<close>

definition env_ok :: "env_os \<Rightarrow> bool" where
  "env_ok e \<longleftrightarrow> (sysconf_pw e = -1 \<or> (0 < sysconf_pw e \<and> sysconf_pw e < 2 ^ 32)) \<and>
     (\<forall>u n. 2 ^ 32 \<le> n \<longrightarrow> passwd e u n \<noteq> PwErange)"

lemma getpw_loop_small:
  assumes big: "\<And>n. 2 ^ 32 \<le> n \<Longrightarrow> pw n \<noteq> PwErange"
  shows "0 < buflen \<Longrightarrow> buflen < 2 ^ 33 \<Longrightarrow> \<exists>r. getpw_loop pw buflen = Some (Inr r)"
proof (induction "2 ^ 33 - buflen" arbitrary: buflen rule: less_induct)
  case less
  show ?case
  proof (cases "pw buflen = PwErange")
    case True
    then have "buflen < 2 ^ 32" using big [of buflen] by (cases "buflen < 2 ^ 32") auto
    then have "\<exists>r. getpw_loop pw (buflen * 2) = Some (Inr r)" using less.prems by (intro less.hyps) auto
    with True \<open>buflen < 2 ^ 32\<close> show ?thesis
      by (subst getpw_loop.simps) (simp add: usize_checked_mul_def isize_max_def)
  next
    case False
    then show ?thesis by (subst getpw_loop.simps) (auto split: pw_result.splits)
  qed
qed

lemma service_environment_ok:
  assumes "env_ok e"
  shows "isOk (service_environment e files c name requested)"
proof -
  let ?n = "nat ((if sysconf_pw e = -1 then 1024 else sysconf_pw e) mod 2 ^ 64)"
  have "0 < ?n" "?n < 2 ^ 33" "\<not> isize_max < ?n"
    using assms by (auto simp: env_ok_def isize_max_def nat_less_iff)
  moreover have "\<exists>r. getpw_loop (passwd e (uid c)) ?n = Some (Inr r)"
    using assms calculation by (intro getpw_loop_small) (auto simp: env_ok_def)
  ultimately have "\<exists>r. get_user_info (sysconf_pw e) (passwd e (uid c)) = Some (Inr r)"
    unfolding get_user_info_def Let_def by auto
  then show ?thesis
    by (auto simp: service_environment_def build_environment_def build_base_environment_def Let_def)
qed

section \<open>The handler keeps the invariant\<close>

lemma then_do_ok:
  assumes "ok_outcome m out" "\<And>x m'. good m' \<Longrightarrow> shutdown m' = shutdown m \<Longrightarrow> out = Inr (Inr x, m') \<Longrightarrow> ok_outcome m' (f x m')"
  shows "ok_outcome m (then_do out f)"
proof -
  obtain r m' where out: "out = Inr (r, m')" "good m'" "shutdown m' = shutdown m"
    using assms(1) by (auto simp: ok_outcome_def)
  show ?thesis
  proof (cases r)
    case (Inl e)
    then show ?thesis using out by (simp add: then_do_def ok_outcome_def)
  next
    case (Inr x)
    then have "ok_outcome m' (f x m')" using assms(2) out by blast
    then show ?thesis using out Inr by (auto simp: then_do_def ok_outcome_def)
  qed
qed

lemma done_unit_ok: "ok_outcome m out \<Longrightarrow> ok_outcome m (done_unit out)"
  unfolding done_unit_def by (rule then_do_ok) (auto simp: ok_outcome_def)

lemma get_service_Inr:
  "get_service m c name = Inr s \<longleftrightarrow> bt_get (services m) name = Some s \<and> isOk (check_credentials s c)"
  by (auto simp: get_service_def check_credentials_def split: option.splits)

lemma stop_service_cmd_ok: "os_ok os \<Longrightarrow> good m \<Longrightarrow> ok_outcome m (stop_service_cmd os c name after m)"
  unfolding stop_service_cmd_def by (rule or_error_ok) (auto intro: terminate_service_ok)

lemma created_get:
  "create_service name c m = Inr (Inr x, m') \<Longrightarrow>
     \<not> shutdown m' \<and> bt_get (services m') name = Some (new_service c (log_retention_lines m)) \<and> name_ok name c"
  by (cases rule: create_service_cases [of name c m]) auto

lemma create_command_ok:
  assumes os: "os_ok os" and e: "env_ok e" and good: "good m"
  shows "ok_outcome m (create_command os e c name req m)"
proof -
  obtain r where r: "service_environment e (user_env_files m) c name (req_env req) = Inr r"
    using service_environment_ok [OF e] by (rule isOkE)
  have "ok_outcome m (or_error m r (\<lambda>vars.
         then_do (create_service name (config_of_request req vars c) m) (\<lambda>_ m.
         then_do (start_service os c name User m) (\<lambda>_ m. Inr (Inr (JsonCreated req), m)))))"
  proof (intro or_error_ok [OF good] then_do_ok create_service_ok [OF good])
    fix vars x m' assume m': "good m'" "create_service name (config_of_request req vars c) m = Inr (Inr x, m')"
    from created_get [OF m'(2)] show "ok_outcome m' (start_service os c name User m')"
      using m'(1)
      by (intro start_service_ok [OF os inv_except_mono [of "{}"]])
        (auto simp: good_def new_service_def config_of_request_def check_credentials_def name_ok_def)
  qed (auto simp: ok_outcome_def)
  then show ?thesis by (simp add: create_command_def r)
qed

lemma list_services_ok:
  assumes "good m"
  shows "isOk (collect_results (\<lambda>(name, st). and_then (api_of_status st) (\<lambda>a. Inr (name, a))) (list_services m c))"
proof -
  have bt: "bt_inv (services m)" using assms by (auto simp: good_def inv_bt)
  have "isOk (api_of_status (status (state s)))" if "(name, s) \<in> set (services m)" for name s
    using that bt good_get [OF assms, of name s] svc_ok_api by (auto simp: bt_get_Some_iff)
  then show ?thesis by (fastforce simp: collect_results_isOk list_services_def isOk_and_then elim: isOkE)
qed

lemma show_service_ok:
  assumes "good m"
  shows "ok_outcome m (or_error m (get_service m c name) (\<lambda>s.
       and_then (api_of_service s) (\<lambda>a. Inr (Inr (JsonService a), m))))"
proof (rule or_error_ok [OF assms])
  fix s assume "get_service m c name = Inr s"
  then have "isOk (api_of_status (status (state s)))"
    using good_get [OF assms] svc_ok_api [of _ name] get_service_Inr by blast
  then show "ok_outcome m (and_then (api_of_service s) (\<lambda>a. Inr (Inr (JsonService a), m)))"
    using assms by (auto simp: api_of_service_def ok_outcome_def elim!: isOkE)
qed

lemma handle_api_command_ok:
  assumes os: "os_ok os" and e: "env_ok e" and good: "good m"
  shows "ok_outcome m (handle_api_command os e command c m)"
proof (cases command)
  case (CreateService name req)
  then show ?thesis using create_command_ok [OF os e good] by simp
next
  case (ShowService name)
  then show ?thesis using show_service_ok [OF good] by simp
next
  case ListServices
  then show ?thesis using list_services_ok [OF good, of c] good
    by (auto simp: list_command_def ok_outcome_def elim!: isOkE)
next
  case (ServiceLogs name follow)
  have "ok_outcome m (or_error m r (\<lambda>(q, i). Inr (Inr (LogStream q i), m)))"
    "ok_outcome m (or_error m r' (\<lambda>ls. Inr (Inr (LogText (logs_text ls)), m)))" for r r'
    using good by (cases r; cases r'; auto simp: ok_outcome_def)+
  with ServiceLogs show ?thesis by simp
next
  case (ForceKillService name tok)
  obtain m' where "force_kill_service os name tok m = Inr m'" "good m'" "shutdown m' = shutdown m"
    by (rule force_kill_service_ok [OF os good, of name tok])
  then show ?thesis using ForceKillService by (simp add: ok_outcome_def)
qed (auto intro!: done_unit_ok stop_service_cmd_ok [OF os good] freeze_service_ok [OF os good]
    thaw_service_ok [OF os good] notify_pty_ok [OF os good] send_signal_ok [OF os good]
    simp: notify_pty_attached_def notify_pty_detached_def)

end
