(* ===== verification/Main_Loop.thy ===== *)
theory Main_Loop
  imports Api_Impl
begin

text \<open>
  The event loop of \<open>beam-init/src/main.rs\<close>: the events the tasks send to the main task, the
  handling of each, and the decision after each event to go on, to end the loop or to exit
  the process as the bootstrap service ended. A log line pushed by a background task (the
  writer of a log pipe, a liveness probe) is an event of its own, \<open>LogPush\<close>.
\<close>

section \<open>Events\<close>

datatype event =
    Command command credentials
  | GetPty string credentials
  | Signal_event int "(libc_result \<times> raw_status) list"
  | ProbeFailed string
  | WaitService string credentials
  | LogPush string string

datatype reply =
    Response "service_error + response"
  | PtyFd fd
  | Subscribed "service_error + subscription"
  | NoReply

definition push_service_log :: "string \<Rightarrow> string \<Rightarrow> manager \<Rightarrow> manager" where
  "push_service_log name line m =
     (case bt_get (services m) name of
        None \<Rightarrow> m
      | Some s \<Rightarrow> put name (s\<lparr>state := (state s)\<lparr>logs := push_log (logs (state s)) line\<rparr>\<rparr>) m)"

definition probe_failed :: "os \<Rightarrow> env_os \<Rightarrow> string \<Rightarrow> manager \<Rightarrow> panic + manager" where
  "probe_failed os e name m =
     and_then (stop_service_cmd os root name (Restart Automatic) m) (\<lambda>(r, m). Inr
       (case r of
          Inr _ \<Rightarrow> m
        | Inl err \<Rightarrow>
            if isOk (get_service m root name)
            then push_service_log name (''[failed to automatically restart: '' @ debug_text e err @ '']'') m
            else m))"

fun handle_event :: "os \<Rightarrow> env_os \<Rightarrow> event \<Rightarrow> manager \<Rightarrow> panic + (reply \<times> manager)" where
  "handle_event os e (Signal_event signo ws) m =
     and_then (handle_signal os signo ws m) (\<lambda>m. Inr (NoReply, m))"
| "handle_event os e (Command command c) m =
     and_then (handle_api_command os e command c m) (\<lambda>(r, m). Inr (Response r, m))"
| "handle_event os e (GetPty name c) m =
     and_then (get_pty os c name m) (\<lambda>(r, m). Inr (case r of Inr f \<Rightarrow> PtyFd f | Inl _ \<Rightarrow> NoReply, m))"
| "handle_event os e (ProbeFailed name) m = and_then (probe_failed os e name m) (\<lambda>m. Inr (NoReply, m))"
| "handle_event os e (WaitService name c) m = Inr (Subscribed (service_subscribe c name m), m)"
| "handle_event os e (LogPush name line) m = Inr (NoReply, push_service_log name line m)"

section \<open>After an event\<close>

datatype loop_next = LoopAgain | LoopBreak | ProcessExit c_int | ExitWithSignal c_int

definition bootstrap_status :: "manager \<Rightarrow> service_status option" where
  "bootstrap_status m =
     (case get_service m root BOOTSTRAP_NAME of Inr s \<Rightarrow> Some (status (state s)) | Inl _ \<Rightarrow> None)"

definition after_event :: "manager \<Rightarrow> loop_next" where
  "after_event m =
     (if shutdown_complete m then LoopBreak
      else if shutdown_initiated m then LoopAgain
      else case bootstrap_status m of
          Some (Exited st) \<Rightarrow>
            (case status_code st of
               Some code \<Rightarrow> ProcessExit code
             | None \<Rightarrow> (case status_signal st of Some signal \<Rightarrow> ExitWithSignal signal | None \<Rightarrow> ProcessExit 1))
        | Some Stopped \<Rightarrow> ProcessExit 0
        | _ \<Rightarrow> LoopAgain)"

text \<open>One turn of the loop on the kernel and system of that moment.\<close>

type_synonym input = "os \<times> env_os \<times> event"

definition turn :: "input \<Rightarrow> manager \<Rightarrow> panic + (reply \<times> manager)" where
  "turn i m = (case i of (os, e, ev) \<Rightarrow> handle_event os e ev m)"

text \<open>The loop over the events received, until it breaks or the process exits.\<close>

fun main_loop :: "input list \<Rightarrow> manager \<Rightarrow> panic + (reply list \<times> loop_next \<times> manager)" where
  "main_loop [] m = Inr ([], LoopAgain, m)"
| "main_loop (i # is) m =
     and_then (turn i m) (\<lambda>(r, m).
       if after_event m = LoopAgain
       then and_then (main_loop is m) (\<lambda>(rs, next, m). Inr (r # rs, next, m))
       else Inr ([r], after_event m, m))"

text \<open>The first event: creating the bootstrap service from the command line.\<close>

definition bootstrap_event :: "string \<Rightarrow> string list \<Rightarrow> u32 \<Rightarrow> event" where
  "bootstrap_event c as grace =
     Command (CreateService BOOTSTRAP_NAME
       \<lparr>req_cmd = c, req_args = as, req_env = bt_empty, req_liveness = None, req_pty = False,
        req_labels = bt_empty, req_graceful_termination_period = grace\<rparr>) root"

section \<open>A machine that never panics\<close>

text \<open>
  The contract between the loop and the handlers: on allowed inputs a step from a good state
  succeeds, ends in a good state and never takes back a flag.
\<close>

locale guarded_machine =
  fixes step :: "'i \<Rightarrow> 'm \<Rightarrow> 'p + ('r \<times> 'm)"
    and goodm :: "'m \<Rightarrow> bool"
    and allowed :: "'i \<Rightarrow> bool"
    and flag :: "'m \<Rightarrow> bool"
  assumes step_good: "allowed i \<Longrightarrow> goodm m \<Longrightarrow> \<exists>r m'. step i m = Inr (r, m') \<and> goodm m' \<and> (flag m \<longrightarrow> flag m')"
begin

fun steps :: "'i list \<Rightarrow> 'm \<Rightarrow> 'p + ('r list \<times> 'm)" where
  "steps [] m = Inr ([], m)"
| "steps (i # is) m = and_then (step i m) (\<lambda>(r, m). and_then (steps is m) (\<lambda>(rs, m). Inr (r # rs, m)))"

lemma steps_good:
  "list_all allowed is \<Longrightarrow> goodm m \<Longrightarrow>
     \<exists>rs m'. steps is m = Inr (rs, m') \<and> goodm m' \<and> length rs = length is \<and> (flag m \<longrightarrow> flag m')"
proof (induction "is" arbitrary: m)
  case Nil
  then show ?case by simp
next
  case (Cons i "is")
  then obtain r m1 where m1: "step i m = Inr (r, m1)" "goodm m1" "flag m \<longrightarrow> flag m1"
    using step_good [of i m] by auto
  from Cons.IH [OF _ m1(2)] Cons.prems(1) obtain rs m' where
    "steps is m1 = Inr (rs, m')" "goodm m'" "length rs = length is" "flag m1 \<longrightarrow> flag m'" by auto
  with m1 show ?case by auto
qed

lemma step_Inr: "allowed i \<Longrightarrow> goodm m \<Longrightarrow> step i m = Inr (r, m') \<Longrightarrow> goodm m' \<and> (flag m \<longrightarrow> flag m')"
  using step_good [of i m] by auto

end

section \<open>The loop on the model\<close>

definition allowed_input :: "input \<Rightarrow> bool" where
  "allowed_input i \<longleftrightarrow> (case i of (os, e, ev) \<Rightarrow>
     os_ok os \<and> env_ok e \<and> (case ev of Signal_event signo ws \<Rightarrow> waits_ok ws | _ \<Rightarrow> True))"

lemma push_service_log_ok:
  assumes "good m"
  shows "good (push_service_log name line m) \<and> shutdown (push_service_log name line m) = shutdown m"
proof (cases "bt_get (services m) name")
  case None
  then show ?thesis using assms by (simp add: push_service_log_def)
next
  case (Some s)
  let ?s = "s\<lparr>state := (state s)\<lparr>logs := push_log (logs (state s)) line\<rparr>\<rparr>"
  have "good (put name ?s (with_world (world m) m))"
    using good_get [OF assms Some] good_calm [OF assms _ Some]
    by (intro good_put [OF assms Some]) (auto simp: svc_ok_def keeps_process_def)
  then show ?thesis using Some by (simp add: push_service_log_def)
qed

lemma probe_failed_ok:
  assumes "os_ok os" "good m"
  shows "\<exists>m'. probe_failed os e name m = Inr m' \<and> good m' \<and> shutdown m' = shutdown m"
proof -
  obtain r m' where "stop_service_cmd os root name (Restart Automatic) m = Inr (r, m')" "good m'" "shutdown m' = shutdown m"
    using stop_service_cmd_ok [OF assms, of root name "Restart Automatic"] by (auto simp: ok_outcome_def)
  then show ?thesis using push_service_log_ok by (auto simp: probe_failed_def split: sum.splits)
qed

lemma turn_good:
  assumes "allowed_input i" "good m"
  shows "\<exists>r m'. turn i m = Inr (r, m') \<and> good m' \<and> (shutdown m \<longrightarrow> shutdown m')"
proof -
  obtain os e ev where i: "i = (os, e, ev)" by (cases i)
  have os: "os_ok os" and e: "env_ok e" using assms(1) by (auto simp: i allowed_input_def)
  show ?thesis
  proof (cases ev)
    case (Command command c)
    then show ?thesis
      using handle_api_command_ok [OF os e assms(2), of command c] by (auto simp: i turn_def ok_outcome_def)
  next
    case (GetPty name c)
    then show ?thesis
      using get_pty_ok [OF os assms(2), of c name] by (auto simp: i turn_def ok_outcome_def split: sum.splits)
  next
    case (Signal_event signo ws)
    then have "waits_ok ws" using assms(1) by (simp add: i allowed_input_def)
    then show ?thesis
      using handle_signal_ok [OF os assms(2), of ws signo] Signal_event by (auto simp: i turn_def)
  next
    case (ProbeFailed name)
    then show ?thesis using probe_failed_ok [OF os assms(2), of e name] by (auto simp: i turn_def)
  next
    case (WaitService name c)
    then show ?thesis using assms(2) by (simp add: i turn_def)
  next
    case (LogPush name line)
    then show ?thesis using push_service_log_ok [OF assms(2)] by (simp add: i turn_def)
  qed
qed

interpretation lp: guarded_machine turn good allowed_input shutdown
  by unfold_locales (rule turn_good)

lemma main_loop_good:
  "list_all allowed_input is \<Longrightarrow> good m \<Longrightarrow>
     \<exists>rs next m'. main_loop is m = Inr (rs, next, m') \<and> good m' \<and> (shutdown m \<longrightarrow> shutdown m')"
proof (induction "is" arbitrary: m)
  case Nil
  then show ?case by simp
next
  case (Cons i "is")
  then obtain r m1 where m1: "turn i m = Inr (r, m1)" "good m1" "shutdown m \<longrightarrow> shutdown m1"
    using lp.step_good [of i m] by auto
  then show ?case using Cons by (cases "after_event m1 = LoopAgain") fastforce+
qed

lemma new_manager_good: "good (new_manager files n)"
  by (simp add: good_def inv_except_def quiet_def new_manager_def)


section \<open>A concrete kernel\<close>

definition fresh_pid :: "pid_t list \<Rightarrow> pid_t" where
  "fresh_pid ps = 2 + sum_list (map abs ps)"

definition sample_os :: os where
  "sample_os =
     \<lparr>os_kill = \<lambda>k ps target sig. if \<bar>target\<bar> \<in> set ps then (0, eof) else (-1, os_error ESRCH []),
      os_monitor_write = \<lambda>k. Inr (), os_monitor_read = \<lambda>k. Inr (),
      os_pty = \<lambda>k. pty_new (int k, eof) (0, ''/dev/pts/0'' @ [CHR 0x00]),
      os_pipe = \<lambda>k. Inr k,
      os_spawn = \<lambda>k ps. \<lparr>sp_pipe = \<lambda>n. Inr (2 * n, 2 * n + 1), sp_fork = Inr 1,
        sp_err_read = Inl eof, sp_pid_read = Some (Inr (fresh_pid ps))\<rparr>,
      os_dup = \<lambda>k. Inr k\<rparr>"

definition sample_env :: env_os where
  "sample_env =
     \<lparr>vars_os = [(''PATH'', ''/bin'')], file_system = \<lambda>f. Inr ''A=b'', sysconf_pw = -1,
      passwd = \<lambda>u n. PwNotFound, debug_text = \<lambda>e. ''error''\<rparr>"

lemma abs_le_sum_list: "(x :: int) \<in> set xs \<Longrightarrow> \<bar>x\<bar> \<le> sum_list (map abs xs)"
proof (induction xs)
  case (Cons y ys)
  have "0 \<le> sum_list (map abs ys)" by (rule sum_list_nonneg) auto
  with Cons show ?case by auto
qed simp

lemma fresh_pid_fresh: "1 < fresh_pid ps" "fresh_pid ps \<notin> set ps"
proof -
  have "0 \<le> sum_list (map abs ps)" by (rule sum_list_nonneg) auto
  then show "1 < fresh_pid ps" by (simp add: fresh_pid_def)
  show "fresh_pid ps \<notin> set ps" using abs_le_sum_list [of "fresh_pid ps" ps] by (auto simp: fresh_pid_def)
qed

lemma sample_os_ok: "os_ok sample_os"
  unfolding os_ok_def
proof (intro conjI)
  show "kill_ok sample_os" by (simp add: kill_ok_def sample_os_def)
  show "monitor_ok sample_os" by (simp add: monitor_ok_def sample_os_def)
  show "spawn_ok sample_os" by (simp add: spawn_ok_def sample_os_def fresh_pid_fresh)
  show "fds_ok sample_os" by (simp add: fds_ok_def sample_os_def pty_new_def cerr_def)
qed

lemma sample_env_ok: "env_ok sample_env"
  by (simp add: env_ok_def sample_env_def)

text \<open>The bootstrap service is created, the container is told to stop, and its process ends.\<close>

definition sample_run :: "input list" where
  "sample_run = [(sample_os, sample_env, bootstrap_event ''sh'' [''-c''] 10),
     (sample_os, sample_env, Signal_event SIGTERM []),
     (sample_os, sample_env, Signal_event SIGCHLD [((2, eof), signaled_status 15 False)])]"

lemma sample_terminated: "terminated_status (signaled_status 15 False)"
  by (simp add: terminated_status_def wif_signaled_iff unat_signaled)

lemma sample_run_allowed: "list_all allowed_input sample_run"
  by (simp add: sample_run_def allowed_input_def sample_os_ok sample_env_ok waits_ok_def sample_terminated
      bootstrap_event_def)


text \<open>
  A concrete manager for the witnesses: the bootstrap service is process 2, the service
  \<open>web\<close> of user 1000 process 4, and that user's service \<open>shell\<close> with a terminal process 6.
\<close>

definition sample_user :: "u32 \<Rightarrow> credentials" where
  "sample_user u = \<lparr>uid = u, gid = u\<rparr>"

definition sample_config :: "credentials \<Rightarrow> service_config" where
  "sample_config c =
     \<lparr>cmd = ''sleep'', args = [''60''], env = bt_empty, labels = bt_empty, liveness = None,
      pty_flag = False, creds = c, graceful_termination_period = 10\<rparr>"

definition sample_service :: "credentials \<Rightarrow> pid_t \<Rightarrow> service" where
  "sample_service c pid =
     \<lparr>config = sample_config c,
      state = \<lparr>status = Running \<lparr>main_pid = pid, monitor_tx = None\<rparr> None, logs = logs_new 100,
        automatic_restart_attempts = 0, liveness_probe = None,
        publisher = publisher_new (ApiRunning pid None)\<rparr>\<rparr>"

definition sample_pty :: pty where
  "sample_pty = \<lparr>pty_master = 9, pty_path = ''/dev/pts/0''\<rparr>"

definition sample_shell :: service where
  "sample_shell =
     \<lparr>config = (sample_config (sample_user 1000))\<lparr>pty_flag := True\<rparr>,
      state = \<lparr>status = Running \<lparr>main_pid = 6, monitor_tx = Some (7, 8)\<rparr> (Some sample_pty), logs = logs_new 100,
        automatic_restart_attempts = 0, liveness_probe = None,
        publisher = publisher_new (ApiRunning 6 (Some ''/dev/pts/0''))\<rparr>\<rparr>"

definition sample_manager :: manager where
  "sample_manager =
     \<lparr>services = [(BOOTSTRAP_NAME, sample_service root 2), (''shell'', sample_shell),
        (''web'', sample_service (sample_user 1000) 4)],
      user_env_files = [], log_retention_lines = 100, shutdown = False,
      world = \<lparr>clock = 8, procs = [2, 4, 6], trace = []\<rparr>\<rparr>"

lemma sample_service_simps [simp]:
  "creds (config (sample_service c pid)) = c"
  "status (state (sample_service c pid)) = Running \<lparr>main_pid = pid, monitor_tx = None\<rparr> None"
  "creds (config sample_shell) = sample_user 1000"
  "status (state sample_shell) = Running \<lparr>main_pid = 6, monitor_tx = Some (7, 8)\<rparr> (Some sample_pty)"
  by (simp_all add: sample_service_def sample_config_def sample_shell_def)

lemma sample_manager_get [simp]:
  "bt_get (services sample_manager) BOOTSTRAP_NAME = Some (sample_service root 2)"
  "bt_get (services sample_manager) ''web'' = Some (sample_service (sample_user 1000) 4)"
  "bt_get (services sample_manager) ''shell'' = Some sample_shell"
  by (simp_all add: sample_manager_def BOOTSTRAP_NAME_def)

lemma sample_manager_good: "good sample_manager"
proof -
  have svc: "svc_ok 8 name (sample_service c pid)" if "0 < length name" "length name \<le> 255" "1 < pid" for name c pid
    using that by (simp add: svc_ok_def name_ok_def process_ok_def sample_service_def sample_config_def
        validate_def bt_empty_def api_of_status_def publisher_new_def)
  have shell: "svc_ok 8 ''shell'' sample_shell"
    by (simp add: svc_ok_def name_ok_def process_ok_def sample_shell_def sample_config_def validate_def bt_empty_def
        api_of_status_def publisher_new_def sample_pty_def)
  have "bt_inv (services sample_manager)"
    by (simp add: sample_manager_def bt_inv_def BOOTSTRAP_NAME_def)
  moreover have "bt_get (services sample_manager) a = Some s \<longleftrightarrow>
      a = BOOTSTRAP_NAME \<and> s = sample_service root 2 \<or> a = ''shell'' \<and> s = sample_shell \<or>
      a = ''web'' \<and> s = sample_service (sample_user 1000) 4" for a s
    by (auto simp: sample_manager_def BOOTSTRAP_NAME_def)
  ultimately show ?thesis
    using svc shell by (auto simp: good_def inv_except_def quiet_def sample_manager_def proc_in_def proc_apart_def BOOTSTRAP_NAME_def)
qed

end
