(* ===== verification/Isolation.thy ===== *)
theory Isolation
  imports Main_Loop
begin

text \<open>
  What an operation on one service may touch: the entry of that service, and of the
  processes only the one it had. On this rest the isolation of the users from each other
  and the protection of the bootstrap service.
\<close>

section \<open>Effects on processes\<close>

fun effect_about :: "service_process option \<Rightarrow> effect \<Rightarrow> bool" where
  "effect_about po (Kill t sig) = (\<exists>p. po = Some p \<and> \<bar>t\<bar> = main_pid p)"
| "effect_about po (MonitorSent ch c) = (\<exists>p. po = Some p \<and> monitor_tx p = Some ch)"
| "effect_about po _ = True"

definition extends :: "service_process option \<Rightarrow> world \<Rightarrow> world \<Rightarrow> bool" where
  "extends po w w' \<longleftrightarrow> (\<exists>es. trace w' = trace w @ es \<and> list_all (effect_about po) es)"

lemma extends_refl [simp]: "extends po w w"
  by (simp add: extends_def)

lemma extends_trans: "extends po a b \<Longrightarrow> extends po b c \<Longrightarrow> extends po a c"
  by (auto simp: extends_def)

lemma extends_emit [simp]: "list_all (effect_about po) es \<Longrightarrow> extends po w (emit es w)"
  by (auto simp: extends_def)

lemma extends_procs [simp]: "extends po w (w'\<lparr>procs := ps\<rparr>) = extends po w w'"
  by (simp add: extends_def)

lemma send_monitor_extends:
  "send_monitor os ch c w = Inr w' \<Longrightarrow> monitor_tx p = Some ch \<Longrightarrow> extends (Some p) w w'"
  by (auto simp: send_monitor_def outcome_elims)

lemma process_send_signal_extends:
  assumes "process_send_signal os sig p w = Inr w'"
  shows "extends (Some p) w w'"
proof (cases "monitor_tx p")
  case (Some ch)
  then show ?thesis using assms by (auto simp: process_send_signal_def intro: send_monitor_extends)
next
  case None
  then obtain ts r where k: "kill_process_group (\<lambda>k. os_kill os k (procs w)) (clock w) (main_pid p) sig = Inr (ts, r)"
      and w': "w' = emit (map (\<lambda>t. Kill t sig) ts) w"
    using assms by (auto simp: process_send_signal_def outcome_elims)
  have "1 < main_pid p" using k kill_process_group_panic by (metis isOk_simps(1))
  then have "\<forall>t \<in> set ts. \<bar>t\<bar> = main_pid p" using kill_process_group_targets(2) [OF k] by auto
  then show ?thesis by (simp add: w' list_all_iff)
qed

lemma abort_extends: "abort_liveness_probe (s, w) = (s', w') \<Longrightarrow> extends po w w'"
  by (auto simp: abort_liveness_probe_eq split: option.splits)

lemma probe_extends: "spawn_liveness_probe name (s, w) = (s', w') \<Longrightarrow> extends po w w'"
  by (auto simp: spawn_liveness_probe_eq split: option.splits)

lemma open_pty_extends: "open_pty os (s, w) = Inr (r, w') \<Longrightarrow> extends po w w'"
  by (auto simp: open_pty_def and_then_eq_Inr split: if_splits)

lemma make_sink_extends: "make_sink os name t (s, w) = Inr (snk, s', w') \<Longrightarrow> extends po w w'"
  by (auto simp: make_sink_def new_log_writer_def and_then_eq_Inr list_all_iff split: option.splits sum.splits)

lemma world_spawn_extends: "world_spawn os c snk w = Inr (r, w') \<Longrightarrow> extends po w w'"
  by (auto simp: world_spawn_def split: option.splits sum.splits)

section \<open>Touching one service\<close>

definition process_at :: "manager \<Rightarrow> string \<Rightarrow> service_process option" where
  "process_at m name = Option.bind (bt_get (services m) name) (\<lambda>s. process_of (status (state s)))"

definition touches :: "string \<Rightarrow> manager \<Rightarrow> manager \<Rightarrow> bool" where
  "touches name m m' \<longleftrightarrow> (\<forall>a. a \<noteq> name \<longrightarrow> bt_get (services m') a = bt_get (services m) a) \<and>
     extends (process_at m name) (world m) (world m')"

lemma touches_refl [simp]: "touches name m m"
  by (simp add: touches_def)

lemma touches_put: "extends (process_at m name) (world m) w \<Longrightarrow> touches name m (put name s (with_world w m))"
  by (simp add: touches_def)

lemma touches_world: "extends (process_at m name) (world m) w \<Longrightarrow> touches name m (with_world w m)"
  by (simp add: touches_def)

lemma start_failed_touches:
  "start_failed name err s w m = Inr (r, m') \<Longrightarrow> extends (process_at m name) (world m) w \<Longrightarrow> touches name m m'"
  by (auto simp: start_failed_def and_then_eq_Inr touches_put)

lemma start_service_touches:
  assumes "start_service os c name reason m = Inr (r, m')"
  shows "touches name m m'"
proof -
  note ext = open_pty_extends make_sink_extends world_spawn_extends probe_extends
  show ?thesis
  proof (cases "\<not> shutdown m \<and> (\<exists>s. bt_get (services m) name = Some s \<and> isOk (check_credentials s c))")
    case False
    then have "m' = m"
      using assms by (auto simp: start_service_def or_error_def outcome_elims split: if_splits)
    then show ?thesis by simp
  next
    case True
    from True assms show ?thesis
      by (auto simp: start_service_def or_error_def outcome_elims Let_def
          intro!: touches_put elim!: start_failed_touches) (meson ext extends_trans)+
  qed
qed

lemma store_touches:
  assumes "store name x m r = Inr (y, m')"
    and "\<And>s w. r = Inr (s, w) \<Longrightarrow> extends (process_at m name) (world m) w"
  shows "touches name m m'"
  using assms by (auto simp: store_def outcome_elims intro: touches_put)

lemma keep_status_extends: "keep_status st (s, w) = Inr (s', w') \<Longrightarrow> extends po w w'"
  by (auto simp: keep_status_def outcome_elims)

lemma freeze_running_extends: "freeze_running os p t (s, w) = Inr (s', w') \<Longrightarrow> extends (Some p) w w'"
  by (auto simp: freeze_running_def outcome_elims dest!: abort_extends [where po = "Some p"]
      dest: process_send_signal_extends intro: extends_trans)

lemma thaw_frozen_extends: "thaw_frozen os name p t (s, w) = Inr (s', w') \<Longrightarrow> extends (Some p) w w'"
  by (auto simp: thaw_frozen_def outcome_elims dest!: probe_extends [where po = "Some p"]
      dest: process_send_signal_extends intro: extends_trans)

lemma terminate_frozen_extends: "terminate_frozen os r p (s, w) = Inr (s', w') \<Longrightarrow> extends (Some p) w w'"
  by (auto simp: terminate_frozen_def outcome_elims dest: process_send_signal_extends)

lemma terminate_running_extends:
  assumes "terminate_running os name r p (s, w) = Inr (s', w')"
  shows "extends (Some p) w w'"
proof -
  obtain s1 w1 w2 where "abort_liveness_probe (s, w) = (s1, w1)" "process_send_signal os SIGTERM p w1 = Inr w2"
    and w': "process_send_signal os SIGKILL p w2 = Inr w' \<or> (\<exists>t g. w' = emit [KillTimer t g name t] w2)"
    using assms by (auto simp: terminate_running_def outcome_elims Let_def split: if_splits)
  then have "extends (Some p) w w2"
    using abort_extends process_send_signal_extends extends_trans by metis
  moreover have "extends (Some p) w2 w'" using w' process_send_signal_extends by auto
  ultimately show ?thesis by (rule extends_trans)
qed

lemma process_at_get:
  "bt_get (services m) name = Some s \<Longrightarrow> process_at m name = process_of (status (state s))"
  by (simp add: process_at_def)

lemma touches_after_put:
  assumes "touches name (put name s m) m'" "process_of (status (state s)) = None"
  shows "touches name m m'"
proof -
  have "effect_about None e \<Longrightarrow> effect_about po e" for e po by (cases e) auto
  then have "extends None a b \<Longrightarrow> extends po a b" for a b po by (auto simp: extends_def list_all_iff)
  with assms show ?thesis by (auto simp: touches_def process_at_def)
qed

lemma terminate_inner_touches:
  assumes "bt_inv (services m)" "terminate_service_inner os c name requested m = Inr (r, m')"
  shows "touches name m m'"
proof (cases "bt_get (services m) name")
  case None
  then show ?thesis using assms(2) by (simp add: terminate_service_inner_def)
next
  case (Some s)
  note at = process_at_get [OF Some]
  have fin: "touches name m m'" if st: "process_of (status (state s)) = None" "status (state s) \<noteq> Dummy"
  proof -
    from st assms(2) Some
    have res: "(case requested of
        Stop \<Rightarrow> store name () m (keep_status (status (state s)) (replace_dummy s, world m))
      | PruneAfter \<Rightarrow> Inr (Inr (), m\<lparr>services := bt_remove name (services m)\<rparr>)
      | Restart reason \<Rightarrow> start_service os c name reason (put name (replace_dummy s) m)) = Inr (r, m')"
      by (cases "status (state s)"; cases requested) (auto simp: terminate_service_inner_def Let_def)
    show ?thesis
    proof (cases requested)
      case Stop
      with res show ?thesis
        by (auto elim!: store_touches intro: keep_status_extends)
    next
      case PruneAfter
      with res show ?thesis
        using assms(1) by (auto simp: touches_def)
    next
      case (Restart reason)
      with res show ?thesis
        by (intro touches_after_put [OF start_service_touches]) auto
    qed
  qed
  show ?thesis
  proof (cases "status (state s)")
    case (Running p t)
    then show ?thesis using assms(2) Some at
      by (auto simp: terminate_service_inner_def elim!: store_touches intro: terminate_running_extends)
  next
    case (Frozen p t)
    then show ?thesis using assms(2) Some at
      by (auto simp: terminate_service_inner_def elim!: store_touches intro: terminate_frozen_extends)
  next
    case (Stopping p after pending)
    then show ?thesis using assms(2) Some at
      by (auto simp: terminate_service_inner_def elim!: store_touches intro: keep_status_extends)
  next
    case Dummy
    then show ?thesis using assms(2) Some by (simp add: terminate_service_inner_def)
  qed (use fin in auto)
qed

section \<open>Guarded operations\<close>

text \<open>
  The client may modify the service: it exists, it is not the bootstrap service, and the
  client is root or the user the service runs as.
\<close>

definition may_modify :: "credentials \<Rightarrow> string \<Rightarrow> manager \<Rightarrow> bool" where
  "may_modify c name m \<longleftrightarrow> name \<noteq> BOOTSTRAP_NAME \<and>
     (\<exists>s. bt_get (services m) name = Some s \<and> isOk (check_credentials s c))"

definition guarded :: "credentials \<Rightarrow> string \<Rightarrow> manager \<Rightarrow> 'a outcome \<Rightarrow> bool" where
  "guarded c name m out \<longleftrightarrow> (\<forall>r m'. out = Inr (r, m') \<longrightarrow>
     (m' = m \<and> (may_modify c name m \<or> \<not> isOk r)) \<or> (may_modify c name m \<and> touches name m m'))"

lemma guarded_mut:
  assumes "\<And>s r m'. bt_get (services m) name = Some s \<Longrightarrow> f s = Inr (r, m') \<Longrightarrow> touches name m m'"
  shows "guarded c name m (or_error m (get_service_mut m c name) f)"
  using assms
  by (auto simp: guarded_def or_error_def outcome_elims may_modify_def get_service_mut_Inr)

lemma touches_signal:
  assumes "bt_get (services m) name = Some s" "process_of (status (state s)) = Some p"
    and "and_then (process_send_signal os sig p (world m)) (\<lambda>w. Inr (x, with_world w m)) = Inr (r, m')"
  shows "touches name m m'"
  using assms by (auto simp: and_then_eq_Inr process_at_get intro!: touches_world process_send_signal_extends)

lemma freeze_guarded: "guarded c name m (freeze_service os c name m)"
  unfolding freeze_service_def
proof (rule guarded_mut)
  fix s r m'
  assume "bt_get (services m) name = Some s"
    and "store name () m (case status (state s) of
           Running process terminal \<Rightarrow> freeze_running os process terminal (replace_dummy s, world m)
         | Dummy \<Rightarrow> Inl ''unreachable''
         | st \<Rightarrow> keep_status st (replace_dummy s, world m)) = Inr (r, m')"
  then show "touches name m m'"
    by (cases "status (state s)")
      (auto simp: process_at_get elim!: store_touches intro: keep_status_extends freeze_running_extends)
qed

lemma thaw_guarded: "guarded c name m (thaw_service os c name m)"
  unfolding thaw_service_def
proof (rule guarded_mut)
  fix s r m'
  assume "bt_get (services m) name = Some s"
    and "store name () m (case status (state s) of
           Frozen process terminal \<Rightarrow> thaw_frozen os name process terminal (replace_dummy s, world m)
         | Dummy \<Rightarrow> Inl ''unreachable''
         | st \<Rightarrow> keep_status st (replace_dummy s, world m)) = Inr (r, m')"
  then show "touches name m m'"
    by (cases "status (state s)")
      (auto simp: process_at_get elim!: store_touches intro: keep_status_extends thaw_frozen_extends)
qed

lemma send_signal_guarded: "guarded c name m (send_signal os c name sig m)"
  unfolding send_signal_def
proof (rule guarded_mut)
  fix s r m'
  assume get: "bt_get (services m) name = Some s"
    and res: "(if sig \<le> 0 \<or> 32 \<le> sig then
         Inr (Inl (InvalidRequest (''Signal '' @ show_int sig @ '' is not valid'')), m)
       else
         (let send = (\<lambda>process.
              and_then (process_send_signal os sig process (world m)) (\<lambda>w. Inr (Inr (), with_world w m))) in
          case status (state s) of
            Running process terminal \<Rightarrow> send process
          | Frozen process terminal \<Rightarrow> send process
          | Stopping process after pending \<Rightarrow> send process
          | Dummy \<Rightarrow> Inl ''unreachable''
          | _ \<Rightarrow> Inr (Inr (), m))) = Inr (r, m')"
  show "touches name m m'"
    using res by (cases "status (state s)") (auto split: if_splits intro: touches_signal [OF get, rotated])
qed

lemma notify_guarded: "guarded c name m (notify_pty command os c name m)"
  unfolding notify_pty_def
proof (rule guarded_mut)
  fix s r m'
  assume get: "bt_get (services m) name = Some s"
    and res: "(let notify = (\<lambda>process. case monitor_tx process of
             None \<Rightarrow> Inr (Inr (), m)
           | Some ch \<Rightarrow> and_then (send_monitor os ch command (world m)) (\<lambda>w. Inr (Inr (), with_world w m))) in
       case status (state s) of
         Running process terminal \<Rightarrow> notify process
       | Frozen process terminal \<Rightarrow> notify process
       | Dummy \<Rightarrow> Inl ''unreachable''
       | _ \<Rightarrow> Inr (Inr (), m)) = Inr (r, m')"
  have "touches name m m'" if "process_of (status (state s)) = Some p"
    "(case monitor_tx p of None \<Rightarrow> Inr (Inr (), m)
      | Some ch \<Rightarrow> and_then (send_monitor os ch command (world m)) (\<lambda>w. Inr (Inr (), with_world w m))) = Inr (r, m')" for p
    using that process_at_get [OF get]
    by (auto simp: outcome_elims intro!: touches_world send_monitor_extends)
  then show "touches name m m'" using res by (cases "status (state s)") auto
qed

lemma terminate_guarded:
  assumes "bt_inv (services m)"
  shows "guarded c name m (terminate_service os c name intent m)"
  unfolding terminate_service_def
  by (rule guarded_mut) (auto split: if_splits intro: terminate_inner_touches [OF assms])

lemma stop_cmd_guarded:
  assumes "bt_inv (services m)"
  shows "guarded c name m (stop_service_cmd os c name after m)"
proof (cases "get_service m c name")
  case (Inl e)
  then show ?thesis by (simp add: stop_service_cmd_def guarded_def)
next
  case (Inr s)
  then have "may_modify (creds (config s)) name m \<Longrightarrow> may_modify c name m"
    by (auto simp: get_service_Inr may_modify_def)
  then show ?thesis
    using terminate_guarded [OF assms, of "creds (config s)" name os after] Inr
    by (auto simp: stop_service_cmd_def guarded_def)
qed

lemma done_unit_guarded: "guarded c name m out \<Longrightarrow> guarded c name m (done_unit out)"
  by (auto simp: guarded_def done_unit_def then_do_def outcome_elims)

lemma then_do_Inr:
  "then_do out f = Inr (r, m') \<longleftrightarrow>
     (\<exists>e. out = Inr (Inl e, m') \<and> r = Inl e) \<or> (\<exists>x m1. out = Inr (Inr x, m1) \<and> f x m1 = Inr (r, m'))"
  by (auto simp: then_do_def outcome_elims)

lemma create_command_touches:
  assumes "create_command os e c name req m = Inr (r, m')"
  shows "(m' = m \<and> \<not> isOk r) \<or> (bt_get (services m) name = None \<and> touches name m m')"
proof -
  obtain v where v: "v = Inl () \<or> v = Inr ()" "v = Inr () \<or> (m' = m \<and> \<not> isOk r)"
    and create: "v = Inr () \<Longrightarrow> \<exists>vars x m1. create_service name (config_of_request req vars c) m = Inr (x, m1) \<and>
      ((\<not> isOk x \<and> \<not> isOk r \<and> m' = m1) \<or> (isOk x \<and> (\<exists>y. start_service os c name User m1 = Inr (y, m'))))"
    using assms
    by (cases "\<exists>e. r = Inl e \<and> m' = m")
      (force simp: create_command_def or_error_def outcome_elims then_do_Inr)+
  show ?thesis
  proof (cases "v = Inr ()")
    case False
    then show ?thesis using v by auto
  next
    case True
    then obtain vars x m1 where c: "create_service name (config_of_request req vars c) m = Inr (x, m1)"
      and rest: "(\<not> isOk x \<and> \<not> isOk r \<and> m' = m1) \<or> (isOk x \<and> (\<exists>y. start_service os c name User m1 = Inr (y, m')))"
      using create by blast
    show ?thesis
    proof (cases rule: create_service_cases [of name "config_of_request req vars c" m])
      case (refused err)
      then show ?thesis using c rest by auto
    next
      case created
      let ?s = "new_service (config_of_request req vars c) (log_retention_lines m)"
      have "touches name (put name ?s m) m'" using rest c created(1) start_service_touches by auto
      then have "touches name m m'" by (rule touches_after_put) (simp add: new_service_def)
      then show ?thesis using created(4) by simp
    qed
  qed
qed

fun target_of :: "command \<Rightarrow> string option" where
  "target_of (CreateService name _) = Some name"
| "target_of (RestartService name) = Some name"
| "target_of (StopService name _) = Some name"
| "target_of (FreezeService name) = Some name"
| "target_of (ThawService name) = Some name"
| "target_of (ShowService name) = Some name"
| "target_of ListServices = None"
| "target_of (ServiceLogs name _) = Some name"
| "target_of (NotifyPtyAttached name) = Some name"
| "target_of (NotifyPtyDetached name) = Some name"
| "target_of (SendSignal name _) = Some name"
| "target_of (ForceKillService name _) = Some name"

text \<open>The commands that arrive through the API's routes: all but the timer's own.\<close>

fun from_client :: "command \<Rightarrow> bool" where
  "from_client (ForceKillService _ _) = False"
| "from_client _ = True"

lemma read_denied:
  assumes "or_error m (and_then (get_service m c name) g) f = Inr (r, m')" "bt_get (services m) name = Some s"
    "\<not> isOk (check_credentials s c)"
  shows "m' = m \<and> r = Inl InvalidCredentials"
  using assms by (auto simp: or_error_def get_service_def check_credentials_def split: if_splits)

text \<open>What a client's command does: nothing, or something to one service it may modify or creates.\<close>

lemma command_effect:
  assumes bt: "bt_inv (services m)" and client: "from_client command"
    and res: "handle_api_command os e command c m = Inr (r, m')"
  shows "m' = m \<or> (\<exists>name. target_of command = Some name \<and> touches name m m' \<and>
    (may_modify c name m \<or> bt_get (services m) name = None))"
proof (cases command)
  case (CreateService name req)
  then show ?thesis using res create_command_touches by fastforce
next
  case (ShowService name)
  then show ?thesis using res by (auto simp: or_error_def outcome_elims)
next
  case ListServices
  then show ?thesis using res by (auto simp: list_command_def outcome_elims)
next
  case (ServiceLogs name follow)
  then show ?thesis using res by (auto simp: or_error_def outcome_elims split: if_splits)
next
  case (ForceKillService name tok)
  then show ?thesis using client by simp
qed (use res bt in \<open>auto simp: guarded_def notify_pty_attached_def notify_pty_detached_def
    dest!: done_unit_guarded [OF stop_cmd_guarded, unfolded guarded_def, rule_format, rotated]
      done_unit_guarded [OF freeze_guarded, unfolded guarded_def, rule_format]
      done_unit_guarded [OF thaw_guarded, unfolded guarded_def, rule_format]
      done_unit_guarded [OF send_signal_guarded, unfolded guarded_def, rule_format]
      done_unit_guarded [OF notify_guarded, unfolded guarded_def, rule_format]\<close>)

text \<open>A command that names a service the client may not modify, and does not read, is refused.\<close>

fun reads_only :: "command \<Rightarrow> bool" where
  "reads_only (ShowService _) = True"
| "reads_only (ServiceLogs _ _) = True"
| "reads_only ListServices = True"
| "reads_only _ = False"

lemma guarded_refused: "guarded c name m out \<Longrightarrow> \<not> may_modify c name m \<Longrightarrow> out = Inr (r, m') \<Longrightarrow> m' = m \<and> \<not> isOk r"
  by (auto simp: guarded_def)

lemma modify_refused:
  assumes bt: "bt_inv (services m)" and client: "from_client command" "\<not> reads_only command"
    and target: "target_of command = Some name" and s: "bt_get (services m) name = Some s"
    and no: "\<not> may_modify c name m"
    and res: "handle_api_command os e command c m = Inr (r, m')"
  shows "m' = m \<and> \<not> isOk r"
proof (cases command)
  case (CreateService n req)
  then show ?thesis using res target s create_command_touches by fastforce
next
  case (RestartService n)
  then show ?thesis using res target
    by (intro guarded_refused [OF done_unit_guarded [OF stop_cmd_guarded [OF bt]] no]) auto
next
  case (StopService n prune)
  then show ?thesis using res target
    by (intro guarded_refused [OF done_unit_guarded [OF stop_cmd_guarded [OF bt]] no]) auto
next
  case (FreezeService n)
  then show ?thesis using res target
    by (intro guarded_refused [OF done_unit_guarded [OF freeze_guarded] no]) auto
next
  case (ThawService n)
  then show ?thesis using res target
    by (intro guarded_refused [OF done_unit_guarded [OF thaw_guarded] no]) auto
next
  case (NotifyPtyAttached n)
  then show ?thesis using res target
    by (intro guarded_refused [OF done_unit_guarded [OF notify_guarded] no]) (auto simp: notify_pty_attached_def)
next
  case (NotifyPtyDetached n)
  then show ?thesis using res target
    by (intro guarded_refused [OF done_unit_guarded [OF notify_guarded] no]) (auto simp: notify_pty_detached_def)
next
  case (SendSignal n sig)
  then show ?thesis using res target
    by (intro guarded_refused [OF done_unit_guarded [OF send_signal_guarded] no]) auto
qed (use client target in auto)

lemma read_refused:
  assumes "reads_only command" "target_of command = Some name" "bt_get (services m) name = Some s"
    "\<not> isOk (check_credentials s c)" "handle_api_command os e command c m = Inr (r, m')"
  shows "r = Inl InvalidCredentials"
  using assms
  by (cases command)
    (auto simp: or_error_def get_service_def log_reader_def manager_copy_logs_def check_credentials_def
      split: if_splits)

definition new_effects :: "manager \<Rightarrow> manager \<Rightarrow> effect list" where
  "new_effects m m' = drop (length (trace (world m))) (trace (world m'))"

lemma touches_effects: "touches name m m' \<Longrightarrow> x \<in> set (new_effects m m') \<Longrightarrow> effect_about (process_at m name) x"
  by (auto simp: touches_def extends_def new_effects_def list_all_iff)

lemma touches_other:
  assumes good: "good m" and t: "touches name m m'" and s: "bt_get (services m) a = Some s" "a \<noteq> name"
  shows "bt_get (services m') a = Some s"
    and "process_of (status (state s)) = Some p \<Longrightarrow> Kill target sig \<in> set (new_effects m m') \<Longrightarrow> \<bar>target\<bar> \<noteq> main_pid p"
proof -
  show "bt_get (services m') a = Some s" using t s by (simp add: touches_def)
  assume p: "process_of (status (state s)) = Some p" and k: "Kill target sig \<in> set (new_effects m m')"
  obtain u q where u: "bt_get (services m) name = Some u" "process_of (status (state u)) = Some q" "\<bar>target\<bar> = main_pid q"
    using touches_effects [OF t k] by (auto simp: process_at_def Option.bind_eq_Some_conv)
  have "proc_apart s u" using good inv_get_apart [OF _ s(1) u(1)] s(2) by (auto simp: good_def)
  then show "\<bar>target\<bar> \<noteq> main_pid p" using u p by (auto simp: proc_apart_def)
qed

lemma list_command_owned:
  assumes "bt_inv (services m)" "list_command c m = Inr (Inr (JsonServices l), m')"
    and "bt_get (services m) name = Some s" "\<not> isOk (check_credentials s c)"
  shows "bt_get l name = None"
proof -
  obtain xs where xs: "collect_results (\<lambda>(name, st). and_then (api_of_status st) (\<lambda>a. Inr (name, a))) (list_services m c) = Inr xs"
    and l: "l = bt_from_iter xs" using assms(2) by (auto simp: list_command_def outcome_elims)
  have "map fst xs = map fst (list_services m c)"
    using xs unfolding collect_results_Inr
    by (induction rule: list_all2_induct) (auto simp: outcome_elims)
  moreover have "name \<notin> fst ` set (list_services m c)"
    using assms(1,3,4) by (auto simp: list_services_def simp flip: bt_get_Some_iff)
  ultimately have "name \<notin> fst ` set xs" by (metis list.set_map)
  then show ?thesis by (simp add: l bt_get_from_iter map_of_eq_None_iff)
qed



text \<open>
  C7: the bootstrap service is protected: no client command, not even root's, changes it or
  signals its process; those that would are refused.
\<close>

theorem bootstrap_protected:
  assumes good: "good m" and client: "from_client command"
    and res: "handle_api_command os e command c m = Inr (r, m')"
    and s: "bt_get (services m) BOOTSTRAP_NAME = Some s"
  shows "bt_get (services m') BOOTSTRAP_NAME = Some s \<and>
    (\<forall>p target sig. process_of (status (state s)) = Some p \<and> Kill target sig \<in> set (new_effects m m') \<longrightarrow>
       \<bar>target\<bar> \<noteq> main_pid p) \<and>
    (target_of command = Some BOOTSTRAP_NAME \<and> \<not> reads_only command \<longrightarrow> m' = m \<and> \<not> isOk r)"
proof -
  have bt: "bt_inv (services m)" using good by (auto simp: good_def inv_bt)
  have nomod: "\<not> may_modify c BOOTSTRAP_NAME m" by (simp add: may_modify_def)
  note refused = modify_refused [OF bt client _ _ s nomod res]
  from command_effect [OF bt client res] show ?thesis
  proof
    assume "m' = m"
    then show ?thesis using s refused by (auto simp: new_effects_def)
  next
    assume "\<exists>a. target_of command = Some a \<and> touches a m m' \<and> (may_modify c a m \<or> bt_get (services m) a = None)"
    then obtain a where a: "touches a m m'" "may_modify c a m \<or> bt_get (services m) a = None" by blast
    then have "BOOTSTRAP_NAME \<noteq> a" using nomod s by auto
    then show ?thesis using touches_other [OF good a(1) s] refused by blast
  qed
qed

text \<open>Not even root can stop the bootstrap service.\<close>

theorem bootstrap_protected_witness:
  "\<exists>s r m'. bt_get (services sample_manager) BOOTSTRAP_NAME = Some s \<and> process_of (status (state s)) \<noteq> None \<and>
     handle_api_command sample_os sample_env (StopService BOOTSTRAP_NAME True) root sample_manager = Inr (r, m') \<and>
     m' = sample_manager \<and> \<not> isOk r"
proof -
  obtain r m' where r: "handle_api_command sample_os sample_env (StopService BOOTSTRAP_NAME True) root sample_manager = Inr (r, m')"
    using handle_api_command_ok [OF sample_os_ok sample_env_ok sample_manager_good] unfolding ok_outcome_def by blast
  from bootstrap_protected [OF sample_manager_good _ r] r show ?thesis by simp
qed

end
