(* ===== verification/Lifecycle.thy ===== *)
theory Lifecycle
  imports Isolation
begin

text \<open>
  The life of a service: the abstract state machine every operation refines, how requests
  to stop combine, what a child's death does, stale timers and probes, and the completion of
  the shutdown.
\<close>

section \<open>Combining requests to stop\<close>

text \<open>
  C37: how requests that arrive while a service is stopping combine: pruning is never taken
  back, an automatic restart never changes what was decided, otherwise the last user request
  counts; so the outcome of a sequence depends only on whether it prunes and on its last
  request that is not automatic.
\<close>

theorem merge_sequence:
  "fold (\<lambda>r a. merge a r) rs a =
     (if PruneAfter \<in> set (a # rs) then PruneAfter
      else last (a # filter (\<lambda>r. r \<noteq> Restart Automatic) rs))"
proof (induction rs arbitrary: a)
  case Nil
  then show ?case by simp
next
  case (Cons r rs)
  have "merge a r = (if a = PruneAfter \<or> r = PruneAfter then PruneAfter else if r = Restart Automatic then a else r)"
    by (induction a r rule: merge.induct) auto
  with Cons.IH [of "merge a r"] show ?case by auto
qed

section \<open>The abstract state machine\<close>

text \<open>A service as its clients see it: absent, or in a phase; a process is its pid.\<close>

datatype phase =
    Absent
  | AStopped
  | ARunning pid_t
  | AFrozen pid_t
  | AStopping pid_t after_stop
  | AExited raw_status
  | AError

fun phase_of :: "service_status \<Rightarrow> phase" where
  "phase_of Stopped = AStopped"
| "phase_of (Running p _) = ARunning (main_pid p)"
| "phase_of (Frozen p _) = AFrozen (main_pid p)"
| "phase_of (Stopping p after _) = AStopping (main_pid p) after"
| "phase_of (Exited st) = AExited st"
| "phase_of (Error e) = AError"
| "phase_of Dummy = Absent"

definition phase :: "manager \<Rightarrow> string \<Rightarrow> phase" where
  "phase m name = (case bt_get (services m) name of None \<Rightarrow> Absent | Some s \<Rightarrow> phase_of (status (state s)))"

datatype label = LCreate | LFreeze | LThaw | LTerminate after_stop | LExit pid_t raw_status

definition at_rest :: "phase \<Rightarrow> bool" where
  "at_rest q \<longleftrightarrow> q \<in> {AStopped, AError} \<union> range AExited"

text \<open>A start leads to a process of its own or to the error state.\<close>

definition started_phase :: "phase \<Rightarrow> bool" where
  "started_phase q \<longleftrightarrow> q = AError \<or> (\<exists>pid > 1. q = ARunning pid)"

inductive life :: "phase \<Rightarrow> label \<Rightarrow> phase \<Rightarrow> bool" where
  create: "started_phase q \<Longrightarrow> life Absent LCreate q"
| freeze: "life (ARunning pid) LFreeze (AFrozen pid)"
| freeze_other: "\<nexists>pid. q = ARunning pid \<Longrightarrow> q \<noteq> Absent \<Longrightarrow> life q LFreeze q"
| thaw: "life (AFrozen pid) LThaw (ARunning pid)"
| thaw_other: "\<nexists>pid. q = AFrozen pid \<Longrightarrow> q \<noteq> Absent \<Longrightarrow> life q LThaw q"
| stop_running: "life (ARunning pid) (LTerminate r) (AStopping pid r)"
| stop_frozen: "life (AFrozen pid) (LTerminate r) (AStopping pid r)"
| stop_stopping: "life (AStopping pid a) (LTerminate r) (AStopping pid (merge a r))"
| stop_rest: "at_rest q \<Longrightarrow> life q (LTerminate Stop) q"
| prune_rest: "at_rest q \<Longrightarrow> life q (LTerminate PruneAfter) Absent"
| restart_rest: "at_rest q \<Longrightarrow> started_phase q' \<Longrightarrow> life q (LTerminate (Restart r)) q'"
| exit_running: "life (ARunning pid) (LExit pid st) (AExited st)"
| exit_frozen: "life (AFrozen pid) (LExit pid st) (AExited st)"
| exit_stopped: "life (AStopping pid Stop) (LExit pid st) AStopped"
| exit_pruned: "life (AStopping pid PruneAfter) (LExit pid st) Absent"
| exit_restarted: "started_phase q \<Longrightarrow> life (AStopping pid (Restart r)) (LExit pid st) q"

inductive_cases life_LTerminateE: "life q (LTerminate r) q'"
inductive_cases life_LExitE: "life q (LExit pid st) q'"
inductive_simps life_Absent [simp]: "life Absent l q"

section \<open>The operations refine it\<close>

lemma phase_get: "bt_get (services m) name = Some s \<Longrightarrow> phase m name = phase_of (status (state s))"
  by (simp add: phase_def)

lemma phase_put [simp]: "phase (put name s m) a = (if a = name then phase_of (status (state s)) else phase m a)"
  by (simp add: phase_def)

lemma phase_world [simp]: "phase (with_world w m) a = phase m a"
  by (simp add: phase_def)

lemma phase_services: "services m' = services m \<Longrightarrow> phase m' a = phase m a"
  by (simp add: phase_def)

lemma touches_phase: "touches name m m' \<Longrightarrow> a \<noteq> name \<Longrightarrow> phase m' a = phase m a"
  by (simp add: touches_def phase_def)

lemma at_rest_finished: "finished st \<Longrightarrow> at_rest (phase_of st)"
  by (cases st) (auto simp: finished_def at_rest_def)

lemma start_phase:
  assumes os: "os_ok os" and s: "\<not> shutdown m" "bt_get (services m) name = Some s" "isOk (check_credentials s c)"
    and res: "start_service os c name reason m = Inr (r, m')"
  shows "started_phase (phase m' name) \<and> (\<forall>a. a \<noteq> name \<longrightarrow> phase m' a = phase m a)"
  by (cases rule: start_service_spec [OF os s, of reason]) (use res in \<open>auto simp: started_phase_def\<close>)

lemma start_refused:
  assumes "shutdown m \<or> bt_get (services m) name = None \<or>
      (\<exists>s. bt_get (services m) name = Some s \<and> \<not> isOk (check_credentials s c))"
    and "start_service os c name reason m = Inr (r, m')"
  shows "m' = m \<and> \<not> isOk r"
  using assms by (auto simp: start_service_def or_error_def outcome_elims check_credentials_def split: if_splits)

text \<open>An operation that stores one service in the status \<open>st\<close>.\<close>

lemma store_phase:
  assumes "sound m" "bt_get (services m) name = Some s" "moves_to m name s st out"
    and "process_of st = None \<or> process_of st = process_of (status (state s))"
    and "store name x m out = Inr (r, m')"
  shows "phase m' name = phase_of st \<and> (\<forall>a. a \<noteq> name \<longrightarrow> phase m' a = phase m a)"
  by (rule store_inv [OF assms(1-4), of x]) (use assms(5) in auto)

lemma same_status_moves:
  assumes "sound m" "bt_get (services m) name = Some s"
  shows "moves_to m name s (status (state s)) (keep_status (status (state s)) (replace_dummy s, world m))"
proof (rule keep_status_moves)
  note ok = inv_get [OF assms, THEN conjunct1]
  then show "isOk (api_of_status (status (state s)))" "process_ok (config s) (status (state s))"
    "terminal_ok (pty_flag (config s)) (status (state s))" "svc_ok (clock (world m)) name s"
    "pending_ok (clock (world m)) (graceful_termination_period (config s)) (status (state s))"
    by (simp_all add: svc_ok_def)
qed simp

lemma not_dummy: "sound m \<Longrightarrow> bt_get (services m) name = Some s \<Longrightarrow> status (state s) \<noteq> Dummy"
  using inv_get by (fastforce simp: svc_ok_def api_of_status_def)

lemma freeze_phase:
  assumes os: "os_ok os" and sound: "sound m" and res: "freeze_service os c name m = Inr (r, m')"
  shows "life (phase m name) LFreeze (phase m' name) \<or> (m' = m \<and> \<not> isOk r)"
proof (cases "get_service_mut m c name")
  case (Inl e)
  then show ?thesis using res by (auto simp: freeze_service_def)
next
  case (Inr s)
  then have s: "bt_get (services m) name = Some s" by (simp add: get_service_mut_Inr)
  show ?thesis
  proof (cases "\<exists>p t. status (state s) = Running p t")
    case True
    then obtain p t where p: "status (state s) = Running p t" by blast
    then have "store name () m (freeze_running os p t (replace_dummy s, world m)) = Inr (r, m')"
      using res Inr by (simp add: freeze_service_def)
    from store_phase [OF sound s freeze_running_moves [OF os sound s p] _ this] p
    show ?thesis by (auto simp: phase_get [OF s] intro: life.freeze)
  next
    case False
    then have "store name () m (keep_status (status (state s)) (replace_dummy s, world m)) = Inr (r, m')"
      using res Inr not_dummy [OF sound s] by (cases "status (state s)") (auto simp: freeze_service_def)
    from store_phase [OF sound s same_status_moves [OF sound s] _ this] False not_dummy [OF sound s]
    show ?thesis by (cases "status (state s)") (auto simp: phase_get [OF s] intro: life.freeze_other)
  qed
qed

lemma thaw_phase:
  assumes os: "os_ok os" and sound: "sound m" and res: "thaw_service os c name m = Inr (r, m')"
  shows "life (phase m name) LThaw (phase m' name) \<or> (m' = m \<and> \<not> isOk r)"
proof (cases "get_service_mut m c name")
  case (Inl e)
  then show ?thesis using res by (auto simp: thaw_service_def)
next
  case (Inr s)
  then have s: "bt_get (services m) name = Some s" by (simp add: get_service_mut_Inr)
  show ?thesis
  proof (cases "\<exists>p t. status (state s) = Frozen p t")
    case True
    then obtain p t where p: "status (state s) = Frozen p t" by blast
    then have "store name () m (thaw_frozen os name p t (replace_dummy s, world m)) = Inr (r, m')"
      using res Inr by (simp add: thaw_service_def)
    from store_phase [OF sound s thaw_frozen_moves [OF os sound s p] _ this] p
    show ?thesis by (auto simp: phase_get [OF s] intro: life.thaw)
  next
    case False
    then have "store name () m (keep_status (status (state s)) (replace_dummy s, world m)) = Inr (r, m')"
      using res Inr not_dummy [OF sound s] by (cases "status (state s)") (auto simp: thaw_service_def)
    from store_phase [OF sound s same_status_moves [OF sound s] _ this] False not_dummy [OF sound s]
    show ?thesis by (cases "status (state s)") (auto simp: phase_get [OF s] intro: life.thaw_other)
  qed
qed

text \<open>Termination: one step, whatever the status; a refused restart leaves everything.\<close>

lemma terminate_inner_phase:
  assumes os: "os_ok os" and sound: "sound m" and s: "bt_get (services m) name = Some s"
    and restart: "is_restart requested \<longrightarrow> \<not> shutdown m \<and> isOk (check_credentials s c)"
    and res: "terminate_service_inner os c name requested m = Inr (r, m')"
  shows "life (phase m name) (LTerminate requested) (phase m' name) \<and> (\<forall>a. a \<noteq> name \<longrightarrow> phase m' a = phase m a)"
proof -
  note ph = phase_get [OF s]
  have rest: ?thesis if fin: "finished (status (state s))"
  proof -
    have at: "at_rest (phase m name)" using at_rest_finished [OF fin] ph by simp
    have eq: "(case requested of
        Stop \<Rightarrow> store name () m (keep_status (status (state s)) (replace_dummy s, world m))
      | PruneAfter \<Rightarrow> Inr (Inr (), m\<lparr>services := bt_remove name (services m)\<rparr>)
      | Restart reason \<Rightarrow> start_service os c name reason (put name (replace_dummy s) m)) = Inr (r, m')"
      using fin s res by (cases "status (state s)"; cases requested)
        (auto simp: terminate_service_inner_def Let_def finished_def)
    show ?thesis
    proof (cases requested)
      case Stop
      with eq store_phase [OF sound s same_status_moves [OF sound s], where x = "()" and r = r and m' = m'] at ph
      show ?thesis by (auto intro: life.stop_rest)
    next
      case PruneAfter
      with eq at inv_bt [OF sound] show ?thesis by (auto simp: phase_def intro: life.prune_rest)
    next
      case (Restart reason)
      with eq have st: "start_service os c name reason (put name (replace_dummy s) m) = Inr (r, m')" by simp
      have "started_phase (phase m' name) \<and> (\<forall>a. a \<noteq> name \<longrightarrow> phase m' a = phase (put name (replace_dummy s) m) a)"
        using restart Restart by (intro start_phase [OF os _ _ _ st, of "replace_dummy s"])
          (auto simp: check_credentials_def replace_dummy_def)
      with at Restart show ?thesis by (auto intro: life.restart_rest)
    qed
  qed
  show ?thesis
  proof (cases "status (state s)")
    case (Running p t)
    obtain pending where mv: "moves_to m name s (Stopping p requested pending)
        (terminate_running os name requested p (replace_dummy s, world m))"
      using terminate_running_moves [OF os sound s Running] by blast
    from store_phase [OF sound s mv, where x = "()" and r = r and m' = m'] res s Running ph
    show ?thesis by (auto simp: terminate_service_inner_def intro: life.stop_running)
  next
    case (Frozen p t)
    from store_phase [OF sound s terminate_frozen_moves [OF os sound s Frozen], where x = "()" and r = r and m' = m'] res s Frozen ph
    show ?thesis by (auto simp: terminate_service_inner_def intro: life.stop_frozen)
  next
    case (Stopping p after pending)
    let ?st = "Stopping p (merge after requested) pending"
    have "moves_to m name s ?st (keep_status ?st (replace_dummy s, world m))"
      using inv_get [OF sound s] Stopping
      by (intro keep_status_moves) (cases pending; auto simp: svc_ok_def api_of_status_isOk process_ok_def)+
    from store_phase [OF sound s this, where x = "()" and r = r and m' = m'] res s Stopping ph
    show ?thesis by (auto simp: terminate_service_inner_def intro: life.stop_stopping)
  next
    case Dummy
    then show ?thesis using not_dummy [OF sound s] by simp
  qed (use rest in \<open>auto simp: finished_def\<close>)
qed

lemma stop_cmd_phase:
  assumes os: "os_ok os" and good: "good m" and res: "stop_service_cmd os c name after m = Inr (r, m')"
  shows "life (phase m name) (LTerminate after) (phase m' name) \<or> (m' = m \<and> \<not> isOk r)"
proof (cases "\<exists>s. get_service m c name = Inr s \<and> name \<noteq> BOOTSTRAP_NAME \<and> \<not> (shutdown m \<and> is_restart after)")
  case True
  then obtain s where get: "get_service m c name = Inr s" and name: "name \<noteq> BOOTSTRAP_NAME"
    and restart: "\<not> (shutdown m \<and> is_restart after)" by blast
  from get have s: "bt_get (services m) name = Some s" by (simp add: get_service_Inr)
  have own: "check_credentials s (creds (config s)) = Inr ()" by (simp add: check_credentials_def)
  then have mut: "get_service_mut m (creds (config s)) name = Inr s"
    using s name by (simp add: get_service_mut_Inr)
  have "terminate_service_inner os (creds (config s)) name after m = Inr (r, m')"
    using res by (simp add: stop_service_cmd_def get terminate_service_def mut restart)
  then show ?thesis
    using good own restart terminate_inner_phase [OF os _ s, of after "creds (config s)" r m'] by (auto simp: good_def)
next
  case False
  then show ?thesis
    using res by (cases "get_service m c name")
      (auto simp: stop_service_cmd_def terminate_service_def get_service_mut_def get_service_Inr outcome_elims
        check_credentials_def split: if_splits)
qed

text \<open>Creation.\<close>

lemma create_command_phase:
  assumes os: "os_ok os" and res: "create_command os e c name req m = Inr (r, m')"
  shows "life (phase m name) LCreate (phase m' name) \<or> (m' = m \<and> \<not> isOk r)"
proof (cases "m' = m \<and> \<not> isOk r")
  case False
  with res obtain vars x m1 where create: "create_service name (config_of_request req vars c) m = Inr (x, m1)"
    and rest: "(\<not> isOk x \<and> \<not> isOk r \<and> m' = m1) \<or> (isOk x \<and> (\<exists>y. start_service os c name User m1 = Inr (y, m')))"
    unfolding create_command_def or_error_def outcome_elims then_do_Inr by (force simp: outcome_elims then_do_Inr)
  show ?thesis
  proof (cases rule: create_service_cases [of name "config_of_request req vars c" m])
    case (refused err)
    then show ?thesis using create rest by auto
  next
    case created
    let ?s = "new_service (config_of_request req vars c) (log_retention_lines m)"
    obtain y where st: "start_service os c name User (put name ?s m) = Inr (y, m')"
      using create created(1) rest by auto
    have "started_phase (phase m' name) \<and> (\<forall>a. a \<noteq> name \<longrightarrow> phase m' a = phase (put name ?s m) a)"
      using created(2) by (intro start_phase [OF os _ _ _ st, of ?s])
        (auto simp: check_credentials_def new_service_def config_of_request_def)
    moreover have "phase m name = Absent" using created(4) by (simp add: phase_def)
    ultimately show ?thesis by simp
  qed
qed simp

text \<open>The commands that change no service.\<close>

lemma services_signal:
  "and_then (process_send_signal os sig p (world m)) (\<lambda>w. Inr (x, with_world w m)) = Inr (r, m') \<Longrightarrow>
     services m' = services m"
  by (auto simp: outcome_elims)

lemma send_signal_services: "send_signal os c name sig m = Inr (r, m') \<Longrightarrow> services m' = services m"
  by (auto simp: send_signal_def or_error_def outcome_elims split: if_splits service_status.splits)

lemma notify_pty_services:
  assumes "notify_pty command os c name m = Inr (r, m')"
  shows "services m' = services m"
proof (cases "get_service_mut m c name")
  case (Inr s)
  then show ?thesis
    using assms by (cases "status (state s)") (auto simp: notify_pty_def outcome_elims split: option.splits)
qed (use assms in \<open>auto simp: notify_pty_def\<close>)

lemma force_kill_services:
  assumes "force_kill_service os name tok m = Inr m'"
  shows "services m' = services m"
proof (cases "bt_get (services m) name")
  case (Some s)
  then show ?thesis
    using assms by (cases "status (state s)")
      (auto simp: force_kill_service_def outcome_elims split: option.splits if_splits)
qed (use assms in \<open>auto simp: force_kill_service_def\<close>)

lemma done_unit_Inr: "done_unit out = Inr (r, m') \<longleftrightarrow> (\<exists>x. out = Inr (x, m') \<and> r = map_sum id (\<lambda>_. JsonUnit) x)"
proof (cases out)
  case (Inr xm)
  obtain x m1 where "xm = (x, m1)" by (cases xm)
  with Inr show ?thesis by (cases x) (auto simp: done_unit_def then_do_def)
qed (simp add: done_unit_def then_do_def)

text \<open>The step a command makes.\<close>

fun label_of :: "command \<Rightarrow> (string \<times> label) option" where
  "label_of (CreateService name _) = Some (name, LCreate)"
| "label_of (RestartService name) = Some (name, LTerminate (Restart User))"
| "label_of (StopService name prune) = Some (name, LTerminate (if prune then PruneAfter else Stop))"
| "label_of (FreezeService name) = Some (name, LFreeze)"
| "label_of (ThawService name) = Some (name, LThaw)"
| "label_of _ = None"

lemma unlabelled_services:
  assumes "label_of command = None" "handle_api_command os e command c m = Inr (r, m')"
  shows "services m' = services m"
  using assms
  by (cases command)
    (auto simp: or_error_def outcome_elims list_command_def done_unit_Inr notify_pty_attached_def notify_pty_detached_def
      dest: send_signal_services notify_pty_services force_kill_services split: if_splits)

lemma labelled_phase:
  assumes os: "os_ok os" and good: "good m" and l: "label_of command = Some (name, l)"
    and res: "handle_api_command os e command c m = Inr (r, m')"
  shows "life (phase m name) l (phase m' name) \<or> (m' = m \<and> \<not> isOk r)"
proof -
  have sound: "sound m" using good by (simp add: good_def)
  have map: "isOk (map_sum id f x) = isOk x" for f and x :: "service_error + unit" by (cases x) simp_all
  note ops = create_command_phase [OF os] stop_cmd_phase [OF os good] freeze_phase [OF os sound] thaw_phase [OF os sound]
  show ?thesis
    using l res by (cases command) (auto simp: done_unit_Inr map dest!: ops)
qed

lemma command_phase:
  assumes "os_ok os" "good m" "handle_api_command os e command c m = Inr (r, m')"
  shows "case label_of command of
      Some (name, l) \<Rightarrow>
        (life (phase m name) l (phase m' name) \<or> (m' = m \<and> \<not> isOk r)) \<and>
        (\<forall>a. a \<noteq> name \<longrightarrow> phase m' a = phase m a)
    | None \<Rightarrow> phase m' = phase m"
proof (cases "label_of command")
  case None
  then show ?thesis using unlabelled_services [OF None assms(3)] by (auto intro: phase_services)
next
  case (Some nl)
  obtain name l where nl: "nl = (name, l)" by (cases nl)
  have "from_client command" "target_of command = Some name" using Some nl by (cases command; simp)+
  moreover have "bt_inv (services m)" using assms(2) inv_bt by (auto simp: good_def)
  ultimately have "m' = m \<or> touches name m m'"
    using command_effect [OF _ _ assms(3)] by auto
  then have "a \<noteq> name \<Longrightarrow> phase m' a = phase m a" for a using touches_phase by blast
  then show ?thesis using labelled_phase [OF assms(1,2) Some [unfolded nl] assms(3)] Some nl by simp
qed

text \<open>
  C4: every command refines the abstract life of services: a command that creates, stops,
  prunes, restarts, freezes or thaws a service makes exactly the step that is meant of that
  service, from whatever phase it is in and keeping its process (only a start makes a new
  one), or it is answered with an error and changes nothing at all; every other command, and
  every other service, leaves the phases alone.
\<close>

theorem command_refines:
  assumes "os_ok os" "good m" "handle_api_command os e command c m = Inr (r, m')"
  shows "case label_of command of
      Some (name, l) \<Rightarrow>
        (life (phase m name) l (phase m' name) \<or> (m' = m \<and> \<not> isOk r)) \<and>
        (\<forall>a. a \<noteq> name \<longrightarrow> phase m' a = phase m a)
    | None \<Rightarrow> phase m' = phase m"
  using assms by (rule command_phase)

theorem command_refines_witness:
  "\<exists>r m'. handle_api_command sample_os sample_env (FreezeService ''web'') root sample_manager = Inr (r, m') \<and>
     life (ARunning 4) LFreeze (phase m' ''web'') \<and> phase m' ''shell'' = ARunning 6"
proof -
  obtain r m' where r: "handle_api_command sample_os sample_env (FreezeService ''web'') root sample_manager = Inr (r, m')"
    using handle_api_command_ok [OF sample_os_ok sample_env_ok sample_manager_good] unfolding ok_outcome_def by blast
  have ph: "phase sample_manager ''web'' = ARunning 4" "phase sample_manager ''shell'' = ARunning 6"
    by (simp_all add: phase_def)
  have "isOk r"
  proof (rule ccontr)
    assume "\<not> isOk r"
    moreover have "get_service_mut sample_manager root ''web'' = Inr (sample_service (sample_user 1000) 4)"
      by (simp add: get_service_mut_Inr check_credentials_def root_def BOOTSTRAP_NAME_def)
    ultimately show False
      using r by (auto simp: done_unit_Inr freeze_service_def store_def and_then_eq_Inr)
  qed
  with command_refines [OF sample_os_ok sample_manager_good r] r ph show ?thesis by auto
qed

section \<open>The death of a process\<close>

lemma set_status_status: "set_status st s = Inr s' \<Longrightarrow> status (state s') = st"
  by (auto simp: set_status_Inr)

lemma proc_apart_pid:
  "proc_apart s t \<Longrightarrow> has_process pid (status (state s)) \<Longrightarrow> \<not> has_process pid (status (state t))"
  by (auto simp: proc_apart_def has_process_iff)

text \<open>The process of a phase.\<close>

fun phase_pid :: "phase \<Rightarrow> pid_t option" where
  "phase_pid (ARunning pid) = Some pid"
| "phase_pid (AFrozen pid) = Some pid"
| "phase_pid (AStopping pid _) = Some pid"
| "phase_pid _ = None"

lemma phase_pid_phase:
  "phase_pid (phase m a) = Some pid \<longleftrightarrow> (\<exists>s. bt_get (services m) a = Some s \<and> has_process pid (status (state s)))"
proof (cases "bt_get (services m) a")
  case (Some s)
  then show ?thesis by (cases "status (state s)") (auto simp: phase_def)
qed (simp add: phase_def)

text \<open>What \<open>process_exited\<close> makes of the service, once its process is gone.\<close>

lemma process_exited_phase:
  assumes os: "os_ok os" and bt: "bt_inv (services m)" and q: "quiet m"
    and s: "bt_get (services m) name = Some s" "has_process pid (status (state s))"
    and res: "process_exited os st name s m = Inr m'"
  shows "life (phase m name) (LExit pid st) (phase m' name) \<and> (\<forall>a. a \<noteq> name \<longrightarrow> phase m' a = phase m a)"
proof (cases "\<exists>p after pending. status (state s) = Stopping p after pending")
  case False
  then obtain p t where live: "status (state s) = Running p t \<or> status (state s) = Frozen p t" and p: "main_pid p = pid"
    using s(2) by (cases "status (state s)") auto
  have "and_then (set_status (Exited st) s) (\<lambda>s. case abort_liveness_probe (s, world m) of (s, w) \<Rightarrow>
      Inr (put name s (with_world w m))) = Inr m'"
    using live res by (auto simp: process_exited_def)
  then obtain s1 s2 w where "set_status (Exited st) s = Inr s1" "abort_liveness_probe (s1, world m) = (s2, w)"
    and m': "m' = put name s2 (with_world w m)"
    by (auto simp: outcome_elims)
  then have "status (state s2) = Exited st"
    using set_status_status by (force simp: abort_liveness_probe_eq split: option.splits)
  then show ?thesis
    using live p by (auto simp: m' phase_get [OF s(1)] intro: life.exit_running life.exit_frozen)
next
  case True
  then obtain p after pending where stopping: "status (state s) = Stopping p after pending" by blast
  have p: "main_pid p = pid" using s(2) stopping by simp
  have ph: "phase m name = AStopping pid after" using phase_get [OF s(1)] stopping p by simp
  define s1 where "s1 = s\<lparr>state := (state s)\<lparr>status := Stopping p after None\<rparr>\<rparr>"
  define w0 where "w0 = (case pending of None \<Rightarrow> world m | Some k \<Rightarrow> emit [TaskAborted (kill_task k)] (world m))"
  obtain s2 w where s2: "abort_liveness_probe (s1, w0) = (s2, w)" "config s2 = config s"
    by (rule abort_cases [of s1 w0]) (auto simp: s1_def)
  have eq: "(case after of
       Stop \<Rightarrow> and_then (set_status Stopped s2) (\<lambda>s. Inr (put name s (with_world w m)))
     | PruneAfter \<Rightarrow> Inr ((with_world w m)\<lparr>services := bt_remove name (services m)\<rparr>)
     | Restart reason \<Rightarrow>
         and_then (start_service os (creds (config s)) name reason (put name s2 (with_world w m))) (\<lambda>(r, m). Inr m)) = Inr m'"
    using res by (simp add: process_exited_def stopping Let_def s2(1,2) flip: s1_def w0_def split: after_stop.split_asm)
  show ?thesis
  proof (cases after)
    case Stop
    with eq ph show ?thesis by (auto simp: outcome_elims dest!: set_status_status intro: life.exit_stopped)
  next
    case PruneAfter
    with eq ph bt show ?thesis by (auto simp: phase_def intro: life.exit_pruned)
  next
    case (Restart reason)
    then obtain r where st: "start_service os (creds (config s)) name reason (put name s2 (with_world w m)) = Inr (r, m')"
      using eq by (auto simp: outcome_elims)
    have "\<not> calm (status (state s))" using stopping Restart by simp
    then have "\<not> shutdown m" using q s(1) by (auto simp: quiet_def)
    then have "started_phase (phase m' name) \<and> (\<forall>a. a \<noteq> name \<longrightarrow> phase m' a = phase (put name s2 (with_world w m)) a)"
      by (intro start_phase [OF os _ _ _ st, of s2]) (simp_all add: check_credentials_def s2(2))
    then show ?thesis using Restart ph by (auto intro: life.exit_restarted)
  qed
qed

lemma reap_one_phase:
  assumes os: "os_ok os" and good: "good m" and pid: "pid \<noteq> 0" "pid \<noteq> -1"
    and res: "reap_children os [((pid, e), st)] m = Inr m'"
  shows "if phase_pid (phase m a) = Some pid
    then life (phase m a) (LExit pid st) (phase m' a) else phase m' a = phase m a"
proof -
  have sound: "sound m" and q: "quiet m" using good by (auto simp: good_def)
  have bt: "bt_inv (services (reaped pid m))" using inv_bt [OF sound] by simp
  have q': "quiet (reaped pid m)" using q by (simp add: quiet_def)
  have ph: "phase (reaped pid m) b = phase m b" for b by (simp add: phase_def)
  have step: "(case find_service pid (reaped pid m) of
       None \<Rightarrow> Inr (reaped pid m)
     | Some (name, s) \<Rightarrow> process_exited os st name s (reaped pid m)) = Inr m'"
    using res pid by (auto simp: waitpid_def cerr_def Let_def and_then_eq_Inr)
  show ?thesis
  proof (cases "find_service pid (reaped pid m)")
    case None
    then have "phase_pid (phase m a) \<noteq> Some pid"
      using find_service_None [OF bt None, of a] unfolding phase_pid_phase by auto
    then show ?thesis using None step ph [of a] by auto
  next
    case (Some ns)
    obtain name s where ns: "ns = (name, s)" by (cases ns)
    with find_service_Some [OF bt, of pid name s] Some
    have s: "bt_get (services m) name = Some s" "has_process pid (status (state s))" by auto
    have "process_exited os st name s (reaped pid m) = Inr m'" using step Some ns by simp
    from process_exited_phase [OF os bt q' _ s(2) this] s
    have found: "life (phase m name) (LExit pid st) (phase m' name)"
      and others: "b \<noteq> name \<Longrightarrow> phase m' b = phase m b" for b by (auto simp: ph)
    show ?thesis
    proof (cases "a = name")
      case True
      then have "phase_pid (phase m a) = Some pid" unfolding phase_pid_phase using s by blast
      then show ?thesis using True found by simp
    next
      case False
      then have "phase_pid (phase m a) \<noteq> Some pid"
        unfolding phase_pid_phase using inv_get_apart [OF sound s(1)] proc_apart_pid [OF _ s(2)] by blast
      then show ?thesis using others [OF False] by simp
    qed
  qed
qed

text \<open>The processes of a manager.\<close>

definition live_pids :: "manager \<Rightarrow> pid_t set" where
  "live_pids m = {pid. \<exists>a. phase_pid (phase m a) = Some pid}"

text \<open>
  C5: the death of a child is seen by exactly the service whose process it was, and takes it
  one step: a service that was not being stopped shows how its process ended, one that was
  being stopped is stopped, pruned or started again as was last decided; the death of any
  other child (an orphan the init process adopted) changes no service.
\<close>

theorem exit_refines:
  assumes "os_ok os" "good m" "pid \<noteq> 0" "pid \<noteq> -1" "reap_children os [((pid, e), st)] m = Inr m'"
  shows "if phase_pid (phase m a) = Some pid
    then life (phase m a) (LExit pid st) (phase m' a) else phase m' a = phase m a"
  by (rule reap_one_phase [OF assms])

theorem exit_refines_witness:
  "\<exists>m'. reap_children sample_os [((4, eof), exited_status 3)] sample_manager = Inr m' \<and>
     life (ARunning 4) (LExit 4 (exited_status 3)) (phase m' ''web'')"
proof -
  have "wif_exited (exited_status 3)" by (simp add: wif_exited_iff unat_exited)
  then have "waits_ok [((4, eof), exited_status 3)]" by (simp add: waits_ok_def terminated_status_def)
  from reap_children_ok [OF sample_os_ok this sample_manager_good]
  obtain m' where m': "reap_children sample_os [((4, eof), exited_status 3)] sample_manager = Inr m'" by blast
  from exit_refines [OF sample_os_ok sample_manager_good _ _ m', of "''web''"] m' show ?thesis
    by (simp add: phase_def)
qed

section \<open>The shutdown\<close>

text \<open>Only a start makes a process, and it ends in a running service.\<close>

lemma life_pid:
  "life q l q' \<Longrightarrow> phase_pid q' = Some pid \<Longrightarrow> \<nexists>pid. q' = ARunning pid \<Longrightarrow> phase_pid q = Some pid"
  by (induction rule: life.induct) (auto simp: started_phase_def)

lemma quiet_not_running: "quiet m \<Longrightarrow> shutdown m \<Longrightarrow> phase m a \<noteq> ARunning pid"
proof
  assume q: "quiet m" "shutdown m" and r: "phase m a = ARunning pid"
  then obtain s where s: "bt_get (services m) a = Some s" "phase_of (status (state s)) = ARunning pid"
    by (auto simp: phase_def split: option.splits)
  then have "\<not> calm (status (state s))" by (cases "status (state s)") auto
  with q s show False by (auto simp: quiet_def)
qed

lemma live_mono:
  assumes "\<And>a. phase m' a = phase m a \<or> (\<exists>l. life (phase m a) l (phase m' a))" "good m'" "shutdown m'"
  shows "live_pids m' \<subseteq> live_pids m"
proof
  fix pid assume "pid \<in> live_pids m'"
  then obtain a where a: "phase_pid (phase m' a) = Some pid" by (auto simp: live_pids_def)
  have "\<nexists>pid. phase m' a = ARunning pid" using assms(2,3) quiet_not_running by (auto simp: good_def)
  then have "phase_pid (phase m a) = Some pid" using assms(1) [of a] a life_pid by metis
  then show "pid \<in> live_pids m" by (auto simp: live_pids_def)
qed

text \<open>The deaths a \<open>waitpid\<close> loop sees before it finds no more.\<close>

definition dead_pids :: "(libc_result \<times> raw_status) list \<Rightarrow> pid_t set" where
  "dead_pids ws = (\<lambda>(r, st). fst r) ` set (takeWhile (\<lambda>(r, st). fst r \<noteq> 0 \<and> fst r \<noteq> -1) ws)"

lemma reap_children_Cons:
  "pid \<noteq> 0 \<Longrightarrow> pid \<noteq> -1 \<Longrightarrow> reap_children os (((pid, e), st) # ws) m =
     and_then (reap_children os [((pid, e), st)] m) (reap_children os ws)"
  by (simp add: waitpid_def cerr_def Let_def and_then_assoc)

lemma calm_exit_pid:
  "life q (LExit pid st) q' \<Longrightarrow> phase_pid q = Some pid \<Longrightarrow> (\<nexists>r. q = AStopping pid (Restart r)) \<Longrightarrow> phase_pid q' = None"
  by (erule life_LExitE) auto

lemma quiet_not_restarting: "quiet m \<Longrightarrow> shutdown m \<Longrightarrow> phase m a \<noteq> AStopping pid (Restart r)"
proof
  assume q: "quiet m" "shutdown m" and r: "phase m a = AStopping pid (Restart r)"
  then obtain s where s: "bt_get (services m) a = Some s" "phase_of (status (state s)) = AStopping pid (Restart r)"
    by (auto simp: phase_def split: option.splits)
  then have "\<not> calm (status (state s))" by (cases "status (state s)") auto
  with q s show False by (auto simp: quiet_def)
qed

lemma reap_live:
  assumes os: "os_ok os"
  shows "good m \<Longrightarrow> shutdown m \<Longrightarrow> waits_ok ws \<Longrightarrow> reap_children os ws m = Inr m' \<Longrightarrow>
    live_pids m' \<subseteq> live_pids m - dead_pids ws"
proof (induction ws arbitrary: m)
  case Nil
  then show ?case by (simp add: dead_pids_def)
next
  case (Cons w ws)
  obtain pid e st where w: "w = ((pid, e), st)" by (metis prod.exhaust)
  show ?case
  proof (cases "pid = 0 \<or> pid = -1")
    case True
    then have "m' = m"
      using Cons.prems(3,4) by (auto simp: w waits_ok_def waitpid_def cerr_def split: if_splits)
    then show ?thesis using True by (auto simp: dead_pids_def w)
  next
    case False
    then have pid: "pid \<noteq> 0" "pid \<noteq> -1" and waits: "waits_ok [((pid, e), st)]" and ws: "waits_ok ws"
      using Cons.prems(3) by (simp_all add: waits_ok_def w)
    obtain m1 where m1: "reap_children os [((pid, e), st)] m = Inr m1" and rest: "reap_children os ws m1 = Inr m'"
      using Cons.prems(4) unfolding w reap_children_Cons [OF pid, of os e st ws m] and_then_eq_Inr by blast
    have good: "good m1" "shutdown m1"
      using reap_children_ok [OF os waits Cons.prems(1)] m1 Cons.prems(2) by auto
    have quiet: "quiet m" using Cons.prems(1) by (simp add: good_def)
    note step = reap_one_phase [OF os Cons.prems(1) pid m1]
    have "live_pids m1 \<subseteq> live_pids m - {pid}"
    proof
      fix x assume "x \<in> live_pids m1"
      then obtain a where a: "phase_pid (phase m1 a) = Some x" by (auto simp: live_pids_def)
      have "phase_pid (phase m a) \<noteq> Some pid"
        using step [of a] a calm_exit_pid quiet_not_restarting [OF quiet Cons.prems(2)] by fastforce
      with step [of a] a show "x \<in> live_pids m - {pid}" by (auto simp: live_pids_def)
    qed
    moreover have "live_pids m' \<subseteq> live_pids m1 - dead_pids ws" by (rule Cons.IH [OF good ws rest])
    moreover have "dead_pids (w # ws) = insert pid (dead_pids ws)" using pid by (simp add: dead_pids_def w)
    ultimately show ?thesis by auto
  qed
qed

text \<open>Asking the services to stop starts none.\<close>

lemma stop_pid: "life q (LTerminate Stop) q' \<Longrightarrow> phase_pid q' = phase_pid q"
  by (erule life_LTerminateE) auto

lemma stop_services_live:
  assumes os: "os_ok os"
  shows "sound m \<Longrightarrow> stop_services os names m = Inr m' \<Longrightarrow> phase_pid (phase m' a) = phase_pid (phase m a)"
proof (induction names arbitrary: m)
  case (Cons name names)
  obtain r m1 where m1: "terminate_service_inner os root name Stop m = Inr (r, m1)" and rest: "stop_services os names m1 = Inr m'"
    using Cons.prems(2) by (auto simp: outcome_elims)
  have "ended_ok name m (terminate_service_inner os root name Stop m)"
    by (rule terminate_inner_ok [OF os Cons.prems(1)]) simp
  then have sound: "sound m1" using m1 by (auto simp: ended_ok_def)
  have "phase_pid (phase m1 a) = phase_pid (phase m a)"
  proof (cases "bt_get (services m) name")
    case None
    then show ?thesis using m1 by (simp add: terminate_service_inner_def)
  next
    case (Some s)
    from terminate_inner_phase [OF os Cons.prems(1) Some _ m1]
    have step: "life (phase m name) (LTerminate Stop) (phase m1 name)"
      and others: "a \<noteq> name \<Longrightarrow> phase m1 a = phase m a" by auto
    show ?thesis using stop_pid [OF step] others by (cases "a = name") auto
  qed
  then show ?case using Cons.IH [OF sound rest] by simp
qed simp

lemma begin_shutdown_live:
  assumes "os_ok os" "good m" "begin_shutdown os m = Inr m'"
  shows "live_pids m' = live_pids m"
proof -
  have "sound (m\<lparr>shutdown := True\<rparr>)" using assms(2) by (simp add: good_def inv_except_def)
  moreover have "phase (m\<lparr>shutdown := True\<rparr>) a = phase m a" for a by (simp add: phase_def)
  ultimately have "stop_services os names (m\<lparr>shutdown := True\<rparr>) = Inr m' \<Longrightarrow>
      phase_pid (phase m' a) = phase_pid (phase m a)" for names a
    using stop_services_live [OF assms(1)] by metis
  then have "stop_services os names (m\<lparr>shutdown := True\<rparr>) = Inr m' \<Longrightarrow> ?thesis" for names
    by (simp add: live_pids_def)
  then show ?thesis using assms(3) by (auto simp: begin_shutdown_def stop_all_services_def split: if_splits)
qed

text \<open>No event after the beginning of the shutdown starts a process.\<close>

lemma get_pty_services: "get_pty os c name m = Inr (r, m') \<Longrightarrow> services m' = services m"
proof (cases "get_service m c name")
  case (Inr s)
  assume "get_pty os c name m = Inr (r, m')"
  with Inr show ?thesis
    by (cases "status (state s)") (auto simp: get_pty_def outcome_elims split: option.splits sum.splits if_splits)
qed (auto simp: get_pty_def)

lemma push_service_log_phase: "phase (push_service_log name line m) a = phase m a"
  by (auto simp: push_service_log_def phase_def split: option.splits)

lemma probe_failed_phase:
  assumes os: "os_ok os" and good: "good m" and res: "probe_failed os e name m = Inr m'"
  shows "phase m' a = phase m a \<or> (\<exists>l. life (phase m a) l (phase m' a))"
proof -
  obtain r m1 where m1: "stop_service_cmd os root name (Restart Automatic) m = Inr (r, m1)"
    and ph: "phase m' a = phase m1 a"
    using res by (auto simp: probe_failed_def outcome_elims push_service_log_phase split: if_splits)
  have "bt_inv (services m)" using good inv_bt by (auto simp: good_def)
  then have "m1 = m \<or> touches name m m1"
    using stop_cmd_guarded m1 by (fastforce simp: guarded_def)
  then have "a \<noteq> name \<Longrightarrow> phase m1 a = phase m a" using touches_phase by blast
  then show ?thesis using stop_cmd_phase [OF os good m1] ph by (cases "a = name") auto
qed

lemma turn_live:
  assumes ok: "allowed_input i" and good: "good m" and sd: "shutdown m" and res: "turn i m = Inr (r, m')"
  shows "live_pids m' \<subseteq> live_pids m"
proof -
  obtain os e ev where i: "i = (os, e, ev)" by (cases i)
  have os: "os_ok os" using ok by (simp add: i allowed_input_def)
  have good': "good m'" "shutdown m'" using lp.step_Inr [OF ok good res] sd by auto
  have same: "live_pids m' \<subseteq> live_pids m" if "\<And>a. phase m' a = phase m a"
    using that by (simp add: live_pids_def)
  show ?thesis
  proof (cases ev)
    case (Command command c)
    then obtain x where "handle_api_command os e command c m = Inr (x, m')"
      using res by (auto simp: i turn_def outcome_elims)
    note ph = command_phase [OF os good this]
    have "phase m' a = phase m a \<or> (\<exists>l. life (phase m a) l (phase m' a))" for a
    proof (cases "label_of command")
      case (Some nl)
      then show ?thesis using ph by (cases nl; cases "a = fst nl") auto
    qed (use ph in simp)
    then show ?thesis by (rule live_mono [OF _ good'])
  next
    case (GetPty name c)
    then obtain x where "get_pty os c name m = Inr (x, m')" using res by (auto simp: i turn_def outcome_elims)
    then show ?thesis by (intro same phase_services) (rule get_pty_services)
  next
    case (Signal_event signo ws)
    then have h: "handle_signal os signo ws m = Inr m'" and ws: "waits_ok ws"
      using res ok by (auto simp: i turn_def outcome_elims allowed_input_def)
    show ?thesis
    proof (cases "signo = SIGCHLD")
      case True
      then show ?thesis using h reap_live [OF os good sd ws] by (auto simp: handle_signal_def and_then_eq_Inr)
    next
      case False
      then show ?thesis using h begin_shutdown_live [OF os good] by (auto simp: handle_signal_def split: if_splits)
    qed
  next
    case (ProbeFailed name)
    then have "probe_failed os e name m = Inr m'" using res by (auto simp: i turn_def outcome_elims)
    then show ?thesis using probe_failed_phase [OF os good] by (intro live_mono [OF _ good']) blast
  next
    case (WaitService name c)
    then show ?thesis using res by (intro same) (auto simp: i turn_def)
  next
    case (LogPush name line)
    then show ?thesis using res by (intro same) (auto simp: i turn_def push_service_log_phase)
  qed
qed

lemma shutdown_complete_live:
  assumes "good m" "shutdown m"
  shows "shutdown_complete m \<longleftrightarrow> live_pids m = {}"
proof -
  have bt: "bt_inv (services m)" and sound: "sound m" using assms(1) inv_bt by (auto simp: good_def)
  have "finished (status (state s)) \<longleftrightarrow> phase_pid (phase m a) = None" if "bt_get (services m) a = Some s" for a s
    using not_dummy [OF sound that] phase_get [OF that] by (cases "status (state s)") (auto simp: finished_def)
  moreover have "phase_pid (phase m a) = None" if "bt_get (services m) a = None" for a
    using that by (simp add: phase_def)
  ultimately have "live_pids m = {} \<longleftrightarrow> (\<forall>a s. bt_get (services m) a = Some s \<longrightarrow> finished (status (state s)))"
    by (auto simp: live_pids_def) (metis not_None_eq)+
  then show ?thesis
    using assms(2) bt by (auto simp: shutdown_complete_def shutdown_initiated_def list_all_iff bt_values_iff)
qed

text \<open>
  C2: a container that is told to stop does stop: after \<open>SIGTERM\<close> (or \<open>SIGINT\<close>), whatever
  further events arrive, no service gets a new process; and as soon as the processes that are
  still alive have died and were reaped, the event loop ends.
\<close>

theorem shutdown_terminates:
  assumes good: "good m" and sig: "allowed_input (os, e, Signal_event signo [])" "signo = SIGTERM \<or> signo = SIGINT"
    and "is": "list_all allowed_input is"
    and run: "main_loop ((os, e, Signal_event signo []) # is) m = Inr (rs, LoopAgain, m1)"
    and chld: "allowed_input (os', e', Signal_event SIGCHLD ws)" "live_pids m1 \<subseteq> dead_pids ws"
  shows "live_pids m1 \<subseteq> live_pids m \<and>
    (\<exists>r m2. turn (os', e', Signal_event SIGCHLD ws) m1 = Inr (r, m2) \<and> after_event m2 = LoopBreak)"
proof -
  have main: "list_all allowed_input is \<Longrightarrow> good m \<Longrightarrow> shutdown m \<Longrightarrow> main_loop is m = Inr (rs, LoopAgain, m1) \<Longrightarrow>
      live_pids m1 \<subseteq> live_pids m \<and> good m1 \<and> shutdown m1" for "is" m rs
  proof (induction "is" arbitrary: m rs)
    case (Cons i "is")
    obtain r ma rsa where ma: "turn i m = Inr (r, ma)" "main_loop is ma = Inr (rsa, LoopAgain, m1)"
      using Cons.prems(4) by (auto simp: outcome_elims split: if_splits)
    have "good ma" "shutdown ma" using lp.step_Inr [OF _ Cons.prems(2) ma(1)] Cons.prems(1,3) by auto
    then show ?case
      using Cons.IH [OF _ _ _ ma(2)] turn_live [OF _ Cons.prems(2,3) ma(1)] Cons.prems(1) by auto
  qed simp
  obtain r ma rsa where ma: "turn (os, e, Signal_event signo []) m = Inr (r, ma)" "main_loop is ma = Inr (rsa, LoopAgain, m1)"
    using run by (auto simp: outcome_elims split: if_splits)
  have os: "os_ok os" using sig(1) by (simp add: allowed_input_def)
  have bs: "begin_shutdown os m = Inr ma" using ma(1) sig(2) by (auto simp: turn_def handle_signal_def outcome_elims)
  then have "good ma" "shutdown ma" by (auto intro: begin_shutdown_ok [OF os good])
  then have m1: "live_pids m1 \<subseteq> live_pids ma" "good m1" "shutdown m1" using main [OF "is" _ _ ma(2)] by auto
  have ws: "os_ok os'" "waits_ok ws" using chld(1) by (auto simp: allowed_input_def)
  obtain m2 where m2: "reap_children os' ws m1 = Inr m2" "good m2" "shutdown m2"
    using reap_children_ok [OF ws m1(2)] m1(3) by auto
  have "live_pids m2 = {}" using reap_live [OF ws(1) m1(2,3) ws(2) m2(1)] chld(2) by auto
  then have "after_event m2 = LoopBreak" using shutdown_complete_live [OF m2(2,3)] by (simp add: after_event_def)
  then show ?thesis
    using m1(1) begin_shutdown_live [OF os good bs] m2(1) by (auto simp: turn_def handle_signal_def)
qed

text \<open>On the sample manager: both services are told to stop, then their processes die.\<close>

theorem shutdown_terminates_witness:
  "\<exists>m1 r m2. main_loop [(sample_os, sample_env, Signal_event SIGTERM [])] sample_manager = Inr ([NoReply], LoopAgain, m1) \<and>
     turn (sample_os, sample_env, Signal_event SIGCHLD
       [((2, eof), exited_status 0), ((4, eof), exited_status 0), ((6, eof), exited_status 0)]) m1 = Inr (r, m2) \<and>
     after_event m2 = LoopBreak"
proof -
  let ?ws = "[((2, eof), exited_status 0), ((4, eof), exited_status 0), ((6, eof), exited_status 0)]"
  let ?sigterm = "(sample_os, sample_env, Signal_event SIGTERM [])"
  have ok: "allowed_input ?sigterm" by (simp add: allowed_input_def sample_os_ok sample_env_ok waits_ok_def)
  have "wif_exited (exited_status 0)" by (simp add: wif_exited_iff unat_exited)
  then have chld: "allowed_input (sample_os, sample_env, Signal_event SIGCHLD ?ws)"
    by (simp add: allowed_input_def sample_os_ok sample_env_ok waits_ok_def terminated_status_def)
  obtain m1 where bs: "begin_shutdown sample_os sample_manager = Inr m1" "good m1" "shutdown m1"
    by (rule begin_shutdown_ok [OF sample_os_ok sample_manager_good])
  have "phase sample_manager a =
      (if a = BOOTSTRAP_NAME then ARunning 2 else if a = ''shell'' then ARunning 6 else if a = ''web'' then ARunning 4 else Absent)" for a
    by (auto simp: phase_def sample_manager_def)
  then have pids: "phase_pid (phase sample_manager a) =
      (if a = BOOTSTRAP_NAME then Some 2 else if a = ''shell'' then Some 6 else if a = ''web'' then Some 4 else None)" for a
    by simp
  have "x \<in> {2, 4, 6}" if live: "x \<in> live_pids sample_manager" for x
  proof -
    obtain a where "phase_pid (phase sample_manager a) = Some x" using live by (auto simp: live_pids_def)
    then show ?thesis using pids [of a] by (simp split: if_splits)
  qed
  moreover have "2 \<in> live_pids sample_manager"
    unfolding live_pids_def using pids [of BOOTSTRAP_NAME] by (intro CollectI exI [of _ BOOTSTRAP_NAME]) simp
  ultimately have "live_pids sample_manager \<subseteq> {2, 4, 6}" "2 \<in> live_pids sample_manager" by blast+
  then have live: "live_pids m1 \<subseteq> dead_pids ?ws" "live_pids m1 \<noteq> {}"
    using begin_shutdown_live [OF sample_os_ok sample_manager_good bs(1)] by (auto simp: dead_pids_def)
  then have "after_event m1 = LoopAgain"
    using shutdown_complete_live [OF bs(2,3)] bs(3) live(2) by (simp add: after_event_def shutdown_initiated_def)
  then have run: "main_loop [?sigterm] sample_manager = Inr ([NoReply], LoopAgain, m1)"
    using bs(1) by (simp add: turn_def handle_signal_def)
  from shutdown_terminates [OF sample_manager_good ok _ _ run chld live(1)] run show ?thesis by auto
qed

end
