(* ===== verification/Routes.thy ===== *)
theory Routes
  imports Main_Loop
begin

text \<open>
  The HTTP side of \<open>beam-init/src/api_impl.rs\<close>: the route table and the handler of each
  route, which turns a request into an event for the main task and the main task's answer
  into a response.

  Matching a path against the registered patterns is the work of axum: it is the argument
  \<open>find_route\<close> of \<open>dispatch\<close>, with the documented behaviour \<open>router_ok\<close>. A JSON body is
  the value it encodes; a request axum's extractors refuse (a missing or ill-typed body or
  query) is answered by axum, before the handler.
\<close>

section \<open>Requests and responses\<close>

datatype http_method = GET | POST | DELETE

datatype http_body = NoBody | JsonBody create_service_req | JsonSignal c_int | JsonEmpty

record http_request =
  http_method :: http_method
  http_path :: string
  http_query :: "(string \<times> string) list"
  http_body :: http_body

datatype content = Reply response | Text string | WaitStatus api_status | VersionJson version_response

type_synonym http_response = "nat \<times> content"

definition error_content :: "service_error \<Rightarrow> http_response" where
  "error_content e = (case error_response e of (code, text) \<Rightarrow> (code, Text text))"

definition into_response :: "service_error + response \<Rightarrow> http_response" where
  "into_response r = (case r of Inr x \<Rightarrow> (200, Reply x) | Inl e \<Rightarrow> error_content e)"

section \<open>The handlers\<close>

text \<open>What a handler does: it sends an event and awaits the answer, or it answers at once.\<close>

datatype handling = SendEvent event | WaitFor event status_kind | Answer http_response | Refused

definition create_service_route :: "string \<Rightarrow> credentials \<Rightarrow> create_service_req \<Rightarrow> handling" where
  "create_service_route name c svc = SendEvent (Command (CreateService name svc) c)"

definition stop_service_route :: "string \<Rightarrow> credentials \<Rightarrow> handling" where
  "stop_service_route name c = SendEvent (Command (StopService name False) c)"

definition delete_service_route :: "string \<Rightarrow> credentials \<Rightarrow> handling" where
  "delete_service_route name c = SendEvent (Command (StopService name True) c)"

definition restart_service_route :: "string \<Rightarrow> credentials \<Rightarrow> handling" where
  "restart_service_route name c = SendEvent (Command (RestartService name) c)"

definition freeze_service_route :: "string \<Rightarrow> credentials \<Rightarrow> handling" where
  "freeze_service_route name c = SendEvent (Command (FreezeService name) c)"

definition thaw_service_route :: "string \<Rightarrow> credentials \<Rightarrow> handling" where
  "thaw_service_route name c = SendEvent (Command (ThawService name) c)"

definition show_service_route :: "string \<Rightarrow> credentials \<Rightarrow> handling" where
  "show_service_route name c = SendEvent (Command (ShowService name) c)"

definition list_services_route :: "credentials \<Rightarrow> handling" where
  "list_services_route c = SendEvent (Command ListServices c)"

definition notify_pty_attached_route :: "string \<Rightarrow> credentials \<Rightarrow> handling" where
  "notify_pty_attached_route name c = SendEvent (Command (NotifyPtyAttached name) c)"

definition notify_pty_detached_route :: "string \<Rightarrow> credentials \<Rightarrow> handling" where
  "notify_pty_detached_route name c = SendEvent (Command (NotifyPtyDetached name) c)"

definition send_signal_route :: "string \<Rightarrow> credentials \<Rightarrow> c_int \<Rightarrow> handling" where
  "send_signal_route name c sig = SendEvent (Command (SendSignal name sig) c)"

text \<open>\<open>ServiceLogsQuery\<close>: a missing \<open>follow\<close> is its default, \<open>false\<close>; a duplicate field is refused.\<close>

definition query_field :: "string \<Rightarrow> (string \<times> string) list \<Rightarrow> string list" where
  "query_field k q = map snd (filter (\<lambda>kv. fst kv = k) q)"

definition service_logs_query :: "(string \<times> string) list \<Rightarrow> bool option" where
  "service_logs_query q =
     (case query_field ''follow'' q of
        [] \<Rightarrow> Some False
      | [v] \<Rightarrow> if v = ''true'' then Some True else if v = ''false'' then Some False else None
      | _ \<Rightarrow> None)"

definition service_logs_route :: "string \<Rightarrow> credentials \<Rightarrow> (string \<times> string) list \<Rightarrow> handling" where
  "service_logs_route name c q =
     (case service_logs_query q of
        None \<Rightarrow> Refused
      | Some follow \<Rightarrow> SendEvent (Command (ServiceLogs name follow) c))"

definition wait_condition_query :: "(string \<times> string) list \<Rightarrow> status_kind option" where
  "wait_condition_query q =
     (case query_field ''state'' q of
        [v] \<Rightarrow> (case kind_from_str v of Inr k \<Rightarrow> Some k | Inl _ \<Rightarrow> None)
      | _ \<Rightarrow> None)"

definition wait_service_route :: "string \<Rightarrow> credentials \<Rightarrow> (string \<times> string) list \<Rightarrow> handling" where
  "wait_service_route name c q =
     (case wait_condition_query q of None \<Rightarrow> Refused | Some k \<Rightarrow> WaitFor (WaitService name c) k)"

definition version_route :: "version_response \<Rightarrow> handling" where
  "version_route v = Answer (200, VersionJson v)"

definition fallback_route :: "handling" where
  "fallback_route = Answer (404, Text ''404 Not Found'')"

text \<open>
  The answer of the waiting handler: an error of the subscription, or what the waiting loop
  found (\<open>None\<close> while it waits).
\<close>

definition wait_answer :: "service_error + wait_outcome \<Rightarrow> http_response option" where
  "wait_answer r =
     (case r of
        Inl err \<Rightarrow> Some (error_content err)
      | Inr (Found st) \<Rightarrow> Some (200, WaitStatus st)
      | Inr PrunedWhileWaiting \<Rightarrow> Some (error_content ServicePrunedWhileWaiting)
      | Inr (ObservationLag skipped) \<Rightarrow> Some (error_content (ObservationLagged skipped))
      | Inr Waiting \<Rightarrow> None)"

section \<open>The route table\<close>

datatype route =
    RListServices | RCreateService | RDeleteService | RRestartService | RStopService | RFreezeService
  | RThawService | RShowService | RServiceLogs | RNotifyAttached | RNotifyDetached | RSendSignal
  | RWaitService | RVersion

definition routes :: "(string \<times> (http_method \<times> route) list) list" where
  "routes =
    [(''/services'', [(GET, RListServices)]),
     (''/service/{name}'', [(POST, RCreateService), (DELETE, RDeleteService)]),
     (''/service/{name}/restart'', [(POST, RRestartService)]),
     (''/service/{name}/stop'', [(POST, RStopService)]),
     (''/service/{name}/freeze'', [(POST, RFreezeService)]),
     (''/service/{name}/thaw'', [(POST, RThawService)]),
     (''/service/{name}/show'', [(POST, RShowService)]),
     (''/service/{name}/logs'', [(GET, RServiceLogs)]),
     (''/service/{name}/notify_pty_attached'', [(POST, RNotifyAttached)]),
     (''/service/{name}/notify_pty_detached'', [(POST, RNotifyDetached)]),
     (''/service/{name}/send_signal'', [(POST, RSendSignal)]),
     (''/service/{name}/wait'', [(GET, RWaitService)]),
     (''/version'', [(GET, RVersion)])]"

text \<open>The extractors' arguments of each handler, and the handler.\<close>

fun run_route :: "version_response \<Rightarrow> route \<Rightarrow> string \<Rightarrow> credentials \<Rightarrow> http_request \<Rightarrow> handling" where
  "run_route v RListServices name c req = list_services_route c"
| "run_route v RCreateService name c req =
     (case http_body req of JsonBody svc \<Rightarrow> create_service_route name c svc | _ \<Rightarrow> Refused)"
| "run_route v RDeleteService name c req = delete_service_route name c"
| "run_route v RRestartService name c req = restart_service_route name c"
| "run_route v RStopService name c req = stop_service_route name c"
| "run_route v RFreezeService name c req = freeze_service_route name c"
| "run_route v RThawService name c req = thaw_service_route name c"
| "run_route v RShowService name c req = show_service_route name c"
| "run_route v RServiceLogs name c req = service_logs_route name c (http_query req)"
| "run_route v RNotifyAttached name c req = notify_pty_attached_route name c"
| "run_route v RNotifyDetached name c req = notify_pty_detached_route name c"
| "run_route v RSendSignal name c req =
     (case http_body req of JsonSignal sig \<Rightarrow> send_signal_route name c sig | _ \<Rightarrow> Refused)"
| "run_route v RWaitService name c req = wait_service_route name c (http_query req)"
| "run_route v RVersion name c req = version_route v"

text \<open>
  \<open>find_route\<close> answers the pattern a path matches and the value of its \<open>{name}\<close>; a path that
  matches no pattern goes to the fallback, another method than the registered ones is refused.
\<close>

definition dispatch ::
    "(string \<Rightarrow> (string \<times> string) option) \<Rightarrow> version_response \<Rightarrow> credentials \<Rightarrow> http_request \<Rightarrow> handling" where
  "dispatch find_route v c req =
     (case find_route (http_path req) of
        None \<Rightarrow> fallback_route
      | Some (pattern, name) \<Rightarrow>
          (case map_of routes pattern of
             None \<Rightarrow> fallback_route
           | Some methods \<Rightarrow>
               (case map_of methods (http_method req) of
                  None \<Rightarrow> Refused
                | Some r \<Rightarrow> run_route v r name c req)))"

section \<open>What the router promises\<close>

text \<open>A plain name: unreserved characters only, which no layer of HTTP rewrites, and no dot segment.\<close>

definition unreserved :: "char \<Rightarrow> bool" where
  "unreserved ch \<longleftrightarrow> is_ascii_alphanumeric ch \<or> ch \<in> set ''-_.~''"

definition plain :: "string \<Rightarrow> bool" where
  "plain name \<longleftrightarrow> name \<noteq> [] \<and> list_all unreserved name \<and> name \<noteq> ''.'' \<and> name \<noteq> ''..''"

definition action_pattern :: "string \<Rightarrow> string" where
  "action_pattern action = ''/service/{name}/'' @ action"

definition router_ok :: "(string \<Rightarrow> (string \<times> string) option) \<Rightarrow> bool" where
  "router_ok find_route \<longleftrightarrow>
     (\<forall>p \<in> fst ` set routes. CHR ''{'' \<notin> set p \<longrightarrow> find_route p = Some (p, [])) \<and>
     (\<forall>name. plain name \<longrightarrow> find_route (''/service/'' @ name) = Some (''/service/{name}'', name)) \<and>
     (\<forall>name action. plain name \<longrightarrow> action_pattern action \<in> fst ` set routes \<longrightarrow>
        find_route (''/service/'' @ name @ ''/'' @ action) = Some (action_pattern action, name))"

text \<open>A router that keeps the promise: segments compared one by one.\<close>

fun segments :: "string \<Rightarrow> string list" where
  "segments [] = [[]]"
| "segments (ch # cs) =
     (if ch = CHR ''/'' then [] # segments cs
      else (case segments cs of s # ss \<Rightarrow> (ch # s) # ss | [] \<Rightarrow> [[ch]]))"

fun match_segments :: "string list \<Rightarrow> string list \<Rightarrow> string option" where
  "match_segments [] [] = Some []"
| "match_segments (p # ps) (s # ss) =
     (if p = ''{name}'' \<and> s \<noteq> [] then map_option (\<lambda>_. s) (match_segments ps ss)
      else if p = s then match_segments ps ss else None)"
| "match_segments _ _ = None"

definition segment_router :: "string \<Rightarrow> (string \<times> string) option" where
  "segment_router path =
     (case filter (\<lambda>p. match_segments (segments p) (segments path) \<noteq> None) (map fst routes) of
        p # _ \<Rightarrow> map_option (\<lambda>name. (p, name)) (match_segments (segments p) (segments path))
      | [] \<Rightarrow> None)"

lemma segments_plain: "list_all unreserved s \<Longrightarrow> segments (s @ ''/'' @ t) = s # segments t \<and> segments s = [s]"
  by (induction s) (auto simp: unreserved_def is_ascii_alphanumeric_def)

lemma segments_service: "segments (''/service/'' @ s) = [] # ''service'' # segments s"
  by simp

lemma segment_router_ok: "router_ok segment_router"
  unfolding router_ok_def
proof (intro conjI ballI allI impI)
  fix p assume "p \<in> fst ` set routes" "CHR ''{'' \<notin> set p"
  then have "p = ''/services'' \<or> p = ''/version''" by (auto simp: routes_def)
  then show "segment_router p = Some (p, [])"
    by (elim disjE) (simp_all add: segment_router_def routes_def)
next
  fix name assume "plain name"
  then have "segments (''/service/'' @ name) = [[], ''service'', name]" "name \<noteq> []"
    using segments_plain [of name] by (auto simp: plain_def segments_service simp del: append.simps)
  then show "segment_router (''/service/'' @ name) = Some (''/service/{name}'', name)"
    by (simp add: segment_router_def routes_def)
next
  fix name action assume name: "plain name" and action: "action_pattern action \<in> fst ` set routes"
  have seg: "segments (''/service/'' @ name @ ''/'' @ action) = [] # ''service'' # name # segments action" "name \<noteq> []"
    using name segments_plain [of name] by (auto simp: plain_def segments_service simp del: append.simps)
  from action have "action \<in> {''restart'', ''stop'', ''freeze'', ''thaw'', ''show'', ''logs'',
      ''notify_pty_attached'', ''notify_pty_detached'', ''send_signal'', ''wait''}"
    by (auto simp: routes_def action_pattern_def)
  then show "segment_router (''/service/'' @ name @ ''/'' @ action) = Some (action_pattern action, name)"
    using seg(2) unfolding segment_router_def seg(1)
    by (elim insertE emptyE) (simp_all add: routes_def action_pattern_def)
qed

end
