(* ===== verification/Client.thy ===== *)
theory Client
  imports Routes
begin

text \<open>
  \<open>beam-init-client/src/blocking.rs\<close> and \<open>error.rs\<close>: the requests the client library makes
  and how it reads the answers. The transport (reqwest on a Unix socket) is an argument: the
  path and query the server sees for the text of the URL (\<open>url_ok\<close>), and the result of a
  request, a transport error or a response.
\<close>

section \<open>Errors\<close>

datatype client_error =
    Io io_error
  | SocketNotFound
  | Creation string
  | Transport string
  | Decode string
  | ResponseError nat string

text \<open>\<open>Display\<close>; \<open>show_status\<close> is the \<open>Display\<close> of an HTTP status (its code and reason).\<close>

fun client_error_to_string :: "(nat \<Rightarrow> string) \<Rightarrow> client_error \<Rightarrow> string" where
  "client_error_to_string show_status (Io err) = ''i/o error: '' @ io_msg err"
| "client_error_to_string show_status SocketNotFound = ''beam-init socket not found''"
| "client_error_to_string show_status (Creation err) = ''client creation failed: '' @ err"
| "client_error_to_string show_status (Transport err) = ''request failed: '' @ err"
| "client_error_to_string show_status (Decode err) = ''response decoding failed: '' @ err"
| "client_error_to_string show_status (ResponseError code body) =
     ''server returned '' @ show_status code @ '': '' @ body"

text \<open>
  \<open>with_socket\<close>: whether the socket exists, or the error of asking, and the result of
  building the HTTP client. The client itself is nothing but its socket path.
\<close>

definition with_socket :: "string \<Rightarrow> io_error + bool \<Rightarrow> string + unit \<Rightarrow> client_error + string" where
  "with_socket path found build =
     (case found of
        Inl err \<Rightarrow> Inl (Io err)
      | Inr False \<Rightarrow> Inl SocketNotFound
      | Inr True \<Rightarrow> (case build of Inl err \<Rightarrow> Inl (Creation err) | Inr _ \<Rightarrow> Inr path))"

definition client_new :: "io_error + bool \<Rightarrow> string + unit \<Rightarrow> client_error + string" where
  "client_new = with_socket API_SOCKET_PATH"

section \<open>Requests\<close>

text \<open>A request as it is handed to the transport: the text after the host, and the timeout in seconds.\<close>

record client_request =
  cr_method :: http_method
  cr_target :: string
  cr_body :: http_body
  cr_timeout :: "nat option"

definition THIRTY_SECONDS :: nat where
  "THIRTY_SECONDS = 30"

definition service_path :: "string \<Rightarrow> string" where
  "service_path name = ''/service/'' @ name"

definition service_action_path :: "string \<Rightarrow> string \<Rightarrow> string" where
  "service_action_path name action = service_path name @ ''/'' @ action"

definition get_raw_with_timeout :: "string \<Rightarrow> nat option \<Rightarrow> client_request" where
  "get_raw_with_timeout path timeout =
     \<lparr>cr_method = GET, cr_target = path, cr_body = NoBody, cr_timeout = timeout\<rparr>"

definition get_raw :: "string \<Rightarrow> client_request" where
  "get_raw path = get_raw_with_timeout path (Some THIRTY_SECONDS)"

definition post_request :: "string \<Rightarrow> http_body \<Rightarrow> client_request" where
  "post_request path body =
     \<lparr>cr_method = POST, cr_target = path, cr_body = body, cr_timeout = Some THIRTY_SECONDS\<rparr>"

definition delete_request :: "string \<Rightarrow> client_request" where
  "delete_request path =
     \<lparr>cr_method = DELETE, cr_target = path, cr_body = NoBody, cr_timeout = Some THIRTY_SECONDS\<rparr>"

text \<open>The methods of the client, and the request each makes.\<close>

datatype client_call =
    CallCreate string create_service_req
  | CallList
  | CallStop string bool
  | CallRestart string
  | CallShow string
  | CallFreeze string
  | CallThaw string
  | CallLogs string
  | CallFollowLogs string
  | CallAttached string
  | CallDetached string
  | CallSignal string c_int
  | CallWait string status_kind "nat option"
  | CallVersion

fun client_request_of :: "client_call \<Rightarrow> client_request" where
  "client_request_of (CallCreate name svc) = post_request (service_path name) (JsonBody svc)"
| "client_request_of CallList = get_raw ''/services''"
| "client_request_of (CallStop name prune) =
     (if prune then delete_request (service_path name)
      else post_request (service_action_path name ''stop'') JsonEmpty)"
| "client_request_of (CallRestart name) = post_request (service_action_path name ''restart'') JsonEmpty"
| "client_request_of (CallShow name) = post_request (service_action_path name ''show'') JsonEmpty"
| "client_request_of (CallFreeze name) = post_request (service_action_path name ''freeze'') JsonEmpty"
| "client_request_of (CallThaw name) = post_request (service_action_path name ''thaw'') JsonEmpty"
| "client_request_of (CallLogs name) = get_raw (service_action_path name ''logs'' @ ''?follow=false'')"
| "client_request_of (CallFollowLogs name) =
     get_raw_with_timeout (service_action_path name ''logs'' @ ''?follow=true'') None"
| "client_request_of (CallAttached name) =
     post_request (service_action_path name ''notify_pty_attached'') JsonEmpty"
| "client_request_of (CallDetached name) =
     post_request (service_action_path name ''notify_pty_detached'') JsonEmpty"
| "client_request_of (CallSignal name sig) =
     post_request (service_action_path name ''send_signal'') (JsonSignal sig)"
| "client_request_of (CallWait name k timeout) =
     get_raw_with_timeout (service_action_path name ''wait'' @ ''?state='' @ kind_to_string k) timeout"
| "client_request_of CallVersion = get_raw ''/version''"

section \<open>Answers\<close>

text \<open>
  \<open>send\<close>: a transport error, or a response; a status of 400 or more is an error with the
  body's text. The body is its text where it is read as text, and its JSON value where it is
  decoded; \<open>body_text\<close> is the text of a content and \<open>decode\<close> the typed value of it.
\<close>

definition send :: "(content \<Rightarrow> string) \<Rightarrow> string + http_response \<Rightarrow> client_error + content" where
  "send body_text r =
     (case r of
        Inl err \<Rightarrow> Inl (Transport err)
      | Inr (code, body) \<Rightarrow>
          if 400 \<le> code \<and> code < 600 then Inl (ResponseError code (body_text body)) else Inr body)"

definition decode_json :: "(content \<Rightarrow> string + 'a) \<Rightarrow> content \<Rightarrow> client_error + 'a" where
  "decode_json decode body = (case decode body of Inl err \<Rightarrow> Inl (Decode err) | Inr x \<Rightarrow> Inr x)"

definition request_json ::
    "(content \<Rightarrow> string) \<Rightarrow> (content \<Rightarrow> string + 'a) \<Rightarrow> string + http_response \<Rightarrow> client_error + 'a" where
  "request_json body_text decode r = and_then (send body_text r) (decode_json decode)"

section \<open>From the client to the handler\<close>

text \<open>
  \<open>url_ok transport\<close>: text of unreserved characters and slashes without dot segments reaches
  the server as it is, and what follows a question mark is the query.
\<close>

definition plain_path :: "string \<Rightarrow> bool" where
  "plain_path path \<longleftrightarrow> (\<exists>ss. path = concat (map (\<lambda>s. CHR ''/'' # s) ss) \<and> list_all plain ss)"

definition url_ok :: "(string \<Rightarrow> string \<times> (string \<times> string) list) \<Rightarrow> bool" where
  "url_ok transport \<longleftrightarrow>
     (\<forall>path. plain_path path \<longrightarrow> transport path = (path, [])) \<and>
     (\<forall>path k v. plain_path path \<longrightarrow> plain k \<longrightarrow> plain v \<longrightarrow>
        transport (path @ ''?'' @ k @ ''='' @ v) = (path, [(k, v)]))"

definition received ::
    "(string \<Rightarrow> string \<times> (string \<times> string) list) \<Rightarrow> client_request \<Rightarrow> http_request" where
  "received transport r =
     \<lparr>http_method = cr_method r, http_path = fst (transport (cr_target r)),
      http_query = snd (transport (cr_target r)), http_body = cr_body r\<rparr>"

text \<open>What a call of the client means to the main task.\<close>

fun meant :: "version_response \<Rightarrow> client_call \<Rightarrow> credentials \<Rightarrow> handling" where
  "meant v (CallCreate name svc) c = SendEvent (Command (CreateService name svc) c)"
| "meant v CallList c = SendEvent (Command ListServices c)"
| "meant v (CallStop name prune) c = SendEvent (Command (StopService name prune) c)"
| "meant v (CallRestart name) c = SendEvent (Command (RestartService name) c)"
| "meant v (CallShow name) c = SendEvent (Command (ShowService name) c)"
| "meant v (CallFreeze name) c = SendEvent (Command (FreezeService name) c)"
| "meant v (CallThaw name) c = SendEvent (Command (ThawService name) c)"
| "meant v (CallLogs name) c = SendEvent (Command (ServiceLogs name False) c)"
| "meant v (CallFollowLogs name) c = SendEvent (Command (ServiceLogs name True) c)"
| "meant v (CallAttached name) c = SendEvent (Command (NotifyPtyAttached name) c)"
| "meant v (CallDetached name) c = SendEvent (Command (NotifyPtyDetached name) c)"
| "meant v (CallSignal name sig) c = SendEvent (Command (SendSignal name sig) c)"
| "meant v (CallWait name k timeout) c = WaitFor (WaitService name c) k"
| "meant v CallVersion c = Answer (200, VersionJson v)"

fun call_name :: "client_call \<Rightarrow> string option" where
  "call_name (CallCreate name _) = Some name"
| "call_name CallList = None"
| "call_name (CallStop name _) = Some name"
| "call_name (CallRestart name) = Some name"
| "call_name (CallShow name) = Some name"
| "call_name (CallFreeze name) = Some name"
| "call_name (CallThaw name) = Some name"
| "call_name (CallLogs name) = Some name"
| "call_name (CallFollowLogs name) = Some name"
| "call_name (CallAttached name) = Some name"
| "call_name (CallDetached name) = Some name"
| "call_name (CallSignal name _) = Some name"
| "call_name (CallWait name _ _) = Some name"
| "call_name CallVersion = None"

section \<open>Requests reach the handler that is meant\<close>

lemma plain_path_Cons: "plain s \<Longrightarrow> plain_path path \<Longrightarrow> plain_path (CHR ''/'' # s @ path)"
  unfolding plain_path_def
  by (elim exE conjE, rule_tac x = "s # ss" in exI) simp

lemma plain_path_Nil: "plain_path []"
  unfolding plain_path_def by (rule exI [of _ "[]"]) simp

lemma plain_path_service: "plain name \<Longrightarrow> plain_path (service_path name)"
  using plain_path_Cons [of "''service''", OF _ plain_path_Cons [of name "[]"]]
  by (simp add: service_path_def plain_path_Nil plain_def unreserved_def is_ascii_alphanumeric_def)

lemma plain_path_action: "plain name \<Longrightarrow> plain action \<Longrightarrow> plain_path (service_action_path name action)"
  using plain_path_Cons [of "''service''", OF _ plain_path_Cons [of name, OF _ plain_path_Cons [of action "[]"]]]
  by (simp add: service_action_path_def service_path_def plain_path_Nil plain_def unreserved_def is_ascii_alphanumeric_def)

lemma plain_kinds: "\<forall>k. plain (kind_to_string k)"
  by code_simp

lemma plain_kind: "plain (kind_to_string k)"
  using plain_kinds by blast

lemma transport_target:
  assumes "url_ok transport"
  shows "plain name \<Longrightarrow> transport (service_path name) = (service_path name, [])"
    and "plain name \<Longrightarrow> plain action \<Longrightarrow>
      transport (service_action_path name action) = (service_action_path name action, [])"
    and "plain name \<Longrightarrow> plain action \<Longrightarrow> plain k \<Longrightarrow> plain v \<Longrightarrow>
      transport (service_action_path name action @ ''?'' @ k @ ''='' @ v) = (service_action_path name action, [(k, v)])"
    and "transport ''/services'' = (''/services'', [])" "transport ''/version'' = (''/version'', [])"
proof -
  have "plain_path (CHR ''/'' # s)" if "plain s" for s
    using plain_path_Cons [OF that plain_path_Nil] by simp
  then show "transport ''/services'' = (''/services'', [])" "transport ''/version'' = (''/version'', [])"
    using assms by (auto simp: url_ok_def plain_def unreserved_def is_ascii_alphanumeric_def)
qed (use assms plain_path_service plain_path_action in \<open>simp_all add: url_ok_def\<close>)

lemma route_target:
  assumes "router_ok find_route"
  shows "plain name \<Longrightarrow> find_route (service_path name) = Some (''/service/{name}'', name)"
    and "plain name \<Longrightarrow> action_pattern action \<in> fst ` set routes \<Longrightarrow>
      find_route (service_action_path name action) = Some (action_pattern action, name)"
    and "find_route ''/services'' = Some (''/services'', [])" "find_route ''/version'' = Some (''/version'', [])"
proof -
  show "plain name \<Longrightarrow> find_route (service_path name) = Some (''/service/{name}'', name)"
    using assms by (simp add: router_ok_def service_path_def)
  show "plain name \<Longrightarrow> action_pattern action \<in> fst ` set routes \<Longrightarrow>
      find_route (service_action_path name action) = Some (action_pattern action, name)"
    using assms unfolding router_ok_def service_action_path_def service_path_def append_assoc by blast
  show "find_route ''/services'' = Some (''/services'', [])" "find_route ''/version'' = Some (''/version'', [])"
    using assms by (simp_all add: router_ok_def routes_def)
qed

lemmas route_defs = create_service_route_def stop_service_route_def delete_service_route_def
  restart_service_route_def freeze_service_route_def thaw_service_route_def show_service_route_def
  list_services_route_def notify_pty_attached_route_def notify_pty_detached_route_def
  send_signal_route_def service_logs_route_def wait_service_route_def version_route_def
  service_logs_query_def wait_condition_query_def query_field_def

lemmas request_defs = post_request_def delete_request_def get_raw_def get_raw_with_timeout_def

lemma plain_literals:
  "plain ''stop''" "plain ''restart''" "plain ''show''" "plain ''freeze''" "plain ''thaw''" "plain ''logs''"
  "plain ''notify_pty_attached''" "plain ''notify_pty_detached''" "plain ''send_signal''" "plain ''wait''"
  "plain ''follow''" "plain ''state''" "plain ''true''" "plain ''false''"
  by (simp_all add: plain_def unreserved_def is_ascii_alphanumeric_def)

lemma kinds_from_to: "\<forall>k. kind_from_str (kind_to_string k) = Inr k"
  by code_simp

lemma kind_from_to: "kind_from_str (kind_to_string k) = Inr k"
  using kinds_from_to by blast

text \<open>
  C15: whatever method of the client is called with a plain service name, the request it makes
  reaches the handler that is meant, with the arguments of the call: the event sent to the
  main task carries the command, the name, the flags and the body the caller gave.
\<close>

theorem call_reaches_handler:
  assumes "url_ok transport" "router_ok find_route"
    and "case call_name call of Some name \<Rightarrow> plain name | None \<Rightarrow> True"
  shows "dispatch find_route v c (received transport (client_request_of call)) = meant v call c"
proof -
  note tr = transport_target [OF assms(1)] and rt = route_target [OF assms(2)]
  have query: "transport (service_action_path name ''logs'' @ ''?follow=false'') = (service_action_path name ''logs'', [(''follow'', ''false'')])"
    "transport (service_action_path name ''logs'' @ ''?follow=true'') = (service_action_path name ''logs'', [(''follow'', ''true'')])"
    "transport (service_action_path name ''wait'' @ ''?state='' @ kind_to_string k) = (service_action_path name ''wait'', [(''state'', kind_to_string k)])"
    if "plain name" for name k
    using tr(3) [OF that, of "''logs''" "''follow''" "''false''"] tr(3) [OF that, of "''logs''" "''follow''" "''true''"]
      tr(3) [OF that, of "''wait''" "''state''" "kind_to_string k"] plain_kind
    by (simp_all add: plain_literals)
  show ?thesis
    using assms(3)
    by (cases call)
      (simp_all add: dispatch_def received_def request_defs route_defs plain_literals tr rt query(1,2) query(3) [unfolded append.simps] kind_from_to
        routes_def action_pattern_def split: if_splits)
qed

text \<open>A transport that keeps the promise: the target is cut at the question mark, the query at its signs.\<close>

definition cut_query :: "string \<Rightarrow> string \<times> (string \<times> string) list" where
  "cut_query target =
     (case split_once CHR ''?'' target of
        None \<Rightarrow> (target, [])
      | Some (path, q) \<Rightarrow> (path, (case split_once CHR ''='' q of None \<Rightarrow> [(q, [])] | Some kv \<Rightarrow> [kv])))"

lemma plain_no_sign: "plain s \<Longrightarrow> CHR ''?'' \<notin> set s \<and> CHR ''='' \<notin> set s"
  by (auto simp: plain_def list_all_iff unreserved_def is_ascii_alphanumeric_def)

lemma plain_path_no_sign: "plain_path path \<Longrightarrow> CHR ''?'' \<notin> set path"
  using plain_no_sign by (fastforce simp: plain_path_def list_all_iff split: if_splits)

lemma split_once_at: "c \<notin> set k \<Longrightarrow> split_once c (k @ c # v) = Some (k, v)"
  by (simp add: split_once_Some)

lemma cut_query_ok: "url_ok cut_query"
  by (auto simp: url_ok_def cut_query_def plain_no_sign plain_path_no_sign split_once_None [THEN iffD2] split_once_at)

definition sample_version :: version_response where
  "sample_version = \<lparr>version = ''1.0'', sha = ''abc''\<rparr>"

theorem call_reaches_handler_witness:
  "dispatch segment_router sample_version root (received cut_query (client_request_of (CallWait ''web'' KRunning None))) =
     WaitFor (WaitService ''web'' root) KRunning"
  using call_reaches_handler [OF cut_query_ok segment_router_ok, of "CallWait ''web'' KRunning None" sample_version root]
  by (simp add: plain_def unreserved_def is_ascii_alphanumeric_def)

text \<open>
  C26: the client does not escape service names: creating a service whose name is another
  plain name followed by \<open>/stop\<close> cannot be told from stopping that other service, and the
  server stops it.
\<close>

theorem create_name_injection:
  assumes "url_ok transport" "router_ok find_route" "plain name"
  shows "dispatch find_route v c (received transport (client_request_of (CallCreate (name @ ''/stop'') svc))) =
    SendEvent (Command (StopService name False) c)"
proof -
  have "service_path (name @ ''/stop'') = service_action_path name ''stop''"
    by (simp add: service_path_def service_action_path_def)
  then show ?thesis
    using transport_target(2) [OF assms(1,3), of "''stop''"] route_target(2) [OF assms(2,3), of "''stop''"]
    by (simp add: dispatch_def received_def request_defs route_defs plain_literals routes_def action_pattern_def)
qed

definition sample_request :: create_service_req where
  "sample_request =
     \<lparr>req_cmd = ''sleep'', req_args = [''60''], req_env = bt_empty, req_liveness = None, req_pty = False,
      req_labels = bt_empty, req_graceful_termination_period = 10\<rparr>"

theorem create_name_injection_witness:
  "dispatch segment_router sample_version root
     (received cut_query (client_request_of (CallCreate ''web/stop'' sample_request))) =
     SendEvent (Command (StopService ''web'' False) root)"
  using create_name_injection [OF cut_query_ok segment_router_ok, of "''web''" sample_version root sample_request]
  by (simp add: plain_def unreserved_def is_ascii_alphanumeric_def)

lemma service_error_iff:
  assumes "\<And>t. body_text (Text t) = t"
  shows "request_json body_text decode (Inr (into_response r)) = Inl (ResponseError code text) \<longleftrightarrow>
    (\<exists>err. r = Inl err \<and> error_response err = (code, text))"
proof -
  have "error_response err = (n, t) \<Longrightarrow> 400 \<le> n \<and> n < 600" for err n t by (cases err) auto
  then show ?thesis
    using assms
    by (cases r) (auto simp: request_json_def send_def into_response_def error_content_def decode_json_def split: prod.splits sum.splits)
qed

text \<open>
  C25: the caller of the client sees an error response exactly when the service manager
  refused the command, and then with the HTTP status and text of the manager's error; a
  command that succeeded is at worst reported as not decodable.
\<close>

theorem service_error_reported:
  assumes "\<And>t. body_text (Text t) = t"
  shows "request_json body_text decode (Inr (into_response r)) = Inl (ResponseError code text) \<longleftrightarrow>
    (\<exists>err. r = Inl err \<and> error_response err = (code, text))"
  using assms by (rule service_error_iff)

theorem service_error_reported_witness:
  "request_json (\<lambda>b. case b of Text t \<Rightarrow> t | _ \<Rightarrow> []) (\<lambda>b. Inr ()) (Inr (into_response (Inl ShuttingDown))) =
     Inl (ResponseError 503 ''beam-init is shutting down'')"
  using service_error_reported [of "\<lambda>b. case b of Text t \<Rightarrow> t | _ \<Rightarrow> []" "\<lambda>b. Inr ()" "Inl ShuttingDown" 503] by simp

end
