(* ===== verification/Ctl_Text.thy ===== *)
theory Ctl_Text
  imports Client
begin

text \<open>
  The text \<open>bin/beamctl.rs\<close> reads and prints: labels, environment variables, durations,
  generated names and the display of labels. Parsing of the command line itself is the work
  of the library clap; these are the parsers and printers the source gives it.
\<close>

section \<open>Numbers\<close>

text \<open>\<open>str::parse::<u64>\<close> of the standard library.\<close>

datatype parse_int_error = IntEmpty | IntInvalidDigit | IntPosOverflow

definition to_digit :: "char \<Rightarrow> nat option" where
  "to_digit c = (if CHR ''0'' \<le> c \<and> c \<le> CHR ''9'' then Some (of_char c - 48) else None)"

definition u64_end :: nat where
  "u64_end = 2 ^ 64"

fun parse_digits :: "nat \<Rightarrow> string \<Rightarrow> parse_int_error + nat" where
  "parse_digits acc [] = Inr acc"
| "parse_digits acc (c # cs) =
     (case to_digit c of
        None \<Rightarrow> Inl IntInvalidDigit
      | Some d \<Rightarrow> if u64_end \<le> acc * 10 + d then Inl IntPosOverflow else parse_digits (acc * 10 + d) cs)"

definition parse_u64 :: "string \<Rightarrow> parse_int_error + nat" where
  "parse_u64 s =
     (if s = [] then Inl IntEmpty
      else if s = ''+'' \<or> s = ''-'' then Inl IntInvalidDigit
      else parse_digits 0 (if hd s = CHR ''+'' then tl s else s))"

text \<open>A duration is its seconds.\<close>

definition parse_duration_seconds :: "string \<Rightarrow> parse_int_error + nat" where
  "parse_duration_seconds s = and_then (parse_u64 s) (\<lambda>n. Inr n)"

section \<open>Labels and environment variables\<close>

type_synonym label = "string \<times> string"

datatype parse_label_error = InvalidKeyValue string | NotKeyValue

definition parse_label :: "string \<Rightarrow> parse_label_error + label" where
  "parse_label l =
     (if list_ex is_control (chars l) then Inl (InvalidKeyValue l)
      else case split_once CHR ''='' l of
          None \<Rightarrow> Inl NotKeyValue
        | Some (k, v) \<Rightarrow> if CHR ''='' \<in> set v then Inl (InvalidKeyValue l) else Inr (k, v))"

fun parse_label_error_to_string :: "parse_label_error \<Rightarrow> string" where
  "parse_label_error_to_string NotKeyValue = ''not a key-value pair''"
| "parse_label_error_to_string (InvalidKeyValue v) =
     [CHR 0x27] @ v @ [CHR 0x27] @ '' is not a valid key-value pair''"

definition parse_key_value :: "string \<Rightarrow> string + label" where
  "parse_key_value s =
     (case split_once CHR ''='' s of
        None \<Rightarrow> Inl (''invalid KEY=VALUE: `=` not found in '' @ s)
      | Some (k, v) \<Rightarrow> if k = [] then Inl ''environment variable key cannot be empty'' else Inr (k, v))"

section \<open>Display of labels\<close>

definition intersperse :: "'a \<Rightarrow> 'a list \<Rightarrow> 'a list" where
  "intersperse sep xs =
     take (if length xs = 0 then 0 else 2 * length xs - 1) (concat (map (\<lambda>x. [x, sep]) xs))"

definition label_text :: "label \<Rightarrow> string" where
  "label_text kv = (case kv of (k, v) \<Rightarrow> k @ ''='' @ v)"

definition display_labels :: "(string, string) btree \<Rightarrow> string" where
  "display_labels ls = (if ls = [] then [] else concat (intersperse '','' (map label_text ls)))"

section \<open>Generated names\<close>

text \<open>\<open>u64::from_ne_bytes\<close> on a little-endian machine.\<close>

fun from_le_bytes :: "string \<Rightarrow> nat" where
  "from_le_bytes [] = 0"
| "from_le_bytes (b # bs) = of_char b + 256 * from_le_bytes bs"

definition pad_left :: "nat \<Rightarrow> string \<Rightarrow> string" where
  "pad_left n s = replicate (n - length s) (CHR ''0'') @ s"

definition gen_name :: "string \<Rightarrow> string" where
  "gen_name buf = pad_left 16 (show_base 16 (from_le_bytes buf))"

section \<open>Digits\<close>

definition digit_value :: "char \<Rightarrow> nat" where
  "digit_value c = (if of_char c < (58 :: nat) then of_char c - 48 else of_char c - 87)"

definition digits_value :: "nat \<Rightarrow> nat \<Rightarrow> string \<Rightarrow> nat" where
  "digits_value b acc s = foldl (\<lambda>a c. a * b + digit_value c) acc s"

lemma digit_value_char [simp]: "d < 16 \<Longrightarrow> digit_value (digit_char d) = d"
  by (simp add: digit_value_def of_char_digit_char)

lemma digits_value_append: "digits_value b acc (s @ t) = digits_value b (digits_value b acc s) t"
  by (simp add: digits_value_def)

lemma digits_value_show: "1 < b \<Longrightarrow> b \<le> 16 \<Longrightarrow> digits_value b 0 (show_base b n) = n"
proof (induction n rule: less_induct)
  case (less n)
  show ?case
  proof (cases "n < b")
    case True
    then show ?thesis using less.prems by (simp add: show_base.simps [of b n] digits_value_def)
  next
    case False
    have "n mod b < 16" using less.prems by (meson less_le_trans mod_less_divisor not_less zero_less_one_class.zero_less_one order.strict_trans)
    with False less.prems less.IH [of "n div b"] show ?thesis
      by (simp add: show_base.simps [of b n] digits_value_append) (simp add: digits_value_def)
  qed
qed

lemma show_base_length: "1 < b \<Longrightarrow> 0 < k \<Longrightarrow> n < b ^ k \<Longrightarrow> length (show_base b n) \<le> k"
proof (induction n arbitrary: k rule: less_induct)
  case (less n)
  show ?case
  proof (cases "n < b")
    case True
    then show ?thesis using less.prems by (simp add: show_base.simps [of b n])
  next
    case False
    then obtain j where k: "k = Suc j" "0 < j"
      using less.prems by (cases "k - 1"; cases k) auto
    then have "n div b < b ^ j" using less.prems by (simp add: less_mult_imp_div_less mult.commute)
    with False less.prems less.IH [of "n div b" j] k show ?thesis
      by (simp add: show_base.simps [of b n])
  qed
qed

lemma digits_value_zeros: "digits_value b 0 (replicate n (CHR ''0'') @ s) = digits_value b 0 s"
  by (induction n) (simp_all add: digits_value_def digit_value_def)

lemma to_digit_char: "d < 10 \<Longrightarrow> to_digit (digit_char d) = Some d"
  by (auto simp: to_digit_def digit_char_def less_eq_char_def take_bit_eq_mod)

text \<open>A run of digits is read as its value as long as that fits into 64 bits.\<close>

lemma digits_value_mono: "0 < b \<Longrightarrow> acc \<le> digits_value b acc s"
proof (induction s arbitrary: acc)
  case (Cons c s)
  have "acc \<le> acc * b + digit_value c" using Cons.prems by (metis le_add1 le_trans mult.right_neutral mult_le_mono2 Suc_leI One_nat_def)
  also have "\<dots> \<le> digits_value b (acc * b + digit_value c) s" by (rule Cons.IH [OF Cons.prems])
  finally show ?case by (simp add: digits_value_def)
qed (simp add: digits_value_def)

lemma to_digit_value: "to_digit c = Some d \<Longrightarrow> digit_value c = d"
  by (auto simp: to_digit_def digit_value_def less_eq_char_def split: if_splits)

lemma parse_digits_value:
  "list_all (\<lambda>c. to_digit c \<noteq> None) s \<Longrightarrow> acc < u64_end \<Longrightarrow> parse_digits acc s =
     (if digits_value 10 acc s < u64_end then Inr (digits_value 10 acc s) else Inl IntPosOverflow)"
proof (induction s arbitrary: acc)
  case (Cons c s)
  then obtain d where d: "to_digit c = Some d" and rest: "list_all (\<lambda>c. to_digit c \<noteq> None) s" by auto
  have step: "digits_value 10 acc (c # s) = digits_value 10 (acc * 10 + d) s"
    using to_digit_value [OF d] by (simp add: digits_value_def)
  show ?case
  proof (cases "u64_end \<le> acc * 10 + d")
    case True
    then have "u64_end \<le> digits_value 10 (acc * 10 + d) s" by (rule le_trans) (rule digits_value_mono, simp)
    with True d show ?thesis unfolding step by simp
  next
    case False
    then have "acc * 10 + d < u64_end" by simp
    from Cons.IH [OF rest this] False d show ?thesis unfolding step by simp
  qed
qed (simp add: digits_value_def)

text \<open>
  C29: a decimal number of seconds is read as that duration exactly when it fits into 64 bits,
  with or without a plus sign; a larger one is refused, never wrapped around.
\<close>

theorem duration_bounds:
  "parse_duration_seconds (show_nat n) = (if n < 2 ^ 64 then Inr n else Inl IntPosOverflow) \<and>
   parse_duration_seconds (CHR ''+'' # show_nat n) = (if n < 2 ^ 64 then Inr n else Inl IntPosOverflow)"
proof -
  have digits: "\<exists>d < 10. c = digit_char d" if "c \<in> set (show_nat n)" for c
    using that unfolding show_nat_def by (rule show_base_digits [rotated 2]) simp_all
  then have "list_all (\<lambda>c. to_digit c \<noteq> None) (show_nat n)"
    using to_digit_char unfolding list_all_iff by fastforce
  then have "parse_digits 0 (show_nat n) = (if n < 2 ^ 64 then Inr n else Inl IntPosOverflow)"
    by (subst parse_digits_value) (simp_all add: show_nat_def digits_value_show u64_end_def)
  moreover have "digit_char d \<noteq> CHR ''+''" "digit_char d \<noteq> CHR ''-''" if "d < 10" for d
    using that by (auto simp: digit_char_def dest: arg_cong [where f = "of_char :: char \<Rightarrow> nat"])
  with digits have "CHR ''+'' \<notin> set (show_nat n)" "CHR ''-'' \<notin> set (show_nat n)"
    by metis+
  then have "hd (show_nat n) \<noteq> CHR ''+''" "show_nat n \<noteq> ''+''" "show_nat n \<noteq> ''-''"
    by (cases "show_nat n"; auto)+
  ultimately show ?thesis by (simp add: parse_duration_seconds_def parse_u64_def)
qed

section \<open>Generated names are valid\<close>

lemma of_char_byte: "(of_char c :: nat) < 256"
  by simp

lemma from_le_bytes_bound: "from_le_bytes bs < 256 ^ length bs"
proof (induction bs)
  case (Cons b bs)
  have "x < p \<Longrightarrow> of_char b + 256 * x < 256 * p" for x p :: nat
    using of_char_byte [of b] by linarith
  with Cons show ?case by simp
qed simp

lemma digit_unique: "a < 256 \<Longrightarrow> c < 256 \<Longrightarrow> a + 256 * x = c + 256 * y \<Longrightarrow> a = c \<and> x = (y :: nat)"
proof -
  assume a: "a < 256" "c < 256" and eq: "a + 256 * x = c + 256 * y"
  have "(a + 256 * x) mod 256 = a" "(c + 256 * y) mod 256 = c" using a by simp_all
  with eq show "a = c \<and> x = y" by simp
qed

lemma from_le_bytes_inj: "length bs = length cs \<Longrightarrow> from_le_bytes bs = from_le_bytes cs \<Longrightarrow> bs = cs"
proof (induction bs cs rule: list_induct2)
  case (Cons b bs c cs)
  have "(of_char b :: nat) = of_char c \<and> from_le_bytes bs = from_le_bytes cs"
    using Cons.prems digit_unique [OF of_char_byte of_char_byte, of b "from_le_bytes bs" c "from_le_bytes cs"] by simp
  with Cons.IH show ?case by simp
qed simp

text \<open>
  C28: a generated service name has 16 lower-case hexadecimal digits, so the server accepts it
  and it needs no escaping in a path, and different random bytes give different names.
\<close>

theorem gen_name_valid:
  assumes "length buf = 8"
  shows "length (gen_name buf) = 16 \<and> plain (gen_name buf) \<and>
    set (gen_name buf) \<subseteq> digit_char ` {..<16} \<and>
    (length buf' = 8 \<and> gen_name buf' = gen_name buf \<longrightarrow> buf' = buf)"
proof -
  have "length (show_base 16 (from_le_bytes b)) \<le> 16" if "length b = 8" for b
    using from_le_bytes_bound [of b] that by (intro show_base_length) simp_all
  then have len: "length (gen_name b) = 16" if "length b = 8" for b
    using that by (simp add: gen_name_def pad_left_def)
  have "CHR ''0'' = digit_char 0" by code_simp
  then have digits: "set (gen_name buf) \<subseteq> digit_char ` {..<16}"
    by (auto simp: gen_name_def pad_left_def dest: show_base_digits [rotated 2])
  have "unreserved (digit_char d)" if "d < 16" for d
    using that by (auto simp: digit_char_def unreserved_def is_ascii_alphanumeric_def less_eq_char_def take_bit_eq_mod)
  with digits have "list_all unreserved (gen_name buf)" by (auto simp: list_all_iff)
  then have "plain (gen_name buf)" using len [OF assms] by (auto simp: plain_def)
  moreover have "digits_value 16 0 (gen_name b) = from_le_bytes b" for b
    by (simp add: gen_name_def pad_left_def digits_value_zeros digits_value_show)
  then have "gen_name buf' = gen_name buf \<Longrightarrow> length buf' = 8 \<Longrightarrow> buf' = buf"
    using from_le_bytes_inj [of buf' buf] assms by metis
  ultimately show ?thesis using len [OF assms] digits by blast
qed

theorem gen_name_valid_witness:
  "length (gen_name ''abcdefgh'') = 16 \<and> plain (gen_name ''abcdefgh'')"
  using gen_name_valid [of "''abcdefgh''"] by simp

section \<open>Labels survive their display\<close>

lemma intersperse_Cons: "intersperse sep (x # xs) = x # concat (map (\<lambda>y. [sep, y]) xs)"
proof (induction xs arbitrary: x)
  case (Cons y ys)
  then show ?case by (simp add: intersperse_def)
qed (simp add: intersperse_def)

text \<open>\<open>str::split\<close> at a character, as clap splits the values of an option.\<close>

fun split_at :: "char \<Rightarrow> string \<Rightarrow> string list" where
  "split_at c [] = [[]]"
| "split_at c (x # xs) =
     (if x = c then [] # split_at c xs
      else (case split_at c xs of s # ss \<Rightarrow> (x # s) # ss | [] \<Rightarrow> [[x]]))"

lemma split_at_append: "c \<notin> set s \<Longrightarrow> split_at c (s @ c # t) = s # split_at c t \<and> split_at c s = [s]"
  by (induction s) auto

lemma split_at_intersperse:
  "c \<notin> set x \<Longrightarrow> list_all (\<lambda>y. c \<notin> set y) xs \<Longrightarrow> split_at c (concat (intersperse [c] (x # xs))) = x # xs"
proof (induction xs arbitrary: x)
  case Nil
  then show ?case using split_at_append [of c x] by (simp add: intersperse_Cons)
next
  case (Cons y ys)
  then have "split_at c (concat (intersperse [c] (y # ys))) = y # ys" by simp
  then show ?case using split_at_append [of c x] Cons.prems by (simp add: intersperse_Cons)
qed

lemma parse_label_text:
  "parse_label l = Inr (k, v) \<longleftrightarrow>
     l = label_text (k, v) \<and> CHR ''='' \<notin> set k \<and> CHR ''='' \<notin> set v \<and> \<not> list_ex is_control (chars l)"
proof
  assume "parse_label l = Inr (k, v)"
  then show "l = label_text (k, v) \<and> CHR ''='' \<notin> set k \<and> CHR ''='' \<notin> set v \<and> \<not> list_ex is_control (chars l)"
    by (auto simp: parse_label_def label_text_def split_once_Some split: option.splits if_splits)
next
  assume "l = label_text (k, v) \<and> CHR ''='' \<notin> set k \<and> CHR ''='' \<notin> set v \<and> \<not> list_ex is_control (chars l)"
  then show "parse_label l = Inr (k, v)"
    by (auto simp: parse_label_def label_text_def split_once_at)
qed



end
