(* ===== verification/Pty_Store.thy ===== *)
theory Pty_Store
  imports Main_Loop
begin

text \<open>
  How a terminal's descriptor gets from the init process to \<open>beamctl\<close>:
  \<open>system/unix_socket.rs\<close> (passing a descriptor over a Unix socket), \<open>ptystore.rs\<close> (the
  server's side of a connection) and \<open>get_pty_from_store\<close> of \<open>bin/beamctl.rs\<close> (the client's
  side). What the kernel does with \<open>sendmsg\<close> and \<open>recvmsg\<close> is an argument.
\<close>

section \<open>Passing a descriptor\<close>

definition SOL_SOCKET :: c_int where "SOL_SOCKET = 1"
definition SCM_RIGHTS :: c_int where "SCM_RIGHTS = 1"

text \<open>\<open>CMSG_LEN(size_of::<c_int>())\<close>: a header of 16 bytes and the data, unpadded.\<close>

definition cmsg_len_int :: nat where
  "cmsg_len_int = 20"

record cmsg =
  cm_len :: nat
  cm_level :: c_int
  cm_type :: c_int
  cm_fd :: fd

record msg =
  msg_data :: string
  msg_control :: "cmsg option"

definition rights_message :: "string \<Rightarrow> fd \<Rightarrow> msg" where
  "rights_message d f =
     \<lparr>msg_data = d,
      msg_control = Some \<lparr>cm_len = cmsg_len_int, cm_level = SOL_SOCKET, cm_type = SCM_RIGHTS, cm_fd = f\<rparr>\<rparr>"

definition socket_send_fd :: "(msg \<Rightarrow> libc_result) \<Rightarrow> string \<Rightarrow> fd \<Rightarrow> panic + (io_error + c_int)" where
  "socket_send_fd sendmsg d f =
     (if d = [] then Inl ''must send at least a single byte for fds to be sent''
      else Inr (cerr (sendmsg (rights_message d f))))"

text \<open>\<open>recvmsg\<close> answers its result and the message it filled in.\<close>

definition received_fd :: "cmsg option \<Rightarrow> panic + (io_error + fd option)" where
  "received_fd control =
     (case control of
        None \<Rightarrow> Inr (Inr None)
      | Some h \<Rightarrow>
          if cm_level h \<noteq> SOL_SOCKET \<or> cm_type h \<noteq> SCM_RIGHTS
          then Inr (Inl (io_other InvalidData ''no SCM_RIGHTS control message received''))
          else if cm_len h \<noteq> cmsg_len_int then Inl ''assertion failed''
          else Inr (Inr (Some (cm_fd h))))"

definition socket_recv_fd :: "nat \<Rightarrow> libc_result \<times> msg \<Rightarrow> panic + (io_error + (int \<times> fd option))" where
  "socket_recv_fd buflen r =
     (if buflen = 0 then Inl ''must send at least a single byte for fds to be sent''
      else case cerr (fst r) of
          Inl err \<Rightarrow> Inr (Inl err)
        | Inr n \<Rightarrow> and_then (received_fd (msg_control (snd r))) (\<lambda>f. Inr (and_then f (\<lambda>f. Inr (n, f)))))"

section \<open>The server's side\<close>

text \<open>
  \<open>handle_connection\<close> up to the event: the bytes the client sends before it stops are
  \<open>bytes\<close>, the error of a read past them is \<open>eof\<close>.
\<close>

definition read_u8 :: "string \<Rightarrow> io_error + (nat \<times> string)" where
  "read_u8 bytes = (case bytes of [] \<Rightarrow> Inl eof | b # rest \<Rightarrow> Inr (of_char b, rest))"

definition read_exact :: "nat \<Rightarrow> string \<Rightarrow> io_error + string" where
  "read_exact n bytes = (if length bytes < n then Inl eof else Inr (take n bytes))"

datatype connection = Dropped string | Asks string credentials

definition connection_request :: "io_error + credentials \<Rightarrow> string \<Rightarrow> connection" where
  "connection_request peer bytes =
     (case peer of
        Inl err \<Rightarrow> Dropped (''No Unix peer credentials: '' @ io_msg err)
      | Inr c \<Rightarrow>
          (case read_u8 bytes of
             Inl err \<Rightarrow> Dropped (''Failed to read service name length from client: '' @ io_msg err)
           | Inr (name_len, rest) \<Rightarrow>
               (case read_exact name_len rest of
                  Inl err \<Rightarrow> Dropped (''Failed to read service name from client: '' @ io_msg err)
                | Inr name \<Rightarrow>
                    if valid_utf8 name then Asks name c else Dropped ''Service name is not UTF-8'')))"

text \<open>
  The whole connection: a request becomes the event \<open>GetPty\<close>, and the descriptor the main
  task answers is sent; if it answers none, the connection is closed.
\<close>

definition handle_connection ::
    "io_error + credentials \<Rightarrow> string \<Rightarrow> (event \<Rightarrow> fd option) \<Rightarrow> (msg \<Rightarrow> libc_result) \<Rightarrow> panic + msg option" where
  "handle_connection peer bytes main_task sendmsg =
     (case connection_request peer bytes of
        Dropped _ \<Rightarrow> Inr None
      | Asks name c \<Rightarrow>
          (case main_task (GetPty name c) of
             None \<Rightarrow> Inr None
           | Some f \<Rightarrow>
               and_then (socket_send_fd sendmsg [CHR 0x00] f) (\<lambda>r. Inr
                 (case r of Inl err \<Rightarrow> None | Inr _ \<Rightarrow> Some (rights_message [CHR 0x00] f)))))"

section \<open>The client's side\<close>

text \<open>The bytes \<open>get_pty_from_store\<close> writes: the length as one byte, and the name.\<close>

definition pty_request :: "string \<Rightarrow> panic + string" where
  "pty_request name =
     (if 255 < length name then Inl ''TryFromIntError'' else Inr (char_of (length name) # name))"

definition get_pty_from_store ::
    "string \<Rightarrow> io_error + unit \<Rightarrow> (string \<Rightarrow> libc_result \<times> msg) \<Rightarrow> panic + fd option" where
  "get_pty_from_store name connect exchange =
     (case connect of
        Inl err \<Rightarrow> Inl ''connect''
      | Inr _ \<Rightarrow>
          and_then (pty_request name) (\<lambda>bytes.
          and_then (socket_recv_fd 1 (exchange bytes)) (\<lambda>r.
          case r of Inl err \<Rightarrow> Inl ''recvmsg'' | Inr (n, f) \<Rightarrow> Inr f)))"

section \<open>From end to end\<close>

text \<open>
  The socket between the two sides: the client receives the message the server sent for the
  bytes it wrote, its descriptor renumbered by the kernel, or the end of the stream.
\<close>

definition renumbered :: "(fd \<Rightarrow> fd) \<Rightarrow> msg \<Rightarrow> msg" where
  "renumbered translate m =
     m\<lparr>msg_control := map_option (\<lambda>h. h\<lparr>cm_fd := translate (cm_fd h)\<rparr>) (msg_control m)\<rparr>"

definition socket_ok ::
    "(string \<Rightarrow> panic + msg option) \<Rightarrow> (fd \<Rightarrow> fd) \<Rightarrow> (string \<Rightarrow> libc_result \<times> msg) \<Rightarrow> bool" where
  "socket_ok serve translate exchange \<longleftrightarrow> (\<forall>bytes.
     (serve bytes = Inr None \<longrightarrow> fst (fst (exchange bytes)) = 0 \<and> msg_control (snd (exchange bytes)) = None) \<and>
     (\<forall>m. serve bytes = Inr (Some m) \<longrightarrow>
        fst (fst (exchange bytes)) = int (length (msg_data m)) \<and> snd (exchange bytes) = renumbered translate m))"

text \<open>The main task's side of the event: its next turn.\<close>

definition main_task_fd :: "os \<Rightarrow> env_os \<Rightarrow> manager \<Rightarrow> event \<Rightarrow> fd option" where
  "main_task_fd os e m ev = (case turn (os, e, ev) m of Inr (PtyFd f, _) \<Rightarrow> Some f | _ \<Rightarrow> None)"

text \<open>The terminal a client may have: that of a live service it may see.\<close>

definition terminal_of :: "service_status \<Rightarrow> pty option" where
  "terminal_of st = (case st of Running _ t \<Rightarrow> t | Frozen _ t \<Rightarrow> t | _ \<Rightarrow> None)"

definition attachable :: "credentials \<Rightarrow> string \<Rightarrow> manager \<Rightarrow> bool" where
  "attachable c name m \<longleftrightarrow> (\<exists>s. bt_get (services m) name = Some s \<and> isOk (check_credentials s c) \<and>
     terminal_of (status (state s)) \<noteq> None)"

lemma main_task_get_pty:
  assumes "os_ok os" "good m"
  shows "main_task_fd os e m (GetPty name c) =
    (if attachable c name m
     then (case os_dup os (clock (world m)) of Inr f \<Rightarrow> Some f | Inl _ \<Rightarrow> None) else None)"
proof (cases "get_service m c name")
  case (Inl err)
  then have "\<not> attachable c name m"
    by (auto simp: attachable_def get_service_def elim!: isOkE split: option.splits)
  then show ?thesis using Inl by (simp add: main_task_fd_def turn_def get_pty_def)
next
  case (Inr s)
  then have s: "bt_get (services m) name = Some s" "isOk (check_credentials s c)" by (auto simp: get_service_Inr)
  then have att: "attachable c name m \<longleftrightarrow> terminal_of (status (state s)) \<noteq> None" by (simp add: attachable_def)
  have dup: "raw_os_error err = Some EMFILE" if "os_dup os k = Inl err" for k err
    using assms(1) that by (auto simp: os_ok_def fds_ok_def)
  have "status (state s) \<noteq> Dummy"
    using good_get [OF assms(2) s(1)] by (auto simp: svc_ok_def api_of_status_def)
  then show ?thesis
    using Inr att dup
    by (cases "status (state s)")
      (auto simp: main_task_fd_def turn_def get_pty_def terminal_of_def split: option.splits sum.splits)
qed

lemma request_parsed:
  assumes "valid_utf8 name" "length name \<le> 255"
  shows "pty_request name = Inr (char_of (length name) # name)"
    and "connection_request (Inr c) (char_of (length name) # name) = Asks name c"
  using assms by (simp_all add: pty_request_def connection_request_def read_u8_def read_exact_def take_bit_eq_mod)


text \<open>The socket that delivers, for a witness.\<close>

definition deliver :: "(string \<Rightarrow> panic + msg option) \<Rightarrow> (fd \<Rightarrow> fd) \<Rightarrow> string \<Rightarrow> libc_result \<times> msg" where
  "deliver serve translate bytes =
     (case serve bytes of
        Inr (Some m) \<Rightarrow> ((int (length (msg_data m)), eof), renumbered translate m)
      | _ \<Rightarrow> ((0, eof), \<lparr>msg_data = [], msg_control = None\<rparr>))"

lemma deliver_ok: "socket_ok serve translate (deliver serve translate)"
  by (simp add: socket_ok_def deliver_def)


end
