(* ===== verification/Beamctl.thy ===== *)
theory Beamctl
  imports Ctl_Text Pty_Store Isolation
begin

text \<open>
  \<open>bin/beamctl.rs\<close>: the commands, how they choose the services they act on, and what they
  print. The system around the program is the record \<open>net\<close>: the server behind the client
  (state \<open>'s\<close>), the socket of the terminals, the terminal loop, and the texts of the JSON and
  HTTP libraries. The program is a function on the server's state and the lines printed so
  far; it ends early with an exit code, 101 for a panic.
\<close>

section \<open>Commands\<close>

record liveness_args =
  lv_port :: u16
  lv_path :: string
  lv_max_retries :: usize
  lv_initial_delay :: nat
  lv_period :: nat
  lv_failure_threshold :: usize

definition probe_of_liveness :: "liveness_args \<Rightarrow> probe" where
  "probe_of_liveness v =
     \<lparr>probe_path = lv_path v, probe_port = lv_port v, max_retries = lv_max_retries v,
      initial_delay = lv_initial_delay v, period = lv_period v, failure_threshold = lv_failure_threshold v\<rparr>"

record start_args =
  st_name :: "string option"
  st_labels :: "label list"
  st_pty :: bool
  st_command :: "string list"
  st_liveness :: "liveness_args option"
  st_env :: "label list"
  st_grace :: u32

datatype ctl_command =
    CtlStart start_args
  | CtlStop "string option" "label list" bool
  | CtlRestart "string option" "label list"
  | CtlFreeze "string option" "label list"
  | CtlThaw "string option" "label list"
  | CtlShow string
  | CtlList "label list"
  | CtlLogs string bool
  | CtlAttach string
  | CtlCompletions string
  | CtlVersion
  | CtlWait string status_kind "nat option"

section \<open>Choosing services\<close>

definition keys_match :: "(string, string) btree \<Rightarrow> (string, string) btree \<Rightarrow> bool" where
  "keys_match selector ls \<longleftrightarrow>
     List.map_filter (\<lambda>k. bt_get ls k) (bt_keys selector) = bt_values selector"

text \<open>The name \<open>prefix_match\<close> settles on, given the services of the user.\<close>

definition resolve_prefix :: "(string, 'a) btree \<Rightarrow> string \<Rightarrow> string" where
  "resolve_prefix l name =
     (case takeWhile (prefix name) (bt_keys (bt_split_off name l)) of
        [found_name] \<Rightarrow> if found_name \<noteq> BOOTSTRAP_NAME then found_name else name
      | _ \<Rightarrow> name)"

section \<open>Running against a server\<close>

datatype printed = Out string | Err string

type_synonym 's console = "'s \<times> printed list"
type_synonym ('s, 'a) ctl = "'s console \<Rightarrow> (c_int + 'a) \<times> 's console"

record 's net =
  net_serve :: "client_request \<Rightarrow> 's \<Rightarrow> (string + http_response) \<times> 's"
  net_text :: "content \<Rightarrow> string"
  net_json :: "content \<Rightarrow> string"
  net_status_text :: "nat \<Rightarrow> string"
  net_socket :: "'s \<Rightarrow> (io_error + bool) \<times> (string + unit)"
  net_pty_connect :: "'s \<Rightarrow> io_error + unit"
  net_pty_exchange :: "'s \<Rightarrow> string \<Rightarrow> libc_result \<times> msg"
  net_manage :: "string \<Rightarrow> fd \<Rightarrow> ('s, io_error + unit) ctl"

definition ctl_ret :: "'a \<Rightarrow> ('s, 'a) ctl" where
  "ctl_ret x = (\<lambda>s. (Inr x, s))"

definition ctl_bind :: "('s, 'a) ctl \<Rightarrow> ('a \<Rightarrow> ('s, 'b) ctl) \<Rightarrow> ('s, 'b) ctl" where
  "ctl_bind m f = (\<lambda>s. case m s of (Inl code, s') \<Rightarrow> (Inl code, s') | (Inr x, s') \<Rightarrow> f x s')"

definition ctl_exit :: "c_int \<Rightarrow> ('s, 'a) ctl" where
  "ctl_exit code = (\<lambda>s. (Inl code, s))"

definition ctl_print :: "printed \<Rightarrow> ('s, unit) ctl" where
  "ctl_print line = (\<lambda>(s, out). (Inr (), s, out @ [line]))"

definition ctl_panic :: "string \<Rightarrow> ('s, 'a) ctl" where
  "ctl_panic text = ctl_bind (ctl_print (Err text)) (\<lambda>_. ctl_exit 101)"

text \<open>\<open>show_error_and_exit\<close>, and its use on a result.\<close>

definition error_text :: "(nat \<Rightarrow> string) \<Rightarrow> client_error \<Rightarrow> string" where
  "error_text show_status err =
     (case err of
        ResponseError code body \<Rightarrow>
          if 400 \<le> code \<and> code < 500 then body else client_error_to_string show_status err
      | SocketNotFound \<Rightarrow>
          client_error_to_string show_status err @
          [CHR 0x0A] @ ''hint: beamctl only works inside containers that use beam-init as init process''
      | _ \<Rightarrow> client_error_to_string show_status err)"

definition show_error_and_exit :: "'s net \<Rightarrow> client_error \<Rightarrow> ('s, 'a) ctl" where
  "show_error_and_exit net err =
     ctl_bind (ctl_print (Err (error_text (net_status_text net) err))) (\<lambda>_. ctl_exit 1)"

definition or_exit :: "'s net \<Rightarrow> ('s, client_error + 'a) ctl \<Rightarrow> ('s, 'a) ctl" where
  "or_exit net m =
     ctl_bind m (\<lambda>r. case r of Inl err \<Rightarrow> show_error_and_exit net err | Inr x \<Rightarrow> ctl_ret x)"

text \<open>A method of the client: its request, sent and decoded.\<close>

definition client_method :: "'s net \<Rightarrow> (content \<Rightarrow> string + 'a) \<Rightarrow> client_call \<Rightarrow> ('s, client_error + 'a) ctl" where
  "client_method net decode call =
     (\<lambda>(s, out). case net_serve net (client_request_of call) s of
        (r, s') \<Rightarrow> (Inr (request_json (net_text net) decode r), s', out))"

definition new_client :: "'s net \<Rightarrow> ('s, client_error + string) ctl" where
  "new_client net = (\<lambda>(s, out). (Inr (client_new (fst (net_socket net s)) (snd (net_socket net s))), s, out))"

text \<open>Decoding the JSON of an answer at the type the method expects.\<close>

fun as_unit :: "content \<Rightarrow> string + unit" where
  "as_unit (Reply JsonUnit) = Inr ()"
| "as_unit _ = Inl ''expected unit''"

fun as_created :: "content \<Rightarrow> string + create_service_req" where
  "as_created (Reply (JsonCreated svc)) = Inr svc"
| "as_created _ = Inl ''expected a service configuration''"

fun as_service :: "content \<Rightarrow> string + api_service" where
  "as_service (Reply (JsonService svc)) = Inr svc"
| "as_service _ = Inl ''expected a service''"

fun as_services :: "content \<Rightarrow> string + (string, api_status) btree" where
  "as_services (Reply (JsonServices l)) = Inr l"
| "as_services _ = Inl ''expected a map of services''"

fun as_wait :: "content \<Rightarrow> string + api_status" where
  "as_wait (WaitStatus st) = Inr st"
| "as_wait _ = Inl ''expected a status''"

fun as_version :: "content \<Rightarrow> string + version_response" where
  "as_version (VersionJson v) = Inr v"
| "as_version _ = Inl ''expected a version''"

section \<open>Looking services up\<close>

definition list_of :: "'s net \<Rightarrow> ('s, (string, api_status) btree) ctl" where
  "list_of net = or_exit net (client_method net as_services CallList)"

definition show_of :: "'s net \<Rightarrow> string \<Rightarrow> ('s, api_service) ctl" where
  "show_of net name = or_exit net (client_method net as_service (CallShow name))"

definition prefix_match :: "'s net \<Rightarrow> string \<Rightarrow> ('s, string) ctl" where
  "prefix_match net name = ctl_bind (list_of net) (\<lambda>l. ctl_ret (resolve_prefix l name))"

text \<open>
  The loops over \<open>service_match\<close>: its filter is lazy, so each service is shown just before
  the action on it; an error of either ends the program.
\<close>

fun for_selected ::
    "'s net \<Rightarrow> (string, string) btree \<Rightarrow> (string \<Rightarrow> ('s, unit) ctl) \<Rightarrow> string list \<Rightarrow> ('s, unit) ctl" where
  "for_selected net selector act [] = ctl_ret ()"
| "for_selected net selector act (name # names) =
     ctl_bind (show_of net name) (\<lambda>svc.
       ctl_bind (if keys_match selector (svc_labels svc) then act name else ctl_ret ()) (\<lambda>_.
         for_selected net selector act names))"

definition for_service_match ::
    "'s net \<Rightarrow> string option \<Rightarrow> label list \<Rightarrow> (string \<Rightarrow> ('s, unit) ctl) \<Rightarrow> ('s, unit) ctl" where
  "for_service_match net name selector act =
     (if selector = [] then
        (case name of
           None \<Rightarrow> ctl_panic ''name to be present''
         | Some n \<Rightarrow> ctl_bind (prefix_match net n) act)
      else ctl_bind (list_of net) (\<lambda>l.
        for_selected net (bt_from_iter selector) act (bt_keys l)))"

definition unit_call :: "'s net \<Rightarrow> client_call \<Rightarrow> ('s, unit) ctl" where
  "unit_call net call = or_exit net (client_method net as_unit call)"

section \<open>Attaching\<close>

definition status_line :: "string \<Rightarrow> api_status \<Rightarrow> string" where
  "status_line name st = name @ '' ('' @ status_to_string st @ '')''"

definition attach :: "'s net \<Rightarrow> string \<Rightarrow> ('s, unit) ctl" where
  "attach net name = (\<lambda>(s, out).
     (case get_pty_from_store name (net_pty_connect net s) (net_pty_exchange net s) of
        Inl p \<Rightarrow> ctl_panic p (s, out)
      | Inr None \<Rightarrow>
          ctl_bind (show_of net name) (\<lambda>svc.
            ctl_print (Out
              (case svc_status svc of
                 ApiRunning _ None \<Rightarrow> ''service '' @ name @ '' does not have a pty attached''
               | ApiFrozen _ None \<Rightarrow> ''service '' @ name @ '' does not have a pty attached''
               | st \<Rightarrow> ''could not attach to '' @ status_line name st))) (s, out)
      | Inr (Some pty) \<Rightarrow>
          ctl_bind (net_manage net name pty) (\<lambda>r. case r of
             Inl err \<Rightarrow>
               ctl_bind (ctl_print (Out (''pty error for service '' @ name @ '' ('' @ io_msg err @ '')'')))
                 (\<lambda>_. ctl_exit 1)
           | Inr _ \<Rightarrow>
               ctl_bind (or_exit net (new_client net)) (\<lambda>_.
               ctl_bind (show_of net name) (\<lambda>svc.
               ctl_bind (ctl_print (Out (''detached from '' @ status_line name (svc_status svc)))) (\<lambda>_.
                 case svc_status svc of
                   ApiRunning _ _ \<Rightarrow> ctl_print (Out (''to reattach use `beamctl attach '' @ name @ ''`''))
                 | _ \<Rightarrow> ctl_ret ())))) (s, out)))"

section \<open>The commands\<close>

text \<open>
  \<open>start\<close>: clap requires a command, so it has a first word; \<open>random\<close> are the bytes
  \<open>getrandom\<close> delivers for a generated name.
\<close>

definition start_request :: "start_args \<Rightarrow> create_service_req" where
  "start_request a =
     \<lparr>req_cmd = hd (st_command a), req_args = tl (st_command a), req_env = bt_from_iter (st_env a),
      req_liveness = map_option probe_of_liveness (st_liveness a), req_pty = st_pty a,
      req_labels = bt_from_iter (st_labels a), req_graceful_termination_period = st_grace a\<rparr>"

definition start :: "'s net \<Rightarrow> string \<Rightarrow> start_args \<Rightarrow> ('s, unit) ctl" where
  "start net random a =
     (let name = (case st_name a of Some n \<Rightarrow> n | None \<Rightarrow> gen_name random) in
      if st_command a = [] then ctl_panic ''index out of bounds''
      else ctl_bind (or_exit net (client_method net as_created (CallCreate name (start_request a)))) (\<lambda>_.
           ctl_bind (ctl_print (Err (''Started service '' @ name))) (\<lambda>_.
             if st_pty a then attach net name else ctl_ret ())))"

definition show_line :: "string \<Rightarrow> api_service \<Rightarrow> string" where
  "show_line name svc =
     name @ (if svc_labels svc = [] then [] else '' ['' @ display_labels (svc_labels svc) @ '']'') @
     '' ('' @ status_to_string (svc_status svc) @ ''): '' @
     concat (intersperse '' '' (svc_cmd svc # svc_args svc))"

fun retain_selected ::
    "'s net \<Rightarrow> (string, string) btree \<Rightarrow> (string, api_status) btree \<Rightarrow> ('s, (string, api_status) btree) ctl" where
  "retain_selected net selector [] = ctl_ret []"
| "retain_selected net selector ((name, st) # l) =
     ctl_bind (show_of net name) (\<lambda>svc.
       ctl_bind (retain_selected net selector l) (\<lambda>kept.
         ctl_ret (if keys_match selector (svc_labels svc) then (name, st) # kept else kept)))"

fun print_all :: "printed list \<Rightarrow> ('s, unit) ctl" where
  "print_all [] = ctl_ret ()"
| "print_all (l # ls) = ctl_bind (ctl_print l) (\<lambda>_. print_all ls)"

definition ctl_list :: "'s net \<Rightarrow> bool \<Rightarrow> label list \<Rightarrow> ('s, unit) ctl" where
  "ctl_list net json selector =
     ctl_bind (list_of net) (\<lambda>l.
     ctl_bind (if selector = [] then ctl_ret l
               else retain_selected net (bt_from_iter selector) l) (\<lambda>l.
       if json then ctl_print (Out (net_json net (Reply (JsonServices l))))
       else print_all (map (\<lambda>(name, st). Out (status_line name st)) l)))"

text \<open>A log answer is copied to the standard output as it is; the program's own version comes from the build.\<close>

fun run_command :: "'s net \<Rightarrow> bool \<Rightarrow> string \<Rightarrow> version_response \<Rightarrow> ctl_command \<Rightarrow> ('s, unit) ctl" where
  "run_command net json random own (CtlStart a) = start net random a"
| "run_command net json random own (CtlStop name selector prune) =
     for_service_match net name selector (\<lambda>n. unit_call net (CallStop n prune))"
| "run_command net json random own (CtlRestart name selector) =
     for_service_match net name selector (\<lambda>n. unit_call net (CallRestart n))"
| "run_command net json random own (CtlFreeze name selector) =
     for_service_match net name selector (\<lambda>n. unit_call net (CallFreeze n))"
| "run_command net json random own (CtlThaw name selector) =
     for_service_match net name selector (\<lambda>n. unit_call net (CallThaw n))"
| "run_command net json random own (CtlLogs name follow) =
     ctl_bind (prefix_match net name) (\<lambda>n.
     ctl_bind (or_exit net (client_method net (\<lambda>b. Inr (net_text net b))
        (if follow then CallFollowLogs n else CallLogs n))) (\<lambda>text. ctl_print (Out text)))"
| "run_command net json random own (CtlShow name) =
     ctl_bind (prefix_match net name) (\<lambda>n.
     ctl_bind (show_of net n) (\<lambda>svc.
       ctl_print (Out (if json then net_json net (Reply (JsonService svc)) else show_line n svc))))"
| "run_command net json random own (CtlList selector) = ctl_list net json selector"
| "run_command net json random own (CtlAttach name) =
     ctl_bind (prefix_match net name) (attach net)"
| "run_command net json random own (CtlCompletions text) = ctl_print (Out text)"
| "run_command net json random own CtlVersion =
     ctl_bind (ctl_print (Out (''beamctl: Version: '' @ version own @ '' - SHA: '' @ sha own))) (\<lambda>_.
     ctl_bind (or_exit net (client_method net as_version CallVersion)) (\<lambda>resp.
       ctl_print (Out (''beam-init: Version: '' @ version resp @ '' - SHA: '' @ sha resp))))"
| "run_command net json random own (CtlWait name k timeout) =
     ctl_bind (prefix_match net name) (\<lambda>n.
     ctl_bind (or_exit net (client_method net as_wait (CallWait n k timeout))) (\<lambda>st.
       ctl_print (Out (if json then net_json net (WaitStatus st) else status_line n st))))"

definition ctl_main :: "'s net \<Rightarrow> bool \<Rightarrow> string \<Rightarrow> version_response \<Rightarrow> ctl_command \<Rightarrow> ('s, unit) ctl" where
  "ctl_main net json random own command =
     ctl_bind (or_exit net (new_client net)) (\<lambda>_. run_command net json random own command)"

section \<open>Selectors\<close>

lemma length_map_filter: "length (List.map_filter f xs) \<le> length xs"
  by (induction xs) (auto simp: map_filter_simps split: option.splits)

lemma keys_match_iff: "keys_match selector ls = list_all (\<lambda>(k, v). bt_get ls k = Some v) selector"
proof (induction selector)
  case (Cons kv selector)
  obtain k v where kv: "kv = (k, v)" by (cases kv)
  have "length (List.map_filter (bt_get ls) (map fst selector)) < length (v # map snd selector)"
    using length_map_filter [of "bt_get ls" "map fst selector"] by simp
  then have "List.map_filter (bt_get ls) (map fst selector) \<noteq> v # map snd selector" by (metis less_irrefl)
  with Cons kv show ?case
    by (auto simp: keys_match_def bt_keys_def bt_values_def map_filter_simps split: option.splits)
qed (simp add: keys_match_def bt_keys_def bt_values_def map_filter_simps)

text \<open>
  C24: a selector matches a service exactly when each of its keys is a label of the service
  with the wanted value; the comparison of the found values with the wanted ones, which drops
  missing keys, cannot be fooled by labels shifted against each other.
\<close>

theorem keys_match_spec:
  "keys_match selector ls = list_all (\<lambda>(k, v). bt_get ls k = Some v) selector"
  by (rule keys_match_iff)

section \<open>Prefixes\<close>

lemma prefix_le: "prefix p (s :: string) \<Longrightarrow> p \<le> s"
proof -
  have "p \<le> p @ t" for t :: string by (induction p) auto
  then show "prefix p s \<Longrightarrow> p \<le> s" by (auto simp: prefix_def)
qed

lemma prefix_between: "prefix p (t :: string) \<Longrightarrow> p \<le> s \<Longrightarrow> s \<le> t \<Longrightarrow> prefix p s"
proof (induction p arbitrary: s t)
  case (Cons c p)
  from Cons.prems(1) obtain t' where t: "t = c # t'" "prefix p t'" by (auto simp: prefix_def)
  with Cons.prems obtain d s' where s: "s = d # s'" by (cases s) auto
  with Cons.prems t have "d = c" "p \<le> s'" "s' \<le> t'" by auto
  with Cons.IH [OF t(2)] s show ?case by simp
qed simp

lemma takeWhile_prefix_sorted:
  "sorted_wrt (<) ks \<Longrightarrow> list_all (\<lambda>k. p \<le> k) ks \<Longrightarrow> takeWhile (prefix p) ks = filter (prefix (p :: string)) ks"
proof (induction ks)
  case (Cons k ks)
  show ?case
  proof (cases "prefix p k")
    case True
    then show ?thesis using Cons by simp
  next
    case False
    have "\<not> prefix p k'" if "k' \<in> set ks" for k'
    proof -
      have "k \<le> k'" "p \<le> k" using that Cons.prems by (auto intro: less_imp_le)
      then show ?thesis using prefix_between [of p k' k] False by blast
    qed
    then show ?thesis using False by simp
  qed
qed simp

lemma split_off_keys:
  "sorted_wrt (<) (bt_keys l) \<Longrightarrow> bt_keys (bt_split_off p l) = filter (\<lambda>k. p \<le> k) (bt_keys l)"
proof (induction l)
  case (Cons kv l)
  show ?case
  proof (cases "fst kv < p")
    case True
    then show ?thesis using Cons by (auto simp: bt_split_off_def bt_keys_def split: prod.splits)
  next
    case False
    have "list_all (\<lambda>k. p \<le> k) (bt_keys (kv # l))"
      using False Cons.prems by (auto simp: bt_keys_def list_all_iff intro: less_imp_le order.trans)
    then have "filter (\<lambda>k. p \<le> k) (bt_keys (kv # l)) = bt_keys (kv # l)" by (simp add: list_all_iff filter_id_conv)
    with False show ?thesis by (auto simp: bt_split_off_def split: prod.splits)
  qed
qed (simp add: bt_split_off_def bt_keys_def)

lemma prefix_candidates:
  assumes "bt_inv l"
  shows "takeWhile (prefix (name :: string)) (bt_keys (bt_split_off name l)) = filter (prefix name) (bt_keys l)"
proof -
  have sorted: "sorted_wrt (<) (bt_keys l)" using assms by (rule bt_keys_sorted)
  have "takeWhile (prefix name) (filter (\<lambda>k. name \<le> k) (bt_keys l)) = filter (prefix name) (filter (\<lambda>k. name \<le> k) (bt_keys l))"
    by (rule takeWhile_prefix_sorted) (simp_all add: sorted_wrt_filter sorted list_all_iff)
  also have "\<dots> = filter (prefix name) (bt_keys l)"
    by (auto simp: intro!: filter_cong dest: prefix_le)
  finally show ?thesis by (simp add: split_off_keys [OF sorted])
qed

text \<open>
  C22: a service can be named by a prefix: if exactly one service of the user has a name with
  that prefix and it is not the bootstrap service, that service is meant; in every other case
  the name is taken as it was given, so an ambiguous prefix never reaches a service it does
  not name in full, and the full name of a service always means that service.
\<close>

theorem prefix_resolution:
  assumes "bt_inv l"
  shows "resolve_prefix l name =
      (if \<exists>a. {k. bt_get l k \<noteq> None \<and> prefix name k} = {a} \<and> a \<noteq> BOOTSTRAP_NAME
       then the_elem {k. bt_get l k \<noteq> None \<and> prefix name k} else name) \<and>
    (bt_get l name \<noteq> None \<longrightarrow> resolve_prefix l name = name)"
proof -
  let ?K = "{k. bt_get l k \<noteq> None \<and> prefix name k}" and ?ks = "filter (prefix name) (bt_keys l)"
  have set: "set ?ks = ?K" by (auto simp: bt_keys_iff)
  have dist: "distinct ?ks" using bt.keys_distinct [OF assms] by simp
  have resolve: "resolve_prefix l name =
      (case ?ks of [a] \<Rightarrow> if a \<noteq> BOOTSTRAP_NAME then a else name | _ \<Rightarrow> name)"
    by (simp add: resolve_prefix_def prefix_candidates [OF assms])
  have single: "?K = {a} \<longleftrightarrow> ?ks = [a]" for a
  proof
    assume "?K = {a}"
    with set have "set ?ks = {a}" by simp
    with dist show "?ks = [a]" using distinct_card [OF dist] by (cases ?ks; cases "tl ?ks") auto
  next
    assume "?ks = [a]"
    then show "?K = {a}" using set by simp
  qed
  show ?thesis
  proof (intro conjI impI)
    show "resolve_prefix l name = (if \<exists>a. ?K = {a} \<and> a \<noteq> BOOTSTRAP_NAME then the_elem ?K else name)"
    proof (cases "\<exists>a. ?K = {a} \<and> a \<noteq> BOOTSTRAP_NAME")
      case True
      then obtain a where a: "?K = {a}" "a \<noteq> BOOTSTRAP_NAME" by blast
      then have "?ks = [a]" using single by blast
      then show ?thesis unfolding resolve a(1) using a(2) by simp
    next
      case False
      then have "\<And>a. ?ks = [a] \<Longrightarrow> a = BOOTSTRAP_NAME" using single by blast
      then show ?thesis unfolding resolve using False by (auto split: list.splits)
    qed
  next
    assume "bt_get l name \<noteq> None"
    then have "name \<in> set ?ks" unfolding set by simp
    then have "\<And>a. ?ks = [a] \<Longrightarrow> a = name" by (metis empty_iff list.set(1,2) insert_iff)
    then show "resolve_prefix l name = name" unfolding resolve by (auto split: list.splits)
  qed
qed

theorem prefix_resolution_witness:
  "resolve_prefix [(''bootstrap'', ()), (''web'', ()), (''webmail'', ())] ''webm'' = ''webmail'' \<and>
   resolve_prefix [(''bootstrap'', ()), (''web'', ()), (''webmail'', ())] ''web'' = ''web''"
proof
  let ?l = "[(''bootstrap'', ()), (''web'', ()), (''webmail'', ())]"
  have inv: "bt_inv ?l" by simp
  have "bt_get ?l ''web'' \<noteq> None" by simp
  then show "resolve_prefix ?l ''web'' = ''web''" using prefix_resolution [OF inv, of "''web''"] by blast
  show "resolve_prefix ?l ''webm'' = ''webmail''" by code_simp
qed

section \<open>What a selection asks of the server\<close>

lemma ctl_simps [simp]:
  "ctl_ret x s = (Inr x, s)"
  "ctl_bind (ctl_ret x) f = f x"
  "ctl_print line (s', out) = (Inr (), s', out @ [line])"
  "ctl_exit code s = (Inl code, s)"
  by (simp_all add: ctl_ret_def ctl_bind_def ctl_print_def ctl_exit_def)

lemma ctl_bind_Inr: "m s = (Inr x, s') \<Longrightarrow> ctl_bind m f s = f x s'"
  and ctl_bind_Inl: "m s = (Inl code, s') \<Longrightarrow> ctl_bind m f s = (Inl code, s')"
  by (simp_all add: ctl_bind_def)

lemma or_exit_method:
  assumes "net_serve net (client_request_of call) s = (r, s')"
  shows "request_json (net_text net) decode r = Inr x \<Longrightarrow>
      or_exit net (client_method net decode call) (s, out) = (Inr x, s', out)"
    and "request_json (net_text net) decode r = Inl err \<Longrightarrow>
      or_exit net (client_method net decode call) (s, out) =
        (Inl 1, s', out @ [Err (error_text (net_status_text net) err)])"
  using assms by (simp_all add: or_exit_def client_method_def show_error_and_exit_def ctl_bind_def)

lemma request_json_ok: "decode b = Inr x \<Longrightarrow> request_json txt decode (Inr (200, b)) = Inr x"
  by (simp add: request_json_def send_def decode_json_def)

text \<open>A server that keeps the requests it was sent and answers each in its way.\<close>

definition recording :: "client_request list net \<Rightarrow> (client_request \<Rightarrow> string + http_response) \<Rightarrow> bool" where
  "recording net answer \<longleftrightarrow> (\<forall>r s. net_serve net r s = (answer r, s @ [r]))"

text \<open>The commands that select services, with their selector and the call they make for each.\<close>

fun selects :: "ctl_command \<Rightarrow> (label list \<times> (string \<Rightarrow> client_call)) option" where
  "selects (CtlStop None selector prune) = Some (selector, \<lambda>n. CallStop n prune)"
| "selects (CtlRestart None selector) = Some (selector, CallRestart)"
| "selects (CtlFreeze None selector) = Some (selector, CallFreeze)"
| "selects (CtlThaw None selector) = Some (selector, CallThaw)"
| "selects _ = None"

lemma run_selects:
  "selects command = Some (selector, call) \<Longrightarrow> selector \<noteq> [] \<Longrightarrow>
     run_command net json random own command =
       ctl_bind (list_of net) (\<lambda>l. for_selected net (bt_from_iter selector) (\<lambda>n. unit_call net (call n)) (bt_keys l))"
  by (cases command rule: selects.cases) (auto simp: for_service_match_def)

lemma for_selected_calls:
  assumes "recording net answer"
    and "\<And>k. k \<in> set names \<Longrightarrow> answer (client_request_of (CallShow k)) = Inr (200, Reply (JsonService (svc k)))"
    and "\<And>k. k \<in> set names \<Longrightarrow> answer (client_request_of (call k)) = Inr (200, Reply JsonUnit)"
  shows "for_selected net selector (\<lambda>n. unit_call net (call n)) names (s, out) =
    (Inr (), s @ map client_request_of
       (concat (map (\<lambda>k. CallShow k # (if keys_match selector (svc_labels (svc k)) then [call k] else [])) names)), out)"
  using assms(2,3)
proof (induction names arbitrary: s)
  case (Cons k names)
  have req: "net_serve net r s = (answer r, s @ [r])" for r s using assms(1) by (simp add: recording_def)
  have show_k: "show_of net k (s, out) = (Inr (svc k), s @ [client_request_of (CallShow k)], out)" for s
    unfolding show_of_def using Cons.prems(1) by (intro or_exit_method(1) [OF req]) (simp add: request_json_ok)
  have act_k: "unit_call net (call k) (s, out) = (Inr (), s @ [client_request_of (call k)], out)" for s
    unfolding unit_call_def using Cons.prems(2) by (intro or_exit_method(1) [OF req]) (simp add: request_json_ok)
  show ?case
    using Cons.IH Cons.prems
    by (simp add: ctl_bind_def show_k act_k)
qed simp

text \<open>
  C23: stopping, restarting, freezing or thawing by selector asks the server for the list of
  services, then for each of them in the order of the names for its labels, and acts, right
  after that, on exactly the services that have all the selected labels.
\<close>

theorem selection_calls:
  assumes "recording net answer"
    and "selects command = Some (selector, call)" "selector \<noteq> []"
    and "answer (client_request_of CallList) = Inr (200, Reply (JsonServices l))"
    and "\<And>k. k \<in> set (bt_keys l) \<Longrightarrow>
      answer (client_request_of (CallShow k)) = Inr (200, Reply (JsonService (svc k)))"
    and "\<And>k. k \<in> set (bt_keys l) \<Longrightarrow> answer (client_request_of (call k)) = Inr (200, Reply JsonUnit)"
  shows "run_command net json random own command (s, out) =
    (Inr (), s @ map client_request_of (CallList # concat (map (\<lambda>k. CallShow k #
       (if list_all (\<lambda>(q, v). bt_get (svc_labels (svc k)) q = Some v) (bt_from_iter selector)
        then [call k] else [])) (bt_keys l))), out)"
proof -
  have "net_serve net r s = (answer r, s @ [r])" for r s using assms(1) by (simp add: recording_def)
  then have list: "list_of net (s, out) = (Inr l, s @ [client_request_of CallList], out)"
    unfolding list_of_def using assms(4) by (intro or_exit_method(1)) (auto simp: request_json_ok)
  have match: "list_all (\<lambda>(q, v). bt_get ls q = Some v) sel \<longleftrightarrow> keys_match sel ls" for ls sel
    by (rule keys_match_iff [symmetric])
  show ?thesis
    unfolding run_selects [OF assms(2,3)] match
    using for_selected_calls [OF assms(1), of "bt_keys l" svc call] assms(5,6) by (simp add: ctl_bind_def list)
qed

text \<open>Two services of which one has the selected label.\<close>

definition sample_answer :: "client_request \<Rightarrow> string + http_response" where
  "sample_answer r = Inr (200, Reply
     (if r = client_request_of CallList then JsonServices [(''db'', ApiStopped), (''web'', ApiStopped)]
      else if cr_target r = ''/service/db/show'' \<or> cr_target r = ''/service/web/show'' then
        JsonService \<lparr>svc_cmd = ''sleep'', svc_args = [], svc_status = ApiStopped,
          svc_automatic_restart_attempts = 0,
          svc_labels = (if cr_target r = ''/service/web/show'' then [(''tier'', ''front'')] else [])\<rparr>
      else JsonUnit))"

definition sample_net :: "client_request list net" where
  "sample_net =
     \<lparr>net_serve = \<lambda>r s. (sample_answer r, s @ [r]), net_text = \<lambda>b. case b of Text t \<Rightarrow> t | _ \<Rightarrow> [],
      net_json = \<lambda>b. [], net_status_text = show_nat, net_socket = \<lambda>s. (Inr True, Inr ()),
      net_pty_connect = \<lambda>s. Inr (), net_pty_exchange = \<lambda>s bytes. ((0, eof), \<lparr>msg_data = [], msg_control = None\<rparr>),
      net_manage = \<lambda>n f. ctl_ret (Inr ())\<rparr>"

theorem selection_calls_witness:
  "run_command sample_net False [] sample_version (CtlRestart None [(''tier'', ''front'')]) ([], []) =
     (Inr (), map client_request_of [CallList, CallShow ''db'', CallShow ''web'', CallRestart ''web''], [])"
proof -
  let ?l = "[(''db'', ApiStopped), (''web'', ApiStopped)]"
  let ?svc = "\<lambda>k. \<lparr>svc_cmd = ''sleep'', svc_args = [], svc_status = ApiStopped, svc_automatic_restart_attempts = 0,
    svc_labels = (if k = ''web'' then [(''tier'', ''front'')] else [])\<rparr>"
  have rcd: "recording sample_net sample_answer" by (simp add: recording_def sample_net_def)
  have list: "sample_answer (client_request_of CallList) = Inr (200, Reply (JsonServices ?l))"
    by (simp add: sample_answer_def)
  have svc: "sample_answer (client_request_of (CallShow k)) = Inr (200, Reply (JsonService (?svc k)))"
    and act: "sample_answer (client_request_of (CallRestart k)) = Inr (200, Reply JsonUnit)"
    if "k \<in> set (bt_keys ?l)" for k
    using that by (auto simp: bt_keys_def sample_answer_def request_defs service_action_path_def service_path_def)
  have "run_command sample_net False [] sample_version (CtlRestart None [(''tier'', ''front'')]) ([], []) =
     (Inr (), [] @ map client_request_of (CallList # concat (map (\<lambda>k. CallShow k #
       (if list_all (\<lambda>(q, v). bt_get (svc_labels (?svc k)) q = Some v) (bt_from_iter [(''tier'', ''front'')])
        then [CallRestart k] else [])) (bt_keys ?l))), [])"
    by (rule selection_calls [OF rcd _ _ list svc act]) simp_all
  then show ?thesis by (simp add: bt_keys_def bt_from_iter_def bt_empty_def)
qed

section \<open>From the command line to the service manager\<close>

text \<open>
  A net whose server is the service manager of the model, for a user with credentials \<open>c\<close>:
  the request is dispatched, the event takes a turn of the main loop, and the answer comes
  back as an HTTP response.
\<close>

definition served_by_manager ::
    "manager net \<Rightarrow> (string \<Rightarrow> string \<times> (string \<times> string) list) \<Rightarrow> (string \<Rightarrow> (string \<times> string) option) \<Rightarrow>
     version_response \<Rightarrow> os \<Rightarrow> env_os \<Rightarrow> credentials \<Rightarrow> bool" where
  "served_by_manager net transport find_route v os e c \<longleftrightarrow>
     (\<forall>r m ev x m'. dispatch find_route v c (received transport r) = SendEvent ev \<longrightarrow>
        turn (os, e, ev) m = Inr (Response x, m') \<longrightarrow> net_serve net r m = (Inr (into_response x), m'))"

lemma served_call:
  assumes "url_ok transport" "router_ok find_route" "served_by_manager net transport find_route v os e c"
    and "case call_name call of Some name \<Rightarrow> plain name | None \<Rightarrow> True"
    and "meant v call c = SendEvent (Command command c)"
    and "handle_api_command os e command c m = Inr (x, m')"
  shows "net_serve net (client_request_of call) m = (Inr (into_response x), m')"
  using assms(3-6) call_reaches_handler [OF assms(1,2), of call v c]
  by (simp add: served_by_manager_def turn_def)


definition sample_manager_net :: "credentials \<Rightarrow> manager net" where
  "sample_manager_net c =
     \<lparr>net_serve = \<lambda>r m. (case dispatch segment_router sample_version c (received cut_query r) of
          SendEvent ev \<Rightarrow> (case turn (sample_os, sample_env, ev) m of
              Inr (Response x, m') \<Rightarrow> (Inr (into_response x), m')
            | _ \<Rightarrow> (Inl ''connection closed'', m))
        | _ \<Rightarrow> (Inl ''connection closed'', m)),
      net_text = \<lambda>b. case b of Text t \<Rightarrow> t | _ \<Rightarrow> [],
      net_json = \<lambda>b. [], net_status_text = show_nat, net_socket = \<lambda>s. (Inr True, Inr ()),
      net_pty_connect = \<lambda>s. Inr (), net_pty_exchange = \<lambda>s bytes. ((0, eof), \<lparr>msg_data = [], msg_control = None\<rparr>),
      net_manage = \<lambda>n f. ctl_ret (Inr ())\<rparr>"


section \<open>Answers have the type the client expects\<close>

text \<open>Whether a method of the client can read the body of a successful answer.\<close>

fun decodes :: "client_call \<Rightarrow> content \<Rightarrow> bool" where
  "decodes (CallCreate name svc) body \<longleftrightarrow> as_created body = Inr svc"
| "decodes CallList body \<longleftrightarrow> isOk (as_services body)"
| "decodes (CallShow name) body \<longleftrightarrow> isOk (as_service body)"
| "decodes (CallWait name k timeout) body \<longleftrightarrow> isOk (as_wait body)"
| "decodes CallVersion body \<longleftrightarrow> isOk (as_version body)"
| "decodes (CallLogs name) body \<longleftrightarrow> (\<exists>t. body = Reply (LogText t))"
| "decodes (CallFollowLogs name) body \<longleftrightarrow> (\<exists>q i. body = Reply (LogStream q i))"
| "decodes _ body \<longleftrightarrow> isOk (as_unit body)"

lemma done_unit_reply: "done_unit out = Inr (Inr x, m) \<Longrightarrow> x = JsonUnit"
  by (auto simp: done_unit_def then_do_Inr)

lemma create_reply: "create_command os e c name req m = Inr (Inr x, m') \<Longrightarrow> x = JsonCreated req"
  by (auto simp: create_command_def or_error_def outcome_elims then_do_Inr)

text \<open>
  C16: server and client agree on the types of the answers: whatever request a method of the
  client makes, the main task's answer to the command it stands for is either the status 200
  with a body the method can read -- for a creation the very request that was sent -- or an
  error status with a text.
\<close>

theorem answers_decode:
  assumes "meant v call c = SendEvent (Command command c)"
    and "handle_api_command os e command c m = Inr (r, m')"
  shows "case into_response r of (code, body) \<Rightarrow>
    code = 200 \<and> decodes call body \<or> 400 \<le> code \<and> code < 600 \<and> (\<exists>t. body = Text t)"
proof (cases r)
  case (Inl err)
  have "error_response err = (n, t) \<Longrightarrow> 400 \<le> n \<and> n < 600" for n t by (cases err) auto
  with Inl show ?thesis by (auto simp: into_response_def error_content_def split: prod.splits)
next
  case (Inr x)
  with assms have "decodes call (Reply x)"
    by (cases call)
      (auto simp: list_command_def or_error_def outcome_elims dest!: done_unit_reply create_reply split: if_splits)
  with Inr show ?thesis by (simp add: into_response_def)
qed

theorem answers_decode_witness:
  "case into_response (Inr (JsonServices (bt_from_iter []))) of (code, body) \<Rightarrow>
    code = 200 \<and> decodes CallList body \<or> 400 \<le> code \<and> code < 600 \<and> (\<exists>t. body = Text t)"
proof -
  have "list_services sample_manager (sample_user 1001) = []"
    by (simp add: list_services_def sample_manager_def check_credentials_def sample_user_def root_def)
  then have "handle_api_command sample_os sample_env ListServices (sample_user 1001) sample_manager =
      Inr (Inr (JsonServices (bt_from_iter [])), sample_manager)"
    by (simp add: list_command_def)
  from answers_decode [OF _ this, of sample_version CallList] show ?thesis by simp
qed

end
