(* ===== verification/Probe.thy ===== *)
theory Probe
  imports Main_Loop
begin

text \<open>
  \<open>run_liveness_probe\<close> of \<open>beam-init/src/services.rs\<close>: the task that asks a service over HTTP
  whether it is alive, period after period. The HTTP client is an argument: the results of
  the requests, an error (a refused connection, a timeout) or the status of the response.
  Every action is a line of the service's log or the event that asks for a restart.
\<close>

definition probe_url :: "probe \<Rightarrow> string" where
  "probe_url p = ''http://localhost:'' @ show_nat (unat (probe_port p)) @ probe_path p"

text \<open>\<open>StatusCode::is_success\<close>; a request that failed is not healthy.\<close>

definition healthy :: "string + nat \<Rightarrow> bool" where
  "healthy r = (case r of Inr code \<Rightarrow> 200 \<le> code \<and> code < 300 | Inl _ \<Rightarrow> False)"

datatype probe_action = ProbeLog string | ProbeEvent event

datatype probe_state = Probing usize | ProbeEnded

text \<open>One turn of the loop, with the failures so far.\<close>

definition probe_step :: "string \<Rightarrow> probe \<Rightarrow> usize \<Rightarrow> string + nat \<Rightarrow> probe_action list \<times> probe_state" where
  "probe_step name p failures r =
     (if healthy r then ([], Probing 0)
      else
        (let n = failures + 1;
             failed = ProbeLog (''[liveness probe failed ('' @ show_nat (unat n) @ ''/'' @
               show_nat (unat (failure_threshold p)) @ '')]'') in
         if max_retries p < n then
           ([failed, ProbeLog (''[liveness probe exceeded max retries (max_retries='' @
               show_nat (unat (max_retries p)) @ '')]'')], ProbeEnded)
         else if failure_threshold p \<le> n then
           ([failed, ProbeLog ''[liveness probe exhausted. requesting restart]'', ProbeEvent (ProbeFailed name)],
            ProbeEnded)
         else ([failed], Probing n)))"

fun run_liveness_probe ::
    "string \<Rightarrow> probe \<Rightarrow> usize \<Rightarrow> (string + nat) list \<Rightarrow> probe_action list \<times> probe_state" where
  "run_liveness_probe name p failures [] = ([], Probing failures)"
| "run_liveness_probe name p failures (r # rs) =
     (case probe_step name p failures r of
        (acts, ProbeEnded) \<Rightarrow> (acts, ProbeEnded)
      | (acts, Probing n) \<Rightarrow>
          (case run_liveness_probe name p n rs of (acts', st) \<Rightarrow> (acts @ acts', st)))"

section \<open>When a restart is requested\<close>

text \<open>The number of failures in a row at which the probe ends: the threshold, or the first beyond the retries.\<close>

definition last_failure :: "probe \<Rightarrow> nat" where
  "last_failure p = min (max 1 (unat (failure_threshold p))) (unat (max_retries p) + 1)"

definition requests_restart :: "probe \<Rightarrow> bool" where
  "requests_restart p \<longleftrightarrow> max 1 (unat (failure_threshold p)) \<le> unat (max_retries p)"

text \<open>The failures in a row at the end of the results so far.\<close>

definition trailing :: "(string + nat) list \<Rightarrow> nat" where
  "trailing rs = length (takeWhile (\<lambda>r. \<not> healthy r) (rev rs))"

lemma trailing_snoc [simp]: "trailing (rs @ [r]) = (if healthy r then 0 else Suc (trailing rs))"
  by (simp add: trailing_def)

lemma last_failure_bounds: "0 < last_failure p" "last_failure p < 2 ^ 64"
proof -
  have "unat (failure_threshold p) < 2 ^ 64" using unsigned_less [of "failure_threshold p"] by simp
  then show "last_failure p < 2 ^ 64" by (simp add: last_failure_def min_less_iff_disj)
  show "0 < last_failure p" by (simp add: last_failure_def)
qed

lemma len64: "LENGTH(64) = 64"
  by simp

lemma probe_step_cases:
  assumes "n < last_failure p"
  shows "probe_step name p (of_nat n) r = (acts, st) \<longleftrightarrow>
    (if healthy r then acts = [] \<and> st = Probing 0
     else if Suc n < last_failure p then st = Probing (of_nat (Suc n)) \<and> acts = fst (probe_step name p (of_nat n) r) \<and>
       (\<forall>ev. ProbeEvent ev \<notin> set acts)
     else st = ProbeEnded \<and> acts = fst (probe_step name p (of_nat n) r) \<and>
       (\<forall>ev. ProbeEvent ev \<in> set acts \<longleftrightarrow> requests_restart p \<and> ev = ProbeFailed name))"
proof (cases "healthy r")
  case False
  have "Suc n < 2 ^ 64" using assms last_failure_bounds(2) [of p] by simp
  then have "unat (of_nat (Suc n) :: usize) = Suc n" by (subst unat_of_nat) (simp only: mod_less len64)
  then have N: "unat (of_nat n + 1 :: usize) = Suc n" by (simp only: of_nat_Suc add.commute)
  have "max_retries p < of_nat n + 1 \<longleftrightarrow> unat (max_retries p) < Suc n"
    "failure_threshold p \<le> of_nat n + 1 \<longleftrightarrow> unat (failure_threshold p) \<le> Suc n"
    by (simp_all only: word_less_nat_alt word_le_nat_alt N)
  then show ?thesis
    using False assms
    by (auto simp: probe_step_def Let_def last_failure_def requests_restart_def min_def max_def add.commute split: if_splits)
qed (auto simp: probe_step_def)

lemma run_liveness_probe_prefix:
  assumes "trailing pre < last_failure p" "run_liveness_probe name p (of_nat (trailing pre)) rs = (acts, st)"
  shows "(st = ProbeEnded \<longleftrightarrow> (\<exists>i \<le> length rs. trailing (pre @ take i rs) = last_failure p)) \<and>
    (\<forall>ev. ProbeEvent ev \<in> set acts \<longleftrightarrow> st = ProbeEnded \<and> requests_restart p \<and> ev = ProbeFailed name)"
  using assms
proof (induction rs arbitrary: pre acts)
  case Nil
  then show ?case by auto
next
  case (Cons r rs)
  obtain acts1 st1 where step: "probe_step name p (of_nat (trailing pre)) r = (acts1, st1)" by force
  note cases = step [unfolded probe_step_cases [OF Cons.prems(1)]]
  have split: "(\<exists>i \<le> length (r # rs). trailing (pre @ take i (r # rs)) = last_failure p) \<longleftrightarrow>
      (\<exists>i \<le> length rs. trailing ((pre @ [r]) @ take i rs) = last_failure p)"
  proof
    assume "\<exists>i \<le> length (r # rs). trailing (pre @ take i (r # rs)) = last_failure p"
    then obtain i where i: "i \<le> length (r # rs)" "trailing (pre @ take i (r # rs)) = last_failure p" by blast
    then show "\<exists>i \<le> length rs. trailing ((pre @ [r]) @ take i rs) = last_failure p"
      using Cons.prems(1) by (cases i) auto
  next
    assume "\<exists>i \<le> length rs. trailing ((pre @ [r]) @ take i rs) = last_failure p"
    then obtain i where "i \<le> length rs" "trailing ((pre @ [r]) @ take i rs) = last_failure p" by blast
    then show "\<exists>i \<le> length (r # rs). trailing (pre @ take i (r # rs)) = last_failure p"
      by (intro exI [of _ "Suc i"]) simp
  qed
  show ?case
  proof (cases st1)
    case ProbeEnded
    then have "trailing (pre @ [r]) = last_failure p" using cases Cons.prems(1) by (auto split: if_splits)
    then have "\<exists>i \<le> length rs. trailing ((pre @ [r]) @ take i rs) = last_failure p" by (intro exI [of _ 0]) simp
    then show ?thesis using Cons.prems(2) step ProbeEnded cases unfolding split by (auto split: if_splits)
  next
    case (Probing n)
    then have n: "n = of_nat (trailing (pre @ [r]))" "trailing (pre @ [r]) < last_failure p"
        "\<forall>ev. ProbeEvent ev \<notin> set acts1"
      using cases last_failure_bounds(1) [of p] by (auto split: if_splits)
    obtain acts2 where rest: "run_liveness_probe name p n rs = (acts2, st)" "acts = acts1 @ acts2"
      using Cons.prems(2) step Probing by (auto split: prod.splits)
    from Cons.IH [OF n(2) rest(1) [unfolded n(1)]] n(3) show ?thesis unfolding split by (simp add: rest(2))
  qed
qed

text \<open>The events among the actions: at most one, at the end.\<close>

definition events_of :: "probe_action list \<Rightarrow> probe_action list" where
  "events_of acts = filter (\<lambda>a. case a of ProbeEvent _ \<Rightarrow> True | ProbeLog _ \<Rightarrow> False) acts"

lemma step_events: "events_of (fst (probe_step name p n r)) = [] \<or>
    events_of (fst (probe_step name p n r)) = [ProbeEvent (ProbeFailed name)] \<and> snd (probe_step name p n r) = ProbeEnded"
  by (simp add: probe_step_def events_of_def Let_def)

lemma run_one_event:
  "run_liveness_probe name p n rs = (acts, st) \<Longrightarrow> length (events_of acts) \<le> 1"
proof (induction rs arbitrary: n acts)
  case (Cons r rs)
  obtain acts1 st1 where step: "probe_step name p n r = (acts1, st1)" by force
  show ?case
  proof (cases st1)
    case ProbeEnded
    then show ?thesis using Cons.prems step step_events [of name p n r] by auto
  next
    case (Probing k)
    then obtain acts2 where "run_liveness_probe name p k rs = (acts2, st)" "acts = acts1 @ acts2"
      using Cons.prems step by (auto split: prod.splits)
    then show ?thesis using Cons.IH step_events [of name p n r] step Probing by (auto simp: events_of_def)
  qed
qed (simp add: events_of_def)

lemma events_of_single:
  assumes "length (events_of acts) \<le> 1" "\<And>ev. ProbeEvent ev \<in> set acts \<longleftrightarrow> P \<and> ev = e"
  shows "events_of acts = (if P then [ProbeEvent e] else [])"
proof -
  have "x \<in> set (events_of acts) \<longleftrightarrow> P \<and> x = ProbeEvent e" for x
    using assms(2) by (cases x) (auto simp: events_of_def)
  then have set: "set (events_of acts) = (if P then {ProbeEvent e} else {})" by (cases P; intro set_eqI; simp)
  show ?thesis
  proof (cases "events_of acts")
    case (Cons a as)
    then have "events_of acts = [a]" using assms(1) by simp
    then show ?thesis using set by (auto split: if_splits)
  qed (use set in \<open>auto split: if_splits\<close>)
qed

definition sample_probe :: "usize \<Rightarrow> probe" where
  "sample_probe k =
     \<lparr>probe_path = ''/livez'', probe_port = 8080, max_retries = 1024, initial_delay = 0, period = 10,
      failure_threshold = k\<rparr>"

text \<open>
  C32: the liveness probe of a service asks for a restart when, and only when, the service
  failed to answer as often in a row as its threshold says (a threshold of 0 counts as 1),
  counted afresh after every healthy answer; it then asks once and ends. If the allowed
  retries are fewer than the threshold, it gives up after one failure more than these and
  never asks. No counter overflows on the way.
\<close>

theorem probe_requests_restart:
  assumes "run_liveness_probe name p 0 rs = (acts, st)"
  shows "(st = ProbeEnded \<longleftrightarrow> (\<exists>i. trailing (take i rs) =
       min (max 1 (unat (failure_threshold p))) (unat (max_retries p) + 1))) \<and>
    filter (\<lambda>a. case a of ProbeEvent _ \<Rightarrow> True | ProbeLog _ \<Rightarrow> False) acts =
      (if st = ProbeEnded \<and> max 1 (unat (failure_threshold p)) \<le> unat (max_retries p)
       then [ProbeEvent (ProbeFailed name)] else [])"
proof -
  have nil: "trailing [] = 0" by (simp add: trailing_def)
  have "trailing [] < last_failure p" "run_liveness_probe name p (of_nat (trailing [])) rs = (acts, st)"
    using assms last_failure_bounds by (simp_all add: nil)
  note run = run_liveness_probe_prefix [OF this]
  have "(\<exists>i. trailing (take i rs) = k) \<longleftrightarrow> (\<exists>i \<le> length rs. trailing (take i rs) = k)" for k
    by (metis nle_le take_all order_refl)
  moreover have "length (events_of acts) \<le> 1"
    by (rule run_one_event [OF assms])
  ultimately show ?thesis
    using run events_of_single [of acts "st = ProbeEnded \<and> requests_restart p" "ProbeFailed name"]
    by (simp add: last_failure_def requests_restart_def flip: events_of_def)
qed

theorem probe_requests_restart_witness:
  "snd (run_liveness_probe ''web'' (sample_probe 2) 0 [Inl ''refused'', Inr 200, Inr 503, Inl ''timeout'', Inr 200]) =
     ProbeEnded"
proof -
  let ?rs = "[Inl ''refused'', Inr 200, Inr 503, Inl ''timeout'', Inr 200] :: (string + nat) list"
  obtain acts st where run: "run_liveness_probe ''web'' (sample_probe 2) 0 ?rs = (acts, st)" by force
  have "trailing (take 4 ?rs) = 2" by (simp add: trailing_def healthy_def)
  then have "\<exists>i. trailing (take i ?rs) = min (max 1 (unat (failure_threshold (sample_probe 2))))
      (unat (max_retries (sample_probe 2)) + 1)"
    by (intro exI [of _ 4]) (simp add: sample_probe_def)
  with probe_requests_restart [OF run] run show ?thesis by simp
qed

text \<open>
  A request of the probe that is handled only after another event changed the service: one
  that has exited is started again, and one the user has frozen is killed to be restarted.
\<close>

lemma stale_probe:
  assumes "bt_get (services m) name = Some s" "name \<noteq> BOOTSTRAP_NAME" "\<not> shutdown m"
  shows "status (state s) = Exited st \<Longrightarrow> stop_service_cmd os root name (Restart Automatic) m =
      start_service os (creds (config s)) name Automatic (put name (replace_dummy s) m)"
    and "status (state s) = Frozen process terminal \<Longrightarrow> stop_service_cmd os root name (Restart Automatic) m =
      store name () m (terminate_frozen os (Restart Automatic) process (replace_dummy s, world m))"
  using assms
  by (simp_all add: stop_service_cmd_def get_service_def get_service_mut_def check_credentials_def root_def
      terminate_service_def terminate_service_inner_def Let_def)

end
