(* ===== verification/Startup.thy ===== *)
theory Startup
  imports Main_Loop Signals
begin

text \<open>
  The start of \<open>main\<close> in \<open>beam-init/src/main.rs\<close> (resource limit, signal stream, sockets, the
  bootstrap command of \<open>cli.rs\<close>), and the end of the process after the main loop. The
  results of the system calls at the start are the record \<open>startup\<close>; the command line is what
  clap parsed.
\<close>

section \<open>Resource limits\<close>

definition expect :: "string \<Rightarrow> io_error + 'a \<Rightarrow> panic + 'a" where
  "expect m r = (case r of Inl err \<Rightarrow> Inl m | Inr x \<Rightarrow> Inr x)"

text \<open>The soft limit of open files is raised to the hard limit.\<close>

definition raise_nofile :: "libc_result \<Rightarrow> rlimit \<Rightarrow> (rlimit \<Rightarrow> libc_result) \<Rightarrow> panic + rlimit" where
  "raise_nofile get lim call =
     and_then (expect ''getrlimit should always succeed'' (getrlimit get lim)) (\<lambda>limit.
       let limit = limit\<lparr>rlim_cur := rlim_max limit\<rparr> in
       and_then (expect ''setrlimit without hard limit increase should always succeed'' (setrlimit call limit))
         (\<lambda>_. Inr limit))"

section \<open>Sockets\<close>

text \<open>Binding a socket and opening it to all users: the terminal store, and the API.\<close>

definition bind_socket :: "io_error + unit \<Rightarrow> io_error + unit \<Rightarrow> io_error + unit" where
  "bind_socket bind set_permissions = and_then bind (\<lambda>_. set_permissions)"

text \<open>
  The accept loop of the terminal store: a failed accept is logged and does not end it, the
  shutdown does. The connections handed to a task.
\<close>

datatype 'conn accepted = Accepted 'conn | AcceptFailed io_error | ShutdownCancelled

fun accept_loop :: "'conn accepted list \<Rightarrow> 'conn list" where
  "accept_loop [] = []"
| "accept_loop (Accepted c # es) = c # accept_loop es"
| "accept_loop (AcceptFailed err # es) = accept_loop es"
| "accept_loop (ShutdownCancelled # es) = []"

lemma accept_loop_all:
  "ShutdownCancelled \<notin> set es \<Longrightarrow> Accepted c \<in> set es \<Longrightarrow> c \<in> set (accept_loop es)"
proof (induction es)
  case (Cons e es)
  then show ?case by (cases e) auto
qed simp

section \<open>Start\<close>

text \<open>The options of the command line, and clap's defaults for those not given.\<close>

record cli =
  cli_environment_file :: "string list"
  cli_grace :: u32
  cli_log_retention_lines :: usize
  cli_command :: "string list"

definition cli_of :: "string list \<Rightarrow> u32 option \<Rightarrow> usize option \<Rightarrow> string list \<Rightarrow> cli" where
  "cli_of files grace lines command =
     \<lparr>cli_environment_file = files, cli_grace = (case grace of Some g \<Rightarrow> g | None \<Rightarrow> 300),
      cli_log_retention_lines = (case lines of Some n \<Rightarrow> n | None \<Rightarrow> 100), cli_command = command\<rparr>"

record startup =
  su_getrlimit :: libc_result
  su_rlimit :: rlimit
  su_setrlimit :: "rlimit \<Rightarrow> libc_result"
  su_signals :: signal_os
  su_async_fd :: "io_error + unit"
  su_blocked :: sigset
  su_ptystore :: "(io_error + unit) \<times> (io_error + unit)"
  su_api :: "(io_error + unit) \<times> (io_error + unit)"

record started =
  init_manager :: manager
  init_event :: event
  init_old_sigmask :: sigset
  init_blocked :: sigset
  init_rlimit :: rlimit

definition collected_signals :: "c_int list" where
  "collected_signals = [SIGCHLD, SIGTERM, SIGINT]"

definition start_main :: "startup \<Rightarrow> cli \<Rightarrow> panic + started" where
  "start_main su c =
     and_then (raise_nofile (su_getrlimit su) (su_rlimit su) (su_setrlimit su)) (\<lambda>limit.
       case cli_command c of
         [] \<Rightarrow> Inl ''removal index (is 0) should be < len (is 0)''
       | prog # rest \<Rightarrow>
           (case signal_stream_init (su_signals su) collected_signals (su_async_fd su) (su_blocked su) of
              (r, blocked) \<Rightarrow>
                and_then (expect ''failed to initialize the signal stream'' r) (\<lambda>old_sigmask.
                and_then (expect ''failed to bind ptystore socket'' (case_prod bind_socket (su_ptystore su))) (\<lambda>_.
                and_then (expect ''failed to bind api socket'' (case_prod bind_socket (su_api su))) (\<lambda>_. Inr
                  \<lparr>init_manager = new_manager (cli_environment_file c) (cli_log_retention_lines c),
                   init_event = bootstrap_event prog rest (cli_grace c),
                   init_old_sigmask = old_sigmask, init_blocked = blocked, init_rlimit = limit\<rparr>)))))"

section \<open>The whole process\<close>

text \<open>How the process ends: \<open>EndSignal\<close> is the number of the signal that ended it.\<close>

datatype process_end = NotEnded | EndCode c_int | EndSignal c_int

definition process_end_of :: "sigset \<Rightarrow> loop_next \<Rightarrow> process_end" where
  "process_end_of blocked next =
     (case next of
        LoopAgain \<Rightarrow> NotEnded
      | LoopBreak \<Rightarrow> EndCode 0
      | ProcessExit code \<Rightarrow> EndCode code
      | ExitWithSignal sig \<Rightarrow> EndSignal (exit_with_signal blocked sig))"

text \<open>
  \<open>main\<close>: the first event is the bootstrap command, on the machine of its moment; the others
  are the inputs.
\<close>

definition init_main ::
    "startup \<Rightarrow> cli \<Rightarrow> os \<times> env_os \<Rightarrow> input list \<Rightarrow> panic + (process_end \<times> manager)" where
  "init_main su c first inputs =
     and_then (start_main su c) (\<lambda>st.
     and_then (main_loop ((fst first, snd first, init_event st) # inputs) (init_manager st)) (\<lambda>(_, next, m).
       Inr (process_end_of (init_blocked st) next, m)))"

section \<open>Its start succeeds and its end mirrors the bootstrap service\<close>

definition startup_ok :: "startup \<Rightarrow> bool" where
  "startup_ok su \<longleftrightarrow> fst (su_getrlimit su) = 0 \<and>
     (\<forall>l. rlim_max l = rlim_max (su_rlimit su) \<longrightarrow> fst (su_setrlimit su l) = 0) \<and>
     signals_ok (su_signals su) \<and> su_async_fd su = Inr () \<and>
     su_ptystore su = (Inr (), Inr ()) \<and> su_api su = (Inr (), Inr ())"

lemma raise_nofile_ok:
  assumes "startup_ok su"
  shows "raise_nofile (su_getrlimit su) (su_rlimit su) (su_setrlimit su) =
    Inr ((su_rlimit su)\<lparr>rlim_cur := rlim_max (su_rlimit su)\<rparr>)"
  using assms by (simp add: startup_ok_def raise_nofile_def getrlimit_def setrlimit_def expect_def cerr_def Let_def)

lemma signal_stream_init_ok:
  "signals_ok os \<Longrightarrow> signal_stream_init os signals (Inr ()) blocked = (Inr blocked, blocked \<union> set signals)"
  by (simp add: signal_stream_init_def signal_set_new_ok masks_ok signalfd_new_def cerr_def)
    (auto simp: signals_ok_def)

lemma start_main_ok:
  assumes "startup_ok su" "cli_command c = prog # rest"
  shows "start_main su c = Inr
    \<lparr>init_manager = new_manager (cli_environment_file c) (cli_log_retention_lines c),
     init_event = bootstrap_event prog rest (cli_grace c), init_old_sigmask = su_blocked su,
     init_blocked = su_blocked su \<union> set collected_signals,
     init_rlimit = (su_rlimit su)\<lparr>rlim_cur := rlim_max (su_rlimit su)\<rparr>\<rparr>"
  using assms raise_nofile_ok [OF assms(1)]
  by (simp add: start_main_def startup_ok_def signal_stream_init_ok expect_def bind_socket_def)

text \<open>The loop ends with what the last event decided.\<close>

lemma main_loop_next:
  "main_loop is m = Inr (rs, next, m') \<Longrightarrow> is \<noteq> [] \<Longrightarrow> next = after_event m'"
proof (induction "is" arbitrary: m rs)
  case Nil
  then show ?case by simp
next
  case (Cons i "is")
  then obtain r m1 where m1: "turn i m = Inr (r, m1)" by (auto simp: and_then_eq_Inr)
  show ?case
  proof (cases "after_event m1 = LoopAgain \<and> is \<noteq> []")
    case True
    with Cons.prems m1 obtain rs' where "main_loop is m1 = Inr (rs', next, m')"
      by (auto simp: and_then_eq_Inr)
    with True show ?thesis by (auto intro: Cons.IH)
  next
    case False
    with Cons.prems m1 show ?thesis by (auto split: if_splits)
  qed
qed

text \<open>How the process should end, by the state of the manager and of the bootstrap service.\<close>

definition mirrored :: "manager \<Rightarrow> (c_int \<Rightarrow> c_int) \<Rightarrow> process_end" where
  "mirrored m by_signal =
     (if shutdown m then (if shutdown_complete m then EndCode 0 else NotEnded)
      else case bootstrap_status m of
          Some (Exited st) \<Rightarrow>
            (case (status_code st, status_signal st) of
               (Some code, _) \<Rightarrow> EndCode code
             | (None, Some sig) \<Rightarrow> EndSignal (by_signal sig)
             | (None, None) \<Rightarrow> EndCode 1)
        | Some Stopped \<Rightarrow> EndCode 0
        | _ \<Rightarrow> NotEnded)"

lemma process_end_of_after_event:
  "process_end_of blocked (after_event m) = mirrored m (exit_with_signal blocked)"
  by (auto simp: process_end_of_def after_event_def mirrored_def shutdown_initiated_def shutdown_complete_def
      split: option.splits service_status.splits)

lemma bootstrap_allowed: "os_ok os \<Longrightarrow> env_ok e \<Longrightarrow> allowed_input (os, e, bootstrap_event c as grace)"
  by (simp add: allowed_input_def bootstrap_event_def)

lemma init_main_runs:
  assumes su: "startup_ok su" and c: "cli_command c \<noteq> []"
    and first: "os_ok os" "env_ok e" and inputs: "list_all allowed_input inputs"
  shows "\<exists>m. init_main su c (os, e) inputs =
      Inr (mirrored m (exit_with_signal (su_blocked su \<union> set collected_signals)), m) \<and> good m"
proof -
  obtain prog rest where prog: "cli_command c = prog # rest" using c by (cases "cli_command c") auto
  let ?is = "(os, e, bootstrap_event prog rest (cli_grace c)) # inputs"
  have "list_all allowed_input ?is" using inputs bootstrap_allowed [OF first] by simp
  from main_loop_good [OF this new_manager_good]
  obtain rs "next" m where run: "main_loop ?is (new_manager (cli_environment_file c) (cli_log_retention_lines c)) = Inr (rs, next, m)"
    and good: "good m" by blast
  have "next = after_event m" by (rule main_loop_next [OF run]) simp
  with run good show ?thesis
    by (simp add: init_main_def start_main_ok [OF su prog] process_end_of_after_event del: main_loop.simps)
qed

text \<open>A bootstrap service killed by \<open>SIGTERM\<close> outside a shutdown makes the process abort.\<close>

lemma killed_bootstrap_aborts:
  assumes "bootstrap_status m = Some (Exited (signaled_status 15 False))" "\<not> shutdown m"
  shows "mirrored m (exit_with_signal (blocked \<union> set collected_signals)) = EndSignal SIGABRT"
proof -
  have "status_code (signaled_status 15 False) = None" "status_signal (signaled_status 15 False) = Some 15"
    by code_simp+
  then show ?thesis using assms by (simp add: mirrored_def exit_with_signal_def collected_signals_def)
qed


definition sample_startup :: startup where
  "sample_startup =
     \<lparr>su_getrlimit = (0, eof), su_rlimit = \<lparr>rlim_cur = 1024, rlim_max = 4096\<rparr>, su_setrlimit = (\<lambda>_. (0, eof)),
      su_signals = sample_signal_os, su_async_fd = Inr (), su_blocked = {},
      su_ptystore = (Inr (), Inr ()), su_api = (Inr (), Inr ())\<rparr>"

lemma sample_startup_ok: "startup_ok sample_startup"
  by (simp add: startup_ok_def sample_startup_def signals_ok_def sample_signal_os_def)

definition sample_cli :: cli where
  "sample_cli = cli_of [] None None [''sh'', ''-c'']"

text \<open>The sample: the bootstrap service, process 2 of the sample kernel, is killed by a signal.\<close>

definition sample_killed :: "raw_status \<Rightarrow> input list" where
  "sample_killed st = [(sample_os, sample_env, Signal_event SIGCHLD [((2, eof), st)])]"

lemma sample_killed_end:
  "map_sum id fst (init_main sample_startup sample_cli (sample_os, sample_env) (sample_killed (signaled_status 15 False))) =
     Inr (EndSignal SIGABRT)"
  by code_simp


end
