(* ===== verification/Terminal.thy ===== *)
theory Terminal
  imports Beamctl Signals
begin

text \<open>
  \<open>bin/terminal\<close>: the session of \<open>beamctl attach\<close>. The settings of the user's terminal
  (\<open>user_term.rs\<close>), the bytes copied between it and the terminal of the service, the signals
  that become requests, and how the session ends (\<open>mod.rs\<close>). What the kernel answers is the
  input: the results of the calls, and for each round of the loop what is ready.
\<close>

section \<open>Terminal settings\<close>

type_synonym tcflag = u32

record termios =
  c_iflag :: tcflag
  c_oflag :: tcflag
  c_cflag :: tcflag
  c_lflag :: tcflag
  c_cc :: "u8 list"

record winsize =
  ws_row :: u16
  ws_col :: u16
  ws_xpixel :: u16
  ws_ypixel :: u16

text \<open>The flags of Linux.\<close>

definition INPUT_FLAGS :: tcflag where
  "INPUT_FLAGS = 0x4 OR 0x8 OR 0x10 OR 0x20 OR 0x40 OR 0x80 OR 0x100 OR 0x200 OR 0x400 OR 0x800 OR
     0x1000 OR 0x2000 OR 0x4000"

definition OUTPUT_FLAGS :: tcflag where
  "OUTPUT_FLAGS = 0x1 OR 0x2 OR 0x4 OR 0x8 OR 0x10 OR 0x20"

definition LOCAL_FLAGS :: tcflag where
  "LOCAL_FLAGS = 0x2 OR 0x4 OR 0x8 OR 0x10 OR 0x20 OR 0x40 OR 0x80 OR 0x100 OR 0x8000 OR 0x200 OR
     0x800 OR 0x4000"

definition ISIG :: tcflag where "ISIG = 0x1"
definition CSIZE :: tcflag where "CSIZE = 0x30"
definition CS8 :: tcflag where "CS8 = 0x30"
definition PARENB :: tcflag where "PARENB = 0x100"

text \<open>
  \<open>cfmakeraw\<close> of libc clears \<open>IGNBRK BRKINT PARMRK ISTRIP INLCR IGNCR ICRNL IXON\<close>, \<open>OPOST\<close>
  and \<open>ECHO ECHONL ICANON ISIG IEXTEN\<close>, selects 8 bit characters without parity, and makes
  reads return single bytes (\<open>VTIME\<close> is entry 5, \<open>VMIN\<close> entry 6).
\<close>

definition RAW_INPUT :: tcflag where
  "RAW_INPUT = 0x1 OR 0x2 OR 0x8 OR 0x20 OR 0x40 OR 0x80 OR 0x100 OR 0x400"

definition RAW_OUTPUT :: tcflag where
  "RAW_OUTPUT = 0x1"

definition RAW_LOCAL :: tcflag where
  "RAW_LOCAL = 0x8 OR 0x40 OR 0x2 OR 0x1 OR 0x8000"

definition cfmakeraw :: "termios \<Rightarrow> termios" where
  "cfmakeraw t = t\<lparr>c_iflag := c_iflag t AND NOT RAW_INPUT, c_oflag := c_oflag t AND NOT RAW_OUTPUT,
     c_lflag := c_lflag t AND NOT RAW_LOCAL,
     c_cflag := (c_cflag t AND NOT (CSIZE OR PARENB)) OR CS8,
     c_cc := (c_cc t)[6 := 1, 5 := 0]\<rparr>"

definition copy_flags :: "tcflag \<Rightarrow> tcflag \<Rightarrow> tcflag \<Rightarrow> tcflag" where
  "copy_flags flags dst src = (dst AND NOT flags) OR (src AND flags)"

text \<open>The settings \<open>sync\<close> computes for the user's terminal from those of the service's.\<close>

definition synced :: "termios \<Rightarrow> termios \<Rightarrow> termios" where
  "synced tt_dst tt_src =
     (let tt_dst = tt_dst\<lparr>c_iflag := copy_flags INPUT_FLAGS (c_iflag tt_dst) (c_iflag tt_src),
            c_oflag := copy_flags OUTPUT_FLAGS (c_oflag tt_dst) (c_oflag tt_src),
            c_lflag := copy_flags LOCAL_FLAGS (c_lflag tt_dst) (c_lflag tt_src)\<rparr>;
          tt_dst = cfmakeraw tt_dst in
      tt_dst\<lparr>c_lflag := c_lflag tt_dst OR ISIG\<rparr>)"

text \<open>
  The terminals during a session: the settings of the user's, the size of the service's, the
  signal mask of the thread, and the bytes written to either terminal.
\<close>

record terminal =
  tm_termios :: termios
  tm_winsize :: winsize
  tm_blocked :: sigset
  tm_screen :: string
  tm_typed :: string

record sync_os =
  sy_getattr_tty :: libc_result
  sy_getattr_client :: libc_result
  sy_client_termios :: termios
  sy_setattr :: libc_result
  sy_get_winsize :: libc_result
  sy_winsize :: winsize
  sy_set_winsize :: libc_result

definition sync :: "sync_os \<Rightarrow> terminal \<Rightarrow> (io_error + unit) \<times> terminal" where
  "sync os t =
     (case and_then (cerr (sy_getattr_tty os)) (\<lambda>_. and_then (cerr (sy_getattr_client os)) (\<lambda>_.
             cerr (sy_setattr os))) of
        Inl err \<Rightarrow> (Inl err, t)
      | Inr _ \<Rightarrow>
          let t = t\<lparr>tm_termios := synced (tm_termios t) (sy_client_termios os)\<rparr> in
          (case and_then (cerr (sy_get_winsize os)) (\<lambda>_. cerr (sy_set_winsize os)) of
             Inl err \<Rightarrow> (Inl err, t)
           | Inr _ \<Rightarrow> (Inr (), t\<lparr>tm_winsize := sy_winsize os\<rparr>)))"

section \<open>What \<open>sync\<close> sets\<close>

lemmas flag_defs = INPUT_FLAGS_def OUTPUT_FLAGS_def LOCAL_FLAGS_def RAW_INPUT_def RAW_OUTPUT_def
  RAW_LOCAL_def ISIG_def CSIZE_def CS8_def PARENB_def

lemma bit_copy_flags:
  "bit (copy_flags flags dst src) i \<longleftrightarrow> (if bit flags i then bit src i else bit dst i)"
  by (auto simp: copy_flags_def bit_simps dest: bit_imp_le_length)

text \<open>Which settings are decided by \<open>cfmakeraw\<close>, by the service's terminal, or kept.\<close>

lemma synced_flags:
  "c_iflag (synced dst src) = copy_flags (INPUT_FLAGS AND NOT RAW_INPUT) (c_iflag dst AND NOT RAW_INPUT) (c_iflag src)"
  "c_oflag (synced dst src) = copy_flags (OUTPUT_FLAGS AND NOT RAW_OUTPUT) (c_oflag dst AND NOT RAW_OUTPUT) (c_oflag src)"
  "c_lflag (synced dst src) =
     copy_flags (LOCAL_FLAGS AND NOT RAW_LOCAL) (c_lflag dst AND NOT RAW_LOCAL) (c_lflag src) OR ISIG"
  "c_cflag (synced dst src) = (c_cflag dst AND NOT (CSIZE OR PARENB)) OR CS8"
  "c_cc (synced dst src) = (c_cc dst)[6 := 1, 5 := 0]"
  by (simp_all add: synced_def cfmakeraw_def Let_def)
    (rule bit_word_eqI; auto simp: bit_simps bit_copy_flags)+

lemma copy_flags_again:
  "copy_flags flags (copy_flags flags dst src AND NOT raw) src = copy_flags flags (dst AND NOT raw) src"
  by (rule bit_word_eqI) (auto simp: bit_simps bit_copy_flags)

lemma synced_idem: "synced (synced dst src) src = synced dst src"
proof (rule termios.equality)
  let ?t = "synced dst src"
  show "c_iflag (synced ?t src) = c_iflag ?t" "c_oflag (synced ?t src) = c_oflag ?t"
    "c_lflag (synced ?t src) = c_lflag ?t" "c_cflag (synced ?t src) = c_cflag ?t"
    unfolding synced_flags
    by (rule bit_word_eqI; auto simp: bit_simps bit_copy_flags CS8_def CSIZE_def)+
  show "c_cc (synced ?t src) = c_cc ?t" by (simp add: synced_flags list_update_swap)
qed simp

lemma bit_ISIG: "bit ISIG i \<longleftrightarrow> i = 0"
  by (simp add: ISIG_def bit_1_iff)

lemma raw_characters:
  "(c AND NOT (CSIZE OR PARENB) OR CS8) AND CSIZE = CS8" "(c AND NOT (CSIZE OR PARENB) OR CS8) AND PARENB = 0"
proof -
  have "CS8 AND PARENB = 0" by code_simp
  then have "\<not> (bit CS8 i \<and> bit PARENB i)" for i
    by (metis bit_and_iff bit_0_eq bot_apply bot_bool_def)
  moreover have "CSIZE = CS8" by (simp add: CSIZE_def CS8_def)
  ultimately show "(c AND NOT (CSIZE OR PARENB) OR CS8) AND CSIZE = CS8"
    "(c AND NOT (CSIZE OR PARENB) OR CS8) AND PARENB = 0"
    by (auto intro!: bit_word_eqI simp: bit_simps)
qed

text \<open>
  C19: after a successful \<open>sync\<close> the user's terminal is raw but for its signal keys: no flag
  that translates, echoes or buffers is set, characters have 8 bits and no parity, and
  \<open>ISIG\<close> is on. Every other flag the two terminals share is the service's, every flag
  \<open>sync\<close> does not know keeps its value, the service's terminal has the size of the user's,
  and a second \<open>sync\<close> with the same terminals changes nothing.
\<close>

theorem sync_settings:
  assumes "sync os t = (Inr (), t')"
  shows "let src = sy_client_termios os; old = tm_termios t; new = tm_termios t' in
    (\<forall>i. bit (c_iflag new) i \<longleftrightarrow>
       \<not> bit RAW_INPUT i \<and> bit (if bit INPUT_FLAGS i then c_iflag src else c_iflag old) i) \<and>
    (\<forall>i. bit (c_oflag new) i \<longleftrightarrow>
       \<not> bit RAW_OUTPUT i \<and> bit (if bit OUTPUT_FLAGS i then c_oflag src else c_oflag old) i) \<and>
    (\<forall>i. bit (c_lflag new) i \<longleftrightarrow>
       i = 0 \<or> \<not> bit RAW_LOCAL i \<and> bit (if bit LOCAL_FLAGS i then c_lflag src else c_lflag old) i) \<and>
    c_cflag new AND CSIZE = CS8 \<and> c_cflag new AND PARENB = 0 \<and>
    tm_winsize t' = sy_winsize os \<and> synced new src = new"
proof -
  have new: "tm_termios t' = synced (tm_termios t) (sy_client_termios os)" and size: "tm_winsize t' = sy_winsize os"
    using assms by (auto simp: sync_def Let_def split: sum.splits)
  show ?thesis
    unfolding Let_def new size
    using raw_characters [of "c_cflag (tm_termios t)"]
    by (auto simp: synced_idem synced_flags bit_simps bit_copy_flags bit_ISIG dest: bit_imp_le_length)
qed

definition sample_termios :: termios where
  "sample_termios = \<lparr>c_iflag = 0x500, c_oflag = 0x5, c_cflag = 0xBF, c_lflag = 0x8A3B, c_cc = replicate 19 0\<rparr>"

definition sample_sync :: sync_os where
  "sample_sync =
     \<lparr>sy_getattr_tty = (0, eof), sy_getattr_client = (0, eof), sy_client_termios = sample_termios\<lparr>c_iflag := 0x2D02\<rparr>,
      sy_setattr = (0, eof), sy_get_winsize = (0, eof),
      sy_winsize = \<lparr>ws_row = 24, ws_col = 80, ws_xpixel = 0, ws_ypixel = 0\<rparr>, sy_set_winsize = (0, eof)\<rparr>"

definition sample_terminal :: terminal where
  "sample_terminal =
     \<lparr>tm_termios = sample_termios, tm_winsize = \<lparr>ws_row = 0, ws_col = 0, ws_xpixel = 0, ws_ypixel = 0\<rparr>,
      tm_blocked = {}, tm_screen = [], tm_typed = []\<rparr>"

lemma sample_sync_ok: "sync sample_sync t =
   (Inr (), t\<lparr>tm_termios := synced (tm_termios t) (sample_termios\<lparr>c_iflag := 0x2D02\<rparr>),
              tm_winsize := \<lparr>ws_row = 24, ws_col = 80, ws_xpixel = 0, ws_ypixel = 0\<rparr>\<rparr>)"
  by (simp add: sync_def sample_sync_def cerr_def)

text \<open>In the sample, \<open>IMAXBEL\<close> and \<open>IXANY\<close> come from the service, the rest is raw.\<close>

theorem sync_settings_witness:
  "\<exists>t'. sync sample_sync sample_terminal = (Inr (), t') \<and> c_iflag (tm_termios t') = 0x2800 \<and>
     (\<forall>i. bit (c_lflag (tm_termios t')) i \<longleftrightarrow>
       i = 0 \<or> \<not> bit RAW_LOCAL i \<and> bit (0x8A3B :: tcflag) i)"
proof (intro exI conjI)
  show s: "sync sample_sync sample_terminal = (Inr (), snd (sync sample_sync sample_terminal))"
    by (simp add: sample_sync_ok)
  show "c_iflag (tm_termios (snd (sync sample_sync sample_terminal))) = 0x2800" by code_simp
  show "\<forall>i. bit (c_lflag (tm_termios (snd (sync sample_sync sample_terminal)))) i \<longleftrightarrow>
       i = 0 \<or> \<not> bit RAW_LOCAL i \<and> bit (0x8A3B :: tcflag) i"
    using sync_settings [OF s] by (simp add: Let_def sample_sync_def sample_terminal_def sample_termios_def)
qed

section \<open>Copying bytes\<close>

text \<open>
  \<open>std::io::copy\<close> between two nonblocking terminals: the answers of the reads, each with at
  most a buffer of bytes, and of the writes, each with the number of bytes taken. After the
  listed reads there is nothing more to read for the moment, and after the listed writes
  everything is taken.
\<close>

definition would_block :: io_error where
  "would_block = \<lparr>raw_os_error = Some 11, io_kind = WouldBlock, io_msg = ''Resource temporarily unavailable (os error 11)''\<rparr>"

definition write_zero :: io_error where
  "write_zero = io_other OtherKind ''failed to write whole buffer''"

fun write_all :: "(io_error + nat) list \<Rightarrow> string \<Rightarrow> (io_error + unit) \<times> string \<times> (io_error + nat) list" where
  "write_all ws buf =
     (if buf = [] then (Inr (), [], ws)
      else case ws of
          [] \<Rightarrow> (Inr (), buf, [])
        | Inl err # ws \<Rightarrow> if io_kind err = Interrupted then write_all ws buf else (Inl err, [], ws)
        | Inr n # ws \<Rightarrow>
            if n = 0 then (Inl write_zero, [], ws)
            else (case write_all ws (drop n buf) of (r, written, ws) \<Rightarrow> (r, take n buf @ written, ws)))"

declare write_all.simps [simp del]

lemma write_all_simps [simp]:
  "write_all ws [] = (Inr (), [], ws)"
  "write_all [] buf = (Inr (), buf, [])"
  "buf \<noteq> [] \<Longrightarrow> write_all (Inl err # ws) buf =
     (if io_kind err = Interrupted then write_all ws buf else (Inl err, [], ws))"
  "buf \<noteq> [] \<Longrightarrow> write_all (Inr n # ws) buf =
     (if n = 0 then (Inl write_zero, [], ws)
      else (case write_all ws (drop n buf) of (r, written, ws) \<Rightarrow> (r, take n buf @ written, ws)))"
  by (simp_all add: write_all.simps [of ws] write_all.simps [of "[]"] write_all.simps [of "_ # _"])

fun io_copy :: "(io_error + string) list \<Rightarrow> (io_error + nat) list \<Rightarrow> (io_error + nat) \<times> string" where
  "io_copy [] ws = (Inl would_block, [])"
| "io_copy (Inl err # rs) ws = (if io_kind err = Interrupted then io_copy rs ws else (Inl err, []))"
| "io_copy (Inr buf # rs) ws =
     (if buf = [] then (Inr 0, [])
      else case write_all ws buf of
          (Inl err, written, _) \<Rightarrow> (Inl err, written)
        | (Inr _, written, ws) \<Rightarrow>
            (case io_copy rs ws of (r, next) \<Rightarrow> (map_sum id (\<lambda>n. length buf + n) r, written @ next)))"

text \<open>\<open>terminated\<close>: whether the copy, and with it the session, has ended.\<close>

definition terminated :: "io_error + 'a \<Rightarrow> io_error + bool" where
  "terminated r =
     (case r of
        Inr _ \<Rightarrow> Inr True
      | Inl err \<Rightarrow>
          if raw_os_error err = Some EIO then Inr True
          else if io_kind err = WouldBlock then Inr False
          else Inl err)"

text \<open>What the reads deliver until one fails or finds the end.\<close>

fun readable :: "(io_error + string) list \<Rightarrow> string" where
  "readable [] = []"
| "readable (Inl err # rs) = (if io_kind err = Interrupted then readable rs else [])"
| "readable (Inr buf # rs) = (if buf = [] then [] else buf @ readable rs)"

definition takes_all :: "(io_error + nat) list \<Rightarrow> bool" where
  "takes_all ws \<longleftrightarrow> list_all (\<lambda>w. case w of Inr n \<Rightarrow> n \<noteq> 0 | Inl err \<Rightarrow> io_kind err = Interrupted) ws"

lemma write_all_prefix: "write_all ws buf = (r, written, ws') \<Longrightarrow> prefix written buf \<and> (isOk r \<longrightarrow> written = buf)"
proof (induction ws arbitrary: buf r written)
  case Nil
  then show ?case by auto
next
  case (Cons w ws)
  show ?case
  proof (cases "buf = [] \<or> (\<exists>err. w = Inl err)")
    case True
    with Cons show ?thesis by (cases "buf = []") (auto split: if_splits)
  next
    case False
    then obtain n where w: "w = Inr n" and buf: "buf \<noteq> []" by (cases w) auto
    obtain r1 w1 ws2 where rest: "write_all ws (drop n buf) = (r1, w1, ws2)" by (cases "write_all ws (drop n buf)")
    have "prefix w1 (drop n buf) \<Longrightarrow> prefix (take n buf @ w1) buf"
      by (metis append_take_drop_id same_prefix_prefix)
    with rest w buf Cons.prems Cons.IH [of "drop n buf" r1 w1] show ?thesis by (auto split: if_splits)
  qed
qed

lemma takes_all_Cons: "takes_all (w # ws) \<longleftrightarrow> (case w of Inr n \<Rightarrow> n \<noteq> 0 | Inl err \<Rightarrow> io_kind err = Interrupted) \<and> takes_all ws"
  by (simp add: takes_all_def)

lemma write_all_takes: "takes_all ws \<Longrightarrow> \<exists>ws'. write_all ws buf = (Inr (), buf, ws') \<and> takes_all ws'"
proof (induction ws arbitrary: buf)
  case Nil
  then show ?case by simp
next
  case (Cons w ws)
  then have ws: "takes_all ws" by (simp add: takes_all_Cons)
  show ?case
  proof (cases "buf = []")
    case True
    with Cons.prems show ?thesis by simp
  next
    case False
    show ?thesis
    proof (cases w)
      case (Inl err)
      with False Cons.prems Cons.IH [OF ws, of buf] show ?thesis by (simp add: takes_all_Cons)
    next
      case (Inr n)
      obtain ws' where "write_all ws (drop n buf) = (Inr (), drop n buf, ws')" "takes_all ws'"
        using Cons.IH [OF ws] by blast
      with False Inr Cons.prems show ?thesis by (simp add: takes_all_Cons)
    qed
  qed
qed

lemma io_copy_prefix: "prefix (snd (io_copy rs ws)) (readable rs)"
proof (induction rs ws rule: io_copy.induct)
  case (3 buf rs ws)
  obtain r written ws' where w: "write_all ws buf = (r, written, ws')" by (cases "write_all ws buf")
  with write_all_prefix [OF w] "3.IH" show ?case
    by (cases r) (auto split: prod.splits intro: prefix_prefix)
qed auto

lemma io_copy_all: "takes_all ws \<Longrightarrow> snd (io_copy rs ws) = readable rs"
proof (induction rs ws rule: io_copy.induct)
  case (3 buf rs ws)
  obtain ws' where "write_all ws buf = (Inr (), buf, ws')" "takes_all ws'"
    using write_all_takes [OF "3.prems"] by blast
  with "3.IH" show ?case by (auto split: prod.splits)
qed auto



section \<open>The session\<close>

text \<open>
  A step of the session on the server behind the client and the terminals. \<open>Waiting\<close>: the
  listed rounds are over and the session goes on.
\<close>

datatype failure = Failed io_error | Panicked panic | Waiting

type_synonym ('s, 'a) tio = "'s \<times> terminal \<Rightarrow> (failure + 'a) \<times> 's \<times> terminal"

definition tio_ret :: "'a \<Rightarrow> ('s, 'a) tio" where
  "tio_ret x = (\<lambda>st. (Inr x, st))"

definition tio_bind :: "('s, 'a) tio \<Rightarrow> ('a \<Rightarrow> ('s, 'b) tio) \<Rightarrow> ('s, 'b) tio" where
  "tio_bind m f = (\<lambda>st. case m st of (Inl e, st) \<Rightarrow> (Inl e, st) | (Inr x, st) \<Rightarrow> f x st)"

definition tio_fail :: "failure \<Rightarrow> ('s, 'a) tio" where
  "tio_fail e = (\<lambda>st. (Inl e, st))"

text \<open>The \<open>?\<close> operator on the result of a system call.\<close>

definition io_try :: "io_error + 'a \<Rightarrow> ('s, 'a) tio" where
  "io_try r = (\<lambda>st. (map_sum Failed id r, st))"

definition on_terminal :: "(terminal \<Rightarrow> (io_error + 'a) \<times> terminal) \<Rightarrow> ('s, 'a) tio" where
  "on_terminal f = (\<lambda>(s, t). case f t of (r, t) \<Rightarrow> (map_sum Failed id r, s, t))"

text \<open>A method of the client, its error wrapped by \<open>io::Error::other\<close>.\<close>

definition as_io_error :: "'s net \<Rightarrow> client_error \<Rightarrow> io_error" where
  "as_io_error net err = io_other OtherKind (client_error_to_string (net_status_text net) err)"

definition request :: "'s net \<Rightarrow> client_call \<Rightarrow> ('s, unit) tio" where
  "request net call =
     (\<lambda>(s, t). case net_serve net (client_request_of call) s of
        (r, s) \<Rightarrow> (map_sum (Failed \<circ> as_io_error net) id (request_json (net_text net) as_unit r), s, t))"

definition session_client :: "'s net \<Rightarrow> ('s, string) tio" where
  "session_client net =
     (\<lambda>(s, t). (map_sum (Failed \<circ> as_io_error net) id (client_new (fst (net_socket net s)) (snd (net_socket net s))), s, t))"

text \<open>What is ready in a round: a terminal with the answers of the copy, or a signal.\<close>

datatype poll_event =
    CanReadFromPty "(io_error + string) list" "(io_error + nat) list"
  | CanReadFromController "(io_error + string) list" "(io_error + nat) list"
  | SignalArrived "io_error + string"
  | OtherToken

definition signo_of :: "siginfo \<Rightarrow> panic + c_int" where
  "signo_of info = (if uint (ssi_signo info) < 2 ^ 31 then Inr (uint (ssi_signo info)) else Inl ''signo to fit in c_int'')"

definition handle_signal_arrived :: "'s net \<Rightarrow> string \<Rightarrow> c_int \<Rightarrow> ('s, bool) tio" where
  "handle_signal_arrived net name sig =
     (if sig = SIGINT \<or> sig = SIGQUIT then tio_bind (request net (CallSignal name sig)) (\<lambda>_. tio_ret False)
      else if sig = SIGWINCH then tio_ret False
      else if sig = SIGTSTP then tio_bind (request net (CallDetached name)) (\<lambda>_. tio_ret True)
      else tio_fail (Panicked ''An unexpected signal was caught''))"

fun handle_poll_event :: "'s net \<Rightarrow> string \<Rightarrow> poll_event \<Rightarrow> ('s, bool) tio" where
  "handle_poll_event net name (CanReadFromPty rs ws) =
     (case io_copy rs ws of (r, written) \<Rightarrow>
        on_terminal (\<lambda>t. (terminated r, t\<lparr>tm_screen := tm_screen t @ written\<rparr>)))"
| "handle_poll_event net name (CanReadFromController rs ws) =
     (case io_copy rs ws of (r, written) \<Rightarrow>
        on_terminal (\<lambda>t. (terminated r, t\<lparr>tm_typed := tm_typed t @ written\<rparr>)))"
| "handle_poll_event net name (SignalArrived r) =
     tio_bind (io_try (signalfd_read r)) (\<lambda>info.
       case signo_of info of Inl p \<Rightarrow> tio_fail (Panicked p) | Inr sig \<Rightarrow> handle_signal_arrived net name sig)"
| "handle_poll_event net name OtherToken = tio_ret False"

fun handle_poll_events :: "'s net \<Rightarrow> string \<Rightarrow> poll_event list \<Rightarrow> ('s, bool) tio" where
  "handle_poll_events net name [] = tio_ret False"
| "handle_poll_events net name (e # es) =
     tio_bind (handle_poll_event net name e) (\<lambda>ended.
       if ended then tio_ret True else handle_poll_events net name es)"

record poll_round =
  pr_sync :: sync_os
  pr_poll :: "io_error + poll_event list"

fun session_loop :: "'s net \<Rightarrow> string \<Rightarrow> poll_round list \<Rightarrow> ('s, unit) tio" where
  "session_loop net name [] = tio_fail Waiting"
| "session_loop net name (p # ps) =
     tio_bind (on_terminal (sync (pr_sync p))) (\<lambda>_.
     tio_bind (io_try (pr_poll p)) (\<lambda>events.
     tio_bind (handle_poll_events net name events) (\<lambda>ended.
       if ended then tio_ret () else session_loop net name ps)))"

definition O_NONBLOCK :: int where "O_NONBLOCK = 0x800"

definition set_nonblocking :: "libc_result \<Rightarrow> (c_int \<Rightarrow> libc_result) \<Rightarrow> io_error + unit" where
  "set_nonblocking getfl setfl =
     and_then (cerr getfl) (\<lambda>flags. and_then (cerr (setfl (flags OR O_NONBLOCK))) (\<lambda>_. Inr ()))"

section \<open>Leaving the session\<close>

text \<open>
  A value with a destructor: when the body has ended, well or not, the destructor runs; its
  panic is the outcome unless the body had panicked before.
\<close>

definition dropping :: "(terminal \<Rightarrow> (panic + unit) \<times> terminal) \<Rightarrow> ('s, 'a) tio \<Rightarrow> ('s, 'a) tio" where
  "dropping destroy body =
     (\<lambda>st. case body st of
        (Inl Waiting, st) \<Rightarrow> (Inl Waiting, st)
      | (r, s, t) \<Rightarrow>
          (case destroy t of
             (Inr _, t) \<Rightarrow> (r, s, t)
           | (Inl p, t) \<Rightarrow> ((case r of Inl (Panicked q) \<Rightarrow> Inl (Panicked q) | _ \<Rightarrow> Inl (Panicked p)), s, t)))"

definition restore_terminal :: "libc_result \<Rightarrow> termios \<Rightarrow> terminal \<Rightarrow> (panic + unit) \<times> terminal" where
  "restore_terminal setattr original t =
     (case cerr setattr of
        Inl _ \<Rightarrow> (Inl ''to restore terminal settings'', t)
      | Inr _ \<Rightarrow> (Inr (), t\<lparr>tm_termios := original\<rparr>))"

definition restore_signals :: "signal_os \<Rightarrow> sigset \<Rightarrow> terminal \<Rightarrow> (panic + unit) \<times> terminal" where
  "restore_signals os old t =
     (case set_mask os old (tm_blocked t) of
        (Inl _, blocked) \<Rightarrow> (Inl ''to restore signals'', t\<lparr>tm_blocked := blocked\<rparr>)
      | (Inr _, blocked) \<Rightarrow> (Inr (), t\<lparr>tm_blocked := blocked\<rparr>))"

text \<open>The order of the two drops matters to nothing but the text of a second panic.\<close>

record session_os =
  ss_open :: "io_error + unit"
  ss_getattr :: libc_result
  ss_signals :: signal_os
  ss_sync :: sync_os
  ss_poll_new :: "io_error + unit"
  ss_fcntl_tty :: "libc_result \<times> (c_int \<Rightarrow> libc_result)"
  ss_fcntl_pty :: "libc_result \<times> (c_int \<Rightarrow> libc_result)"
  ss_register :: "(io_error + unit) list"
  ss_rounds :: "poll_round list"
  ss_restore :: libc_result

text \<open>\<open>UserTerm::open\<close>: the settings to be restored.\<close>

definition user_term_open :: "session_os \<Rightarrow> terminal \<Rightarrow> (io_error + termios) \<times> terminal" where
  "user_term_open os t = (and_then (ss_open os) (\<lambda>_. and_then (cerr (ss_getattr os)) (\<lambda>_. Inr (tm_termios t))), t)"

text \<open>\<open>SignalFdRestore::new\<close>: the set, its signalfd and the mask, as for the stream of the init
  process; the mask to be restored.\<close>

definition signal_fd_restore_new :: "signal_os \<Rightarrow> c_int list \<Rightarrow> terminal \<Rightarrow> (io_error + sigset) \<times> terminal" where
  "signal_fd_restore_new os signals t =
     (case signal_stream_init os signals (Inr ()) (tm_blocked t) of (r, blocked) \<Rightarrow> (r, t\<lparr>tm_blocked := blocked\<rparr>))"

text \<open>The poller, both terminals made nonblocking, and the registration of the three sources.\<close>

definition session_setup :: "session_os \<Rightarrow> io_error + unit list" where
  "session_setup os =
     collect_results id ([ss_poll_new os, case_prod set_nonblocking (ss_fcntl_tty os),
       case_prod set_nonblocking (ss_fcntl_pty os)] @ ss_register os)"

definition session_signals :: "c_int list" where
  "session_signals = [SIGINT, SIGQUIT, SIGTSTP, SIGWINCH]"

definition manage :: "'s net \<Rightarrow> session_os \<Rightarrow> string \<Rightarrow> ('s, unit) tio" where
  "manage net os name =
     tio_bind (on_terminal (user_term_open os)) (\<lambda>original.
     dropping (restore_terminal (ss_restore os) original) (
       tio_bind (on_terminal (signal_fd_restore_new (ss_signals os) session_signals)) (\<lambda>old_sigmask.
       dropping (restore_signals (ss_signals os) old_sigmask) (
         tio_bind (session_client net) (\<lambda>_.
         tio_bind (request net (CallAttached name)) (\<lambda>_.
         tio_bind (on_terminal (sync (ss_sync os))) (\<lambda>_.
         tio_bind (io_try (session_setup os)) (\<lambda>_.
           session_loop net name (ss_rounds os)))))))))"

section \<open>The session leaves no trace\<close>

lemma tio_bind_eq: "tio_bind m f st = (r, st') \<longleftrightarrow>
    (\<exists>e. m st = (Inl e, st') \<and> r = Inl e) \<or> (\<exists>x st1. m st = (Inr x, st1) \<and> f x st1 = (r, st'))"
  by (auto simp: tio_bind_def split: prod.splits sum.splits)

lemma on_terminal_eq: "on_terminal f (s, t) = (r, st') \<longleftrightarrow> st' = (s, snd (f t)) \<and> r = map_sum Failed id (fst (f t))"
  by (auto simp: on_terminal_def split: prod.splits)

text \<open>What holds after the destructor, whatever the body did.\<close>

lemma dropping_after:
  assumes "dropping destroy body st = (r, s', t')" "r \<noteq> Inl Waiting"
  shows "\<exists>t. t' = snd (destroy t) \<and> (\<forall>p. fst (destroy t) = Inl p \<longrightarrow> (\<exists>q. r = Inl (Panicked q)))"
proof -
  obtain r0 s0 t0 where body: "body st = (r0, s0, t0)" by (cases "body st")
  have "r0 \<noteq> Inl Waiting" using assms body by (auto simp: dropping_def)
  then have "(case destroy t0 of (Inr _, t) \<Rightarrow> (r0, s0, t)
      | (Inl p, t) \<Rightarrow> ((case r0 of Inl (Panicked q) \<Rightarrow> Inl (Panicked q) | _ \<Rightarrow> Inl (Panicked p)), s0, t)) = (r, s', t')"
    using assms(1) body by (auto simp: dropping_def split: sum.splits failure.splits)
  then show ?thesis
    by (intro exI [of _ t0]) (auto split: prod.splits sum.splits failure.splits)
qed

lemma dropping_Waiting: "dropping destroy body st = (Inl Waiting, s', t') \<Longrightarrow> body st = (Inl Waiting, s', t')"
  by (auto simp: dropping_def split: prod.splits sum.splits failure.splits)

lemma restore_signals_mask:
  "fst (so_sigmask os SIG_SETMASK) = 0 \<Longrightarrow> restore_signals os old t = (Inr (), t\<lparr>tm_blocked := old\<rparr>)"
  by (simp add: restore_signals_def mask_defs)

lemma signal_fd_restore_new_old:
  assumes "\<And>how. fst (so_sigmask os how) = 0"
  shows "snd (signal_fd_restore_new os signals t) = t\<lparr>tm_blocked := tm_blocked (snd (signal_fd_restore_new os signals t))\<rparr>"
    and "fst (signal_fd_restore_new os signals t) = Inl e \<Longrightarrow> snd (signal_fd_restore_new os signals t) = t"
    and "fst (signal_fd_restore_new os signals t) = Inr old \<Longrightarrow> old = tm_blocked t"
  using assms
  by (auto simp: signal_fd_restore_new_def signal_stream_init_def mask_defs split: sum.splits)

lemma manage_restores:
  assumes mask: "\<And>how. fst (so_sigmask (ss_signals os) how) = 0"
    and run: "manage net os name (s, t) = (r, s', t')" and ended: "r \<noteq> Inl Waiting"
  shows "tm_blocked t' = tm_blocked t \<and>
    (tm_termios t' = tm_termios t \<or> fst (ss_restore os) = -1 \<and> (\<exists>p. r = Inl (Panicked p)))"
proof -
  let ?inner = "tio_bind (on_terminal (signal_fd_restore_new (ss_signals os) session_signals))"
  consider e where "fst (user_term_open os t) = Inl e" | original where "fst (user_term_open os t) = Inr original"
    by (cases "fst (user_term_open os t)") auto
  then show ?thesis
  proof cases
    case 1
    with run show ?thesis by (auto simp: manage_def tio_bind_eq on_terminal_eq user_term_open_def)
  next
    case 2
    then have original: "original = tm_termios t"
      by (auto simp: user_term_open_def and_then_eq_Inr)
    from run 2 obtain body where outer: "dropping (restore_terminal (ss_restore os) original) body (s, t) = (r, s', t')"
      and body: "body = ?inner (\<lambda>old_sigmask. dropping (restore_signals (ss_signals os) old_sigmask) (
         tio_bind (session_client net) (\<lambda>_. tio_bind (request net (CallAttached name)) (\<lambda>_.
         tio_bind (on_terminal (sync (ss_sync os))) (\<lambda>_. tio_bind (io_try (session_setup os)) (\<lambda>_.
           session_loop net name (ss_rounds os)))))))"
      by (auto simp: manage_def tio_bind_eq on_terminal_eq user_term_open_def)
    obtain r0 s0 t0 where r0: "body (s, t) = (r0, s0, t0)" by (cases "body (s, t)")
    have r0_ended: "r0 \<noteq> Inl Waiting" using outer r0 ended by (auto simp: dropping_def)
    have "tm_blocked t0 = tm_blocked t"
    proof (cases "fst (signal_fd_restore_new (ss_signals os) session_signals t)")
      case (Inl e)
      with r0 show ?thesis
        using signal_fd_restore_new_old(2) [OF mask Inl] by (auto simp: body tio_bind_eq on_terminal_eq)
    next
      case (Inr old)
      with r0 obtain m st where "dropping (restore_signals (ss_signals os) old) m st = (r0, s0, t0)"
        by (auto simp: body tio_bind_eq on_terminal_eq)
      from dropping_after [OF this r0_ended] show ?thesis
        using signal_fd_restore_new_old(3) [OF mask Inr] mask by (auto simp: restore_signals_mask)
    qed
    moreover from outer r0 r0_ended have "t' = snd (restore_terminal (ss_restore os) original t0) \<and>
        (\<forall>p. fst (restore_terminal (ss_restore os) original t0) = Inl p \<longrightarrow> (\<exists>q. r = Inl (Panicked q)))"
      by (auto simp: dropping_def split: prod.splits sum.splits failure.splits)
    ultimately show ?thesis
      by (auto simp: restore_terminal_def cerr_def original split: if_splits)
  qed
qed

text \<open>
  C17: whatever happens in a session of \<open>beamctl attach\<close> -- the service ends, the user
  detaches, any system call or request fails, an assertion fails -- once it is over the
  signal mask is the one from before, and so are the settings of the user's terminal; only
  when the call that restores them fails are they left, and then beamctl panics.
\<close>

theorem session_restores:
  assumes "\<And>how. fst (so_sigmask (ss_signals os) how) = 0"
    and "manage net os name (s, t) = (r, s', t')" and "r \<noteq> Inl Waiting"
  shows "tm_blocked t' = tm_blocked t \<and>
    (tm_termios t' = tm_termios t \<or> fst (ss_restore os) = -1 \<and> (\<exists>p. r = Inl (Panicked p)))"
  by (rule manage_restores [OF assms])

definition sample_session :: "poll_round list \<Rightarrow> session_os" where
  "sample_session ps =
     \<lparr>ss_open = Inr (), ss_getattr = (0, eof), ss_signals = sample_signal_os, ss_sync = sample_sync,
      ss_poll_new = Inr (), ss_fcntl_tty = ((2, eof), \<lambda>_. (0, eof)), ss_fcntl_pty = ((2, eof), \<lambda>_. (0, eof)),
      ss_register = replicate 3 (Inr ()), ss_rounds = ps, ss_restore = (0, eof)\<rparr>"

text \<open>A signal as the kernel writes it, in the order of its bytes.\<close>

definition signal_bytes :: "nat \<Rightarrow> string" where
  "signal_bytes n = char_of n # replicate 127 (CHR 0x00)"

text \<open>The sample: some output, \<open>SIGINT\<close>, a new size, some input, then \<open>SIGTSTP\<close>.\<close>

definition sample_rounds :: "poll_round list" where
  "sample_rounds =
     [\<lparr>pr_sync = sample_sync, pr_poll = Inr [CanReadFromPty [Inr ''hi''] [], SignalArrived (Inr (signal_bytes 2))]\<rparr>,
      \<lparr>pr_sync = sample_sync, pr_poll = Inr [SignalArrived (Inr (signal_bytes 28)), CanReadFromController [Inr ''q''] []]\<rparr>,
      \<lparr>pr_sync = sample_sync, pr_poll = Inr [SignalArrived (Inr (signal_bytes 20)), OtherToken]\<rparr>]"

section \<open>The requests of a session\<close>

definition serve_all :: "'s net \<Rightarrow> client_call list \<Rightarrow> 's \<Rightarrow> 's" where
  "serve_all net calls s = fold (\<lambda>call s. snd (net_serve net (client_request_of call) s)) calls s"

lemma serve_all_simps [simp]:
  "serve_all net [] s = s"
  "serve_all net (call # calls) s = serve_all net calls (snd (net_serve net (client_request_of call) s))"
  "serve_all net (calls @ calls') s = serve_all net calls' (serve_all net calls s)"
  by (simp_all add: serve_all_def)

definition arrived :: "poll_event \<Rightarrow> c_int option" where
  "arrived e =
     (case e of SignalArrived r \<Rightarrow> (case signalfd_read r of Inr info \<Rightarrow> Some (uint (ssi_signo info)) | Inl _ \<Rightarrow> None)
      | _ \<Rightarrow> None)"

text \<open>What an event means: signals for the service, output and input, and the end of the session.\<close>

definition key_calls :: "string \<Rightarrow> poll_event \<Rightarrow> client_call list" where
  "key_calls name e =
     (case arrived e of Some sig \<Rightarrow> if sig = SIGINT \<or> sig = SIGQUIT then [CallSignal name sig] else [] | None \<Rightarrow> [])"

definition detaches :: "poll_event \<Rightarrow> bool" where
  "detaches e \<longleftrightarrow> arrived e = Some SIGTSTP"

fun shown :: "poll_event \<Rightarrow> string" where
  "shown (CanReadFromPty rs ws) = snd (io_copy rs ws)"
| "shown _ = []"

fun typed :: "poll_event \<Rightarrow> string" where
  "typed (CanReadFromController rs ws) = snd (io_copy rs ws)"
| "typed _ = []"

fun hangs_up :: "poll_event \<Rightarrow> bool" where
  "hangs_up (CanReadFromPty rs ws) \<longleftrightarrow> terminated (fst (io_copy rs ws)) = Inr True"
| "hangs_up (CanReadFromController rs ws) \<longleftrightarrow> terminated (fst (io_copy rs ws)) = Inr True"
| "hangs_up _ \<longleftrightarrow> False"

definition detach_calls :: "string \<Rightarrow> poll_event \<Rightarrow> client_call list" where
  "detach_calls name e = (if detaches e then [CallDetached name] else [])"

lemma map_sum_Failed [simp]: "map_sum Failed id r = Inr x \<longleftrightarrow> r = Inr x"
  by (cases r) auto

lemma request_eq:
  "request net call (s, t) = (Inr u, s', t') \<Longrightarrow> s' = snd (net_serve net (client_request_of call) s) \<and> t' = t"
  by (auto simp: request_def split: prod.splits)

lemma poll_event_effect:
  assumes "handle_poll_event net name e (s, t) = (Inr ended, s', t')"
  shows "ended = (hangs_up e \<or> detaches e) \<and>
    s' = serve_all net (key_calls name e @ detach_calls name e) s \<and>
    tm_screen t' = tm_screen t @ shown e \<and> tm_typed t' = tm_typed t @ typed e"
proof (cases e)
  case (CanReadFromPty rs ws)
  with assms show ?thesis
    by (auto simp: on_terminal_def key_calls_def detach_calls_def detaches_def arrived_def split: prod.splits sum.splits)
next
  case (CanReadFromController rs ws)
  with assms show ?thesis
    by (auto simp: on_terminal_def key_calls_def detach_calls_def detaches_def arrived_def split: prod.splits sum.splits)
next
  case (SignalArrived r)
  with assms obtain info where info: "signalfd_read r = Inr info"
    by (auto simp: tio_bind_def io_try_def split: prod.splits sum.splits)
  with assms SignalArrived obtain sig where sig: "signo_of info = Inr sig"
    by (auto simp: tio_bind_def io_try_def tio_fail_def split: sum.splits)
  then have "sig = uint (ssi_signo info)" by (auto simp: signo_of_def split: if_splits)
  with SignalArrived info have arrived: "arrived e = Some sig" by (simp add: arrived_def)
  have "handle_signal_arrived net name sig (s, t) = (Inr ended, s', t')"
    using assms SignalArrived info sig by (simp add: tio_bind_def io_try_def)
  then show ?thesis
    using arrived SignalArrived
    by (auto simp: handle_signal_arrived_def key_calls_def detach_calls_def detaches_def tio_bind_eq tio_ret_def tio_fail_def
        dest!: request_eq split: if_splits)
next
  case OtherToken
  with assms show ?thesis
    by (auto simp: tio_ret_def key_calls_def detach_calls_def detaches_def arrived_def)
qed

lemma poll_events_effect:
  "handle_poll_events net name es (s, t) = (Inr ended, s', t') \<Longrightarrow>
   \<exists>done post. es = done @ post \<and>
     s' = serve_all net (concat (map (\<lambda>e. key_calls name e @ detach_calls name e) done)) s \<and>
     tm_screen t' = tm_screen t @ concat (map shown done) \<and> tm_typed t' = tm_typed t @ concat (map typed done) \<and>
     (if ended then done \<noteq> [] \<and> (hangs_up (last done) \<or> detaches (last done)) \<and>
        list_all (\<lambda>e. \<not> hangs_up e \<and> \<not> detaches e) (butlast done)
      else post = [] \<and> list_all (\<lambda>e. \<not> hangs_up e \<and> \<not> detaches e) done)"
proof (induction es arbitrary: s t)
  case Nil
  then show ?case by (auto simp: tio_ret_def)
next
  case (Cons e es)
  from Cons.prems obtain b s1 t1 where e: "handle_poll_event net name e (s, t) = (Inr b, s1, t1)"
    and rest: "(if b then tio_ret True else handle_poll_events net name es) (s1, t1) = (Inr ended, s', t')"
    by (auto simp: tio_bind_eq)
  note effect = poll_event_effect [OF e]
  show ?case
  proof (cases b)
    case True
    with rest effect show ?thesis by (intro exI [of _ "[e]"] exI [of _ es]) (auto simp: tio_ret_def)
  next
    case False
    with rest have "handle_poll_events net name es (s1, t1) = (Inr ended, s', t')" by simp
    from Cons.IH [OF this] obtain finished post where ih: "es = finished @ post"
      "s' = serve_all net (concat (map (\<lambda>e. key_calls name e @ detach_calls name e) finished)) s1"
      "tm_screen t' = tm_screen t1 @ concat (map shown finished)" "tm_typed t' = tm_typed t1 @ concat (map typed finished)"
      "if ended then finished \<noteq> [] \<and> (hangs_up (last finished) \<or> detaches (last finished)) \<and>
        list_all (\<lambda>e. \<not> hangs_up e \<and> \<not> detaches e) (butlast finished)
      else post = [] \<and> list_all (\<lambda>e. \<not> hangs_up e \<and> \<not> detaches e) finished" by blast
    with False effect show ?thesis by (intro exI [of _ "e # finished"] exI [of _ post]) auto
  qed
qed

text \<open>The events of a run of rounds.\<close>

definition round_events :: "poll_round list \<Rightarrow> poll_event list" where
  "round_events ps = concat (map (\<lambda>p. case pr_poll p of Inr es \<Rightarrow> es | Inl _ \<Rightarrow> []) ps)"

lemma sync_frame:
  "tm_screen (snd (sync os t)) = tm_screen t" "tm_typed (snd (sync os t)) = tm_typed t"
  by (auto simp: sync_def Let_def split: sum.splits)

lemma session_loop_effect:
  "session_loop net name ps (s, t) = (Inr (), s', t') \<Longrightarrow>
   \<exists>pre e post. round_events ps = pre @ e # post \<and> (hangs_up e \<or> detaches e) \<and>
     list_all (\<lambda>e. \<not> hangs_up e \<and> \<not> detaches e) pre \<and>
     s' = serve_all net (concat (map (\<lambda>e. key_calls name e @ detach_calls name e) (pre @ [e]))) s \<and>
     tm_screen t' = tm_screen t @ concat (map shown (pre @ [e])) \<and>
     tm_typed t' = tm_typed t @ concat (map typed (pre @ [e]))"
proof (induction ps arbitrary: s t)
  case Nil
  then show ?case by (simp add: tio_fail_def)
next
  case (Cons p ps)
  from Cons.prems obtain t1 es ended s2 t2 where
    t1: "t1 = snd (sync (pr_sync p) t)" and es: "pr_poll p = Inr es"
    and events: "handle_poll_events net name es (s, t1) = (Inr ended, s2, t2)"
    and rest: "(if ended then tio_ret () else session_loop net name ps) (s2, t2) = (Inr (), s', t')"
    by (auto simp: tio_bind_eq on_terminal_eq io_try_def)
  have round: "round_events (p # ps) = es @ round_events ps" by (simp add: round_events_def es)
  from poll_events_effect [OF events] obtain dealt post where effect: "es = dealt @ post"
     "s2 = serve_all net (concat (map (\<lambda>e. key_calls name e @ detach_calls name e) dealt)) s"
     "tm_screen t2 = tm_screen t @ concat (map shown dealt)" "tm_typed t2 = tm_typed t @ concat (map typed dealt)"
     "if ended then dealt \<noteq> [] \<and> (hangs_up (last dealt) \<or> detaches (last dealt)) \<and>
        list_all (\<lambda>e. \<not> hangs_up e \<and> \<not> detaches e) (butlast dealt)
      else post = [] \<and> list_all (\<lambda>e. \<not> hangs_up e \<and> \<not> detaches e) dealt"
    by (auto simp: t1 sync_frame)
  show ?case
  proof (cases ended)
    case True
    with effect(5) obtain pre e where "dealt = pre @ [e]" by (cases dealt rule: rev_cases) auto
    with True effect rest round show ?thesis
      by (intro exI [of _ pre] exI [of _ e] exI [of _ "post @ round_events ps"]) (auto simp: tio_ret_def)
  next
    case False
    with rest have "session_loop net name ps (s2, t2) = (Inr (), s', t')" by simp
    from Cons.IH [OF this] obtain pre e post' where ih: "round_events ps = pre @ e # post'" "hangs_up e \<or> detaches e"
      "list_all (\<lambda>e. \<not> hangs_up e \<and> \<not> detaches e) pre"
      "s' = serve_all net (concat (map (\<lambda>e. key_calls name e @ detach_calls name e) (pre @ [e]))) s2"
      "tm_screen t' = tm_screen t2 @ concat (map shown (pre @ [e]))"
      "tm_typed t' = tm_typed t2 @ concat (map typed (pre @ [e]))" by blast
    with False effect round show ?thesis
      by (intro exI [of _ "dealt @ pre"] exI [of _ e] exI [of _ post']) auto
  qed
qed

text \<open>Between the ends nothing is requested but the signals of the keys.\<close>

lemma no_detach: "list_all (\<lambda>e. \<not> hangs_up e \<and> \<not> detaches e) es \<Longrightarrow>
   concat (map (\<lambda>e. key_calls name e @ detach_calls name e) es) = concat (map (key_calls name) es)"
  by (induction es) (auto simp: detach_calls_def)

lemma end_calls: "hangs_up e \<or> detaches e \<Longrightarrow> key_calls name e = []"
  by (cases e) (auto simp: key_calls_def detaches_def arrived_def)

lemma dropping_Inr: "dropping destroy body st = (Inr x, s', t') \<Longrightarrow>
    \<exists>t. body st = (Inr x, s', t) \<and> t' = snd (destroy t)"
  by (auto simp: dropping_def split: prod.splits sum.splits failure.splits)

lemma restore_frame:
  "tm_screen (snd (restore_terminal r o1 t)) = tm_screen t" "tm_typed (snd (restore_terminal r o1 t)) = tm_typed t"
  "tm_screen (snd (restore_signals os o2 t)) = tm_screen t" "tm_typed (snd (restore_signals os o2 t)) = tm_typed t"
  by (auto simp: restore_terminal_def restore_signals_def split: sum.splits prod.splits)

lemma open_frame:
  "tm_screen (snd (user_term_open os t)) = tm_screen t" "tm_typed (snd (user_term_open os t)) = tm_typed t"
  "tm_screen (snd (signal_fd_restore_new so sigs t)) = tm_screen t"
  "tm_typed (snd (signal_fd_restore_new so sigs t)) = tm_typed t"
  by (auto simp: user_term_open_def signal_fd_restore_new_def split: prod.splits)

lemma manage_session:
  assumes "manage net os name (s, t) = (Inr (), s', t')"
  obtains t1 t2 where
    "session_loop net name (ss_rounds os) (serve_all net [CallAttached name] s, t1) = (Inr (), s', t2)"
    "tm_screen t1 = tm_screen t" "tm_typed t1 = tm_typed t" "tm_screen t' = tm_screen t2" "tm_typed t' = tm_typed t2"
proof -
  let ?so = "ss_signals os" and ?ta = "snd (user_term_open os t)"
  let ?tb = "snd (signal_fd_restore_new (ss_signals os) session_signals (snd (user_term_open os t)))"
  from assms obtain original old t2 t3 where
    inner: "tio_bind (session_client net) (\<lambda>_. tio_bind (request net (CallAttached name)) (\<lambda>_.
         tio_bind (on_terminal (sync (ss_sync os))) (\<lambda>_. tio_bind (io_try (session_setup os)) (\<lambda>_.
           session_loop net name (ss_rounds os))))) (s, ?tb) = (Inr (), s', t2)"
    and drops: "t3 = snd (restore_signals ?so old t2)" "t' = snd (restore_terminal (ss_restore os) original t3)"
    by (auto simp: manage_def tio_bind_eq on_terminal_eq dest!: dropping_Inr)
  from inner have "session_loop net name (ss_rounds os) (serve_all net [CallAttached name] s, snd (sync (ss_sync os) ?tb)) = (Inr (), s', t2)"
    by (auto simp: tio_bind_eq on_terminal_eq io_try_def session_client_def dest!: request_eq)
  then show ?thesis by (rule that) (simp_all add: drops restore_frame open_frame sync_frame)
qed

text \<open>
  C18: what an attached session asks of the server and what it shows. Over the events of its
  rounds up to the one that ends it -- a terminal that hung up, or \<open>SIGTSTP\<close> -- the server is
  told first that the terminal is attached, then of each interrupt and quit key in order, and
  of the detaching exactly when \<open>SIGTSTP\<close> ended the session; the user sees the bytes copied
  from the service, in order, and the service gets the bytes copied from the user.
\<close>

theorem session_requests:
  assumes "manage net os name (s, t) = (Inr (), s', t')"
  shows "\<exists>pre e post. round_events (ss_rounds os) = pre @ e # post \<and> (hangs_up e \<or> detaches e) \<and>
    list_all (\<lambda>e. \<not> hangs_up e \<and> \<not> detaches e) pre \<and>
    s' = serve_all net (CallAttached name # concat (map (key_calls name) pre) @
           (if detaches e then [CallDetached name] else [])) s \<and>
    tm_screen t' = tm_screen t @ concat (map shown (pre @ [e])) \<and>
    tm_typed t' = tm_typed t @ concat (map typed (pre @ [e]))"
proof -
  from manage_session [OF assms] obtain t1 t2 where
    loop: "session_loop net name (ss_rounds os) (serve_all net [CallAttached name] s, t1) = (Inr (), s', t2)"
    and frame: "tm_screen t1 = tm_screen t" "tm_typed t1 = tm_typed t" "tm_screen t' = tm_screen t2" "tm_typed t' = tm_typed t2" .
  from session_loop_effect [OF loop] obtain pre e post where
    split: "round_events (ss_rounds os) = pre @ e # post" and ends: "hangs_up e \<or> detaches e"
    and quiet: "list_all (\<lambda>e. \<not> hangs_up e \<and> \<not> detaches e) pre"
    and server: "s' = serve_all net (concat (map (\<lambda>e. key_calls name e @ detach_calls name e) (pre @ [e])))
      (serve_all net [CallAttached name] s)"
    and bytes: "tm_screen t2 = tm_screen t1 @ concat (map shown (pre @ [e]))"
      "tm_typed t2 = tm_typed t1 @ concat (map typed (pre @ [e]))" by blast
  have "concat (map (\<lambda>e. key_calls name e @ detach_calls name e) (pre @ [e])) =
      concat (map (key_calls name) pre) @ (if detaches e then [CallDetached name] else [])"
    using no_detach [OF quiet, of name] end_calls [OF ends, of name] by (simp add: detach_calls_def)
  with server have "s' = serve_all net (CallAttached name # concat (map (key_calls name) pre) @
           (if detaches e then [CallDetached name] else [])) s"
    by (simp only: serve_all_simps)
  with split ends quiet bytes frame show ?thesis by (metis (no_types, lifting))
qed

text \<open>The sample session on a server that records its requests.\<close>

lemma sum_four: "(\<Sum>i < 4. f i) = f 0 + f 1 + f 2 + f (3 :: nat)" for f :: "nat \<Rightarrow> nat"
  by (simp add: numeral_eq_Suc)

lemma sample_signal: "n < 256 \<Longrightarrow> signalfd_read (Inr (signal_bytes n)) = Inr \<lparr>ssi_signo = of_nat n\<rparr>"
  by (simp add: signalfd_read_def le_u32_def signal_bytes_def sum_four take_bit_eq_mod)

definition unit_net :: "client_request list net" where
  "unit_net = sample_net\<lparr>net_serve := \<lambda>r s. (Inr (200, Reply JsonUnit), s @ [r])\<rparr>"

lemma unit_net_steps:
  "request unit_net call (s, t) = (Inr (), s @ [client_request_of call], t)"
  "session_client unit_net (s, t) = (Inr API_SOCKET_PATH, s, t)"
  by (simp_all add: request_def unit_net_def sample_net_def request_json_def send_def decode_json_def
      session_client_def client_new_def with_socket_def)

lemma sample_run_session:
  "manage unit_net (sample_session sample_rounds) ''web'' ([], sample_terminal) =
     (Inr (), map client_request_of [CallAttached ''web'', CallSignal ''web'' SIGINT, CallDetached ''web''],
      sample_terminal\<lparr>tm_winsize := sy_winsize sample_sync, tm_screen := ''hi'', tm_typed := ''q''\<rparr>)"
proof -
  have prepared: "session_setup (sample_session ps) = Inr (replicate 6 ())" for ps
    by (simp add: session_setup_def sample_session_def set_nonblocking_def cerr_def numeral_eq_Suc)
  have copies: "io_copy [Inr ''hi''] [] = (Inl would_block, ''hi'')" "io_copy [Inr ''q''] [] = (Inl would_block, ''q'')"
    by simp_all
  have blocks: "terminated (Inl would_block :: io_error + nat) = Inr False"
    by (simp add: terminated_def would_block_def)
  have entering: "user_term_open (sample_session sample_rounds) t = (Inr (tm_termios t), t)"
    "signal_fd_restore_new sample_signal_os session_signals t =
       (Inr (tm_blocked t), t\<lparr>tm_blocked := tm_blocked t \<union> set session_signals\<rparr>)" for t
    by (simp_all add: user_term_open_def sample_session_def cerr_def signal_fd_restore_new_def signal_stream_init_def
        signal_set_new_ok masks_ok signalfd_new_def sample_signal_os_def signals_ok_def)
  have leaving: "restore_terminal (0, eof) original t = (Inr (), t\<lparr>tm_termios := original\<rparr>)"
    "restore_signals sample_signal_os old t = (Inr (), t\<lparr>tm_blocked := old\<rparr>)" for original old t
    by (simp_all add: restore_terminal_def cerr_def restore_signals_mask sample_signal_os_def)
  have fields: "ss_rounds (sample_session ps) = ps" "ss_signals (sample_session ps) = sample_signal_os"
    "ss_sync (sample_session ps) = sample_sync" "ss_restore (sample_session ps) = (0, eof)" for ps
    by (simp_all add: sample_session_def)
  have loop: "session_loop unit_net ''web'' sample_rounds (s, t) =
      (Inr (), s @ map client_request_of [CallSignal ''web'' SIGINT, CallDetached ''web''],
       (snd (sync sample_sync t))\<lparr>tm_screen := tm_screen t @ ''hi'', tm_typed := tm_typed t @ ''q''\<rparr>)" for s t
    by (simp add: sample_rounds_def tio_bind_def on_terminal_def io_try_def sample_sync_ok copies blocks sample_signal
        signo_of_def handle_signal_arrived_def unit_net_steps tio_ret_def synced_idem del: client_request_of.simps io_copy.simps)
  have fresh: "tm_screen sample_terminal = []" "tm_typed sample_terminal = []"
    "\<lparr>ws_row = 24, ws_col = 80, ws_xpixel = 0, ws_ypixel = 0\<rparr> = sy_winsize sample_sync"
    by (simp_all add: sample_terminal_def sample_sync_def)
  show ?thesis
    unfolding manage_def fields
    by (simp add: tio_bind_def on_terminal_def io_try_def entering leaving prepared unit_net_steps loop dropping_def
        sample_sync_ok fresh del: replicate.simps client_request_of.simps)
qed

theorem session_requests_witness:
  "\<exists>pre e post. round_events sample_rounds = pre @ e # post \<and> (hangs_up e \<or> detaches e) \<and>
    list_all (\<lambda>e. \<not> hangs_up e \<and> \<not> detaches e) pre \<and>
    map client_request_of [CallAttached ''web'', CallSignal ''web'' SIGINT, CallDetached ''web''] =
      serve_all unit_net (CallAttached ''web'' # concat (map (key_calls ''web'') pre) @
           (if detaches e then [CallDetached ''web''] else [])) [] \<and>
    ''hi'' = [] @ concat (map shown (pre @ [e])) \<and> ''q'' = [] @ concat (map typed (pre @ [e]))"
  using session_requests [OF sample_run_session]
  by (simp add: sample_session_def sample_terminal_def)

theorem session_restores_witness:
  "tm_typed (snd (snd (manage unit_net (sample_session sample_rounds) ''web'' ([], sample_terminal)))) = ''q'' \<and>
   tm_termios (snd (snd (manage unit_net (sample_session sample_rounds) ''web'' ([], sample_terminal)))) = sample_termios"
proof -
  have "fst (so_sigmask (ss_signals (sample_session sample_rounds)) how) = 0" for how
    by (simp add: sample_session_def sample_signal_os_def)
  from session_restores [OF this sample_run_session] show ?thesis
    unfolding sample_run_session by (simp add: sample_terminal_def)
qed

end
